(* ===== verification/Prelude.thy ===== *)
theory Prelude
  imports Main "HOL-Library.Finite_Map" "HOL-Library.Char_ord" "HOL-Library.List_Lexorder"
    "HOL-Library.Sublist"
begin

section \<open>Shared vocabulary and automation\<close>

text \<open>
  This theory holds what every component of the development shares: the collections of
  simplification facts, generic lemmas on lists and maps that the Go maps and slices of the source
  need, the transition-system interface with its invariant rule, and the registry interface
  (insert, look up, delete by a string key) that the relay hub and the adapter registry provide.
\<close>

named_theorems go_str \<open>evaluation of the Go string functions\<close>
named_theorems go_val \<open>evaluation of the Go dynamic values\<close>
named_theorems hub_simps \<open>field reads after hub operations\<close>

type_synonym time = int  \<comment> \<open>nanoseconds, as a Go \<open>time.Time\<close> or \<open>time.Duration\<close> counts them\<close>

definition second :: time where
  "second = 1000000000"

lemma second_pos [simp]: "0 < second"
  by (simp add: second_def)

subsection \<open>Lists\<close>

text \<open>Deduplication that keeps the first occurrence, as a Go loop with a \<open>seen\<close> set does it.\<close>

fun dedup_from :: "'a list \<Rightarrow> 'a list \<Rightarrow> 'a list" where
  "dedup_from seen [] = []"
| "dedup_from seen (x # xs) =
     (if x \<in> set seen then dedup_from seen xs else x # dedup_from (x # seen) xs)"

lemma set_dedup_from [simp]: "set (dedup_from seen xs) = set xs - set seen"
  by (induction seen xs rule: dedup_from.induct) auto

lemma distinct_dedup_from [simp]: "distinct (dedup_from seen xs)"
  by (induction seen xs rule: dedup_from.induct) auto

lemma dedup_from_distinct:
  "distinct xs \<Longrightarrow> set xs \<inter> set seen = {} \<Longrightarrow> dedup_from seen xs = xs"
  by (induction seen xs rule: dedup_from.induct) auto

lemma dedup_from_subseq: "subseq (dedup_from seen xs) xs"
  by (induction seen xs rule: dedup_from.induct) auto

subsection \<open>Maps\<close>

text \<open>Deleting a list of keys one by one, as a Go loop of \<open>delete\<close> calls does.\<close>

fun delete_keys :: "'k list \<Rightarrow> ('k \<rightharpoonup> 'v) \<Rightarrow> ('k \<rightharpoonup> 'v)" where
  "delete_keys [] m = m"
| "delete_keys (k # ks) m = delete_keys ks (m(k := None))"

lemma delete_keys_apply [simp]: "delete_keys ks m k = (if k \<in> set ks then None else m k)"
  by (induction ks arbitrary: m) auto

subsection \<open>Transition systems and their invariants\<close>

text \<open>
  A component with internal steps is a set of initial states and a step relation; what holds at the
  start and is kept by every step holds in every reachable state.
\<close>

inductive reach :: "('s \<Rightarrow> bool) \<Rightarrow> ('s \<Rightarrow> 's \<Rightarrow> bool) \<Rightarrow> 's \<Rightarrow> bool"
  for init :: "'s \<Rightarrow> bool" and step :: "'s \<Rightarrow> 's \<Rightarrow> bool" where
  reach_init: "init s \<Longrightarrow> reach init step s"
| reach_step: "reach init step s \<Longrightarrow> step s t \<Longrightarrow> reach init step t"

locale invariant_system =
  fixes init :: "'s \<Rightarrow> bool" and step :: "'s \<Rightarrow> 's \<Rightarrow> bool" and inv :: "'s \<Rightarrow> bool"
  assumes inv_init: "init s \<Longrightarrow> inv s"
    and inv_step: "inv s \<Longrightarrow> step s t \<Longrightarrow> inv t"
begin

lemma reachable_inv: "reach init step s \<Longrightarrow> inv s"
proof (induction rule: reach.induct)
  case (reach_init s)
  then show ?case by (rule inv_init)
next
  case (reach_step s t)
  then show ?case by (blast intro: inv_step)
qed

end

subsection \<open>Simulation\<close>

text \<open>
  A detailed system implements an abstract one when every detailed step, from a reachable state, is matched by
  an abstract step or by none; then every reachable detailed state is related to a reachable abstract one.
\<close>

locale simulation =
  fixes init :: "'s \<Rightarrow> bool" and step :: "'s \<Rightarrow> 's \<Rightarrow> bool"
    and spec_init :: "'a \<Rightarrow> bool" and spec_step :: "'a \<Rightarrow> 'a \<Rightarrow> bool"
    and rel :: "'s \<Rightarrow> 'a \<Rightarrow> bool"
  assumes sim_init: "init s \<Longrightarrow> \<exists>a. spec_init a \<and> rel s a"
    and sim_step: "reach init step s \<Longrightarrow> rel s a \<Longrightarrow> step s t \<Longrightarrow> rel t a \<or> (\<exists>b. spec_step a b \<and> rel t b)"
begin

lemma simulated: "reach init step s \<Longrightarrow> \<exists>a. reach spec_init spec_step a \<and> rel s a"
proof (induction rule: reach.induct)
  case (reach_init s)
  then show ?case using sim_init by (blast intro: reach.reach_init)
next
  case (reach_step s t)
  then show ?case using sim_step by (blast intro: reach.reach_step)
qed

end

subsection \<open>Registries\<close>

text \<open>
  The interface of a table keyed by a string: \<open>put\<close> binds a key it accepts, \<open>get\<close> reads it; a registry
  can also \<open>del\<close>ete a key. The lemmas are what the clients of the source rely on, and what they get
  wrong: the teardown of a superseded session deletes by key, so it removes the entry of its successor.
\<close>

locale keyed_table =
  fixes get :: "'s \<Rightarrow> string \<Rightarrow> 'v option"
    and put :: "string \<Rightarrow> 'v \<Rightarrow> 's \<Rightarrow> 's"
    and accepts :: "string \<Rightarrow> bool"
  assumes get_put_same: "accepts k \<Longrightarrow> get (put k v s) k = Some v"
    and get_put_other: "j \<noteq> k \<Longrightarrow> get (put k v s) j = get s j"
    and put_rejected: "\<not> accepts k \<Longrightarrow> get (put k v s) j = get s j"
begin

lemma get_put: "get (put k v s) j = (if j = k \<and> accepts k then Some v else get s j)"
  by (cases "j = k"; cases "accepts k") (simp_all add: get_put_same get_put_other put_rejected)

lemma put_supersedes: "accepts k \<Longrightarrow> get (put k w (put k v s)) k = Some w"
  by (rule get_put_same)

text \<open>After a list of puts a key is bound to the last value put under it.\<close>

lemma get_fold_put:
  "get (fold (\<lambda>(k, v). put k v) kvs s) j =
     (case filter (\<lambda>kv. fst kv = j \<and> accepts j) kvs of [] \<Rightarrow> get s j | xs \<Rightarrow> Some (snd (last xs)))"
proof (induction kvs arbitrary: s)
  case (Cons kv kvs)
  obtain k v where "kv = (k, v)" by (cases kv)
  with Cons show ?case by (auto simp: get_put split: list.splits)
qed simp

end

locale registry = keyed_table get put accepts
  for get :: "'s \<Rightarrow> string \<Rightarrow> 'v option" and put accepts +
  fixes del :: "string \<Rightarrow> 's \<Rightarrow> 's"
  assumes get_del_same: "get (del k s) k = None"
    and get_del_other: "j \<noteq> k \<Longrightarrow> get (del k s) j = get s j"
begin

lemma get_del: "get (del k s) j = (if j = k then None else get s j)"
  by (simp add: get_del_same get_del_other)

lemma stale_teardown: "get (del k (put k w (put k v s))) k = None"
  by (rule get_del_same)

lemma put_del_commute:
  "j \<noteq> k \<Longrightarrow> get (del j (put k v s)) i = get (put k v (del j s)) i"
  by (simp add: get_put get_del)

end

subsection \<open>Read-through stores with expiry\<close>

text \<open>
  The interface of a store whose entries expire: \<open>look\<close> reads a key at a time, \<open>store\<close> writes it at a
  time for \<open>ttl\<close>. \<open>valid\<close> are the values a store accepts. The config cache and the cached signing keys
  are both such stores, read through by the same scheme: look, else fetch and store.
\<close>

definition read_through ::
    "(time \<Rightarrow> 'k \<Rightarrow> 's \<Rightarrow> 'v option) \<Rightarrow> (time \<Rightarrow> 'k \<Rightarrow> 'v \<Rightarrow> 's \<Rightarrow> 's) \<Rightarrow> time \<Rightarrow> 'k \<Rightarrow> ('e + 'v) \<Rightarrow> time
       \<Rightarrow> 's \<Rightarrow> ('e + 'v) \<times> 's" where
  \<comment> \<open>\<open>now\<close> is the time of the lookup, \<open>later\<close> the time the fetch ends\<close>
  "read_through look store now k fetched later s =
     (case look now k s of
        Some v \<Rightarrow> (Inr v, s)
      | None \<Rightarrow> (case fetched of Inl e \<Rightarrow> (Inl e, s) | Inr v \<Rightarrow> (Inr v, store later k v s)))"

locale expiring_store =
  fixes look :: "time \<Rightarrow> 'k \<Rightarrow> 's \<Rightarrow> 'v option"
    and store :: "time \<Rightarrow> 'k \<Rightarrow> 'v \<Rightarrow> 's \<Rightarrow> 's"
    and ttl :: time
    and valid :: "'v \<Rightarrow> bool"
  assumes look_fresh: "valid v \<Longrightarrow> t < now + ttl \<Longrightarrow> look t k (store now k v s) = Some v"
    and look_expired: "now + ttl \<le> t \<Longrightarrow> look t k (store now k v s) = None"
    and look_other: "j \<noteq> k \<Longrightarrow> look t j (store now k v s) = look t j s"
begin

text \<open>A second read within the time to live returns the value of the first and fetches nothing.\<close>

lemma read_through_hit:
  assumes "look now k s = None" "valid v" "read_through look store now k (Inr v) later s = (r, s')"
    and "t < later + ttl"
  shows "r = Inr v" "read_through look store t k f later' s' = (Inr v, s')"
  using assms by (auto simp: read_through_def look_fresh)

text \<open>After it, the read is a fetch again.\<close>

lemma read_through_refetch:
  assumes "look now k s = None" "read_through look store now k (Inr v) later s = (r, s')"
    and "later + ttl \<le> t"
  shows "look t k s' = None" "read_through look store t k (Inr w) t' s' = (Inr w, store t' k w s')"
  using assms by (auto simp: read_through_def look_expired)

text \<open>An error is returned and nothing is stored.\<close>

lemma read_through_error:
  "look now k s = None \<Longrightarrow> read_through look store now k (Inl e) later s = (Inl e, s)"
  by (simp add: read_through_def)

lemma read_through_other:
  assumes "read_through look store now k f later s = (r, s')" "j \<noteq> k"
  shows "look t j s' = look t j s"
  using assms by (auto simp: read_through_def look_other split: option.splits sum.splits)

end

end
