(* ===== verification/GoStrings.thy ===== *)
theory GoStrings
  imports Prelude "HOL-Library.Word"
begin

section \<open>The Go string functions the source uses\<close>

text \<open>
  A Go \<open>string\<close> is a sequence of bytes, which is what \<^typ>\<open>string\<close> is: a list of 8-bit \<^typ>\<open>char\<close>.
  Byte-wise functions (prefix, suffix, split, join, cut, replace of single bytes) are exact on
  every input. \<open>TrimSpace\<close> is exact too: the runes that \<open>unicode.IsSpace\<close> accepts are listed by their
  UTF-8 encodings. Case mapping (\<open>ToLower\<close>, \<open>ToUpper\<close>, \<open>EqualFold\<close>) is the ASCII mapping, which is
  exact on ASCII strings; bytes from 0x80 are left alone, where Go maps letters by Unicode tables.
\<close>

subsection \<open>Prefixes, suffixes, substrings\<close>

definition has_prefix :: "string \<Rightarrow> string \<Rightarrow> bool" where
  "has_prefix s p \<longleftrightarrow> take (length p) s = p"

definition has_suffix :: "string \<Rightarrow> string \<Rightarrow> bool" where
  "has_suffix s p \<longleftrightarrow> has_prefix (rev s) (rev p)"

definition trim_prefix :: "string \<Rightarrow> string \<Rightarrow> string" where
  "trim_prefix s p = (if has_prefix s p then drop (length p) s else s)"

definition trim_suffix :: "string \<Rightarrow> string \<Rightarrow> string" where
  "trim_suffix s p = (if has_suffix s p then take (length s - length p) s else s)"

fun contains :: "string \<Rightarrow> string \<Rightarrow> bool" where
  "contains [] p = has_prefix [] p"
| "contains (c # cs) p = (has_prefix (c # cs) p \<or> contains cs p)"

definition count_byte :: "string \<Rightarrow> char \<Rightarrow> nat" where
  "count_byte s c = length (filter (\<lambda>x. x = c) s)"

lemmas [go_str] = has_prefix_def has_suffix_def trim_prefix_def trim_suffix_def count_byte_def

lemma has_prefix_iff: "has_prefix s p \<longleftrightarrow> (\<exists>t. s = p @ t)"
  unfolding has_prefix_def by (metis append_eq_conv_conj append_take_drop_id)

lemma has_suffix_iff: "has_suffix s p \<longleftrightarrow> (\<exists>t. s = t @ p)"
  unfolding has_suffix_def has_prefix_iff by (metis rev_append rev_rev_ident)

lemma has_prefix_append [simp]: "has_prefix (p @ t) p"
  by (simp add: has_prefix_def)

lemma has_suffix_append [simp]: "has_suffix (t @ p) p"
  by (simp add: has_suffix_iff)

lemma has_prefix_Nil [simp]: "has_prefix s []"
  by (simp add: has_prefix_def)

lemma trim_prefix_append [simp]: "trim_prefix (p @ t) p = t"
  by (simp add: trim_prefix_def)

lemma trim_suffix_append [simp]: "trim_suffix (t @ p) p = t"
  by (simp add: trim_suffix_def)

lemma has_prefix_trans: "has_prefix s p \<Longrightarrow> has_prefix p q \<Longrightarrow> has_prefix s q"
  by (auto simp: has_prefix_iff)

lemma contains_iff: "contains s p \<longleftrightarrow> (\<exists>a b. s = a @ p @ b)"
proof (induction s)
  case Nil
  show ?case by (simp add: has_prefix_iff)
next
  case (Cons c cs)
  show ?case
  proof
    assume "contains (c # cs) p"
    then consider "has_prefix (c # cs) p" | "contains cs p" by auto
    then show "\<exists>a b. c # cs = a @ p @ b"
    proof cases
      case 1
      then obtain t where "c # cs = [] @ p @ t" by (auto simp: has_prefix_iff)
      then show ?thesis by blast
    next
      case 2
      with Cons.IH obtain a b where "cs = a @ p @ b" by blast
      then have "c # cs = (c # a) @ p @ b" by simp
      then show ?thesis by blast
    qed
  next
    assume "\<exists>a b. c # cs = a @ p @ b"
    then obtain a b where ab: "c # cs = a @ p @ b" by blast
    show "contains (c # cs) p"
    proof (cases a)
      case Nil
      with ab have "has_prefix (c # cs) p" by (auto simp: has_prefix_iff)
      then show ?thesis by simp
    next
      case (Cons x a')
      with ab have "cs = a' @ p @ b" by simp
      with Cons.IH show ?thesis by auto
    qed
  qed
qed

subsection \<open>Trimming a cut set\<close>

definition trim_left_set :: "string \<Rightarrow> string \<Rightarrow> string" where
  "trim_left_set s cs = dropWhile (\<lambda>c. c \<in> set cs) s"

definition trim_right_set :: "string \<Rightarrow> string \<Rightarrow> string" where
  "trim_right_set s cs = rev (dropWhile (\<lambda>c. c \<in> set cs) (rev s))"

definition trim_set :: "string \<Rightarrow> string \<Rightarrow> string" where
  "trim_set s cs = trim_right_set (trim_left_set s cs) cs"

lemmas [go_str] = trim_left_set_def trim_right_set_def trim_set_def

lemma trim_right_set_last: "t = trim_right_set s cs \<Longrightarrow> t \<noteq> [] \<Longrightarrow> last t \<notin> set cs"
  unfolding trim_right_set_def by (metis hd_dropWhile last_rev rev_is_Nil_conv)

lemma trim_right_set_idem [simp]:
  "trim_right_set (trim_right_set s cs) cs = trim_right_set s cs"
  by (simp add: trim_right_set_def)

lemma trim_right_set_noop: "s = [] \<or> last s \<notin> set cs \<Longrightarrow> trim_right_set s cs = s"
  by (cases s rule: rev_cases) (auto simp: trim_right_set_def)

lemma trim_right_set_prefix: "\<exists>t. s = trim_right_set s cs @ t \<and> set t \<subseteq> set cs"
proof -
  have "rev s = takeWhile (\<lambda>c. c \<in> set cs) (rev s) @ dropWhile (\<lambda>c. c \<in> set cs) (rev s)"
    by simp
  then have "s = trim_right_set s cs @ rev (takeWhile (\<lambda>c. c \<in> set cs) (rev s))"
    unfolding trim_right_set_def by (metis rev_append rev_rev_ident)
  then show ?thesis by (metis set_rev set_takeWhileD subsetI)
qed

subsection \<open>TrimSpace\<close>

definition space_runes :: "string list" where
  "space_runes =
     [[CHR 0x20], [CHR 0x09], [CHR 0x0A], [CHR 0x0B], [CHR 0x0C], [CHR 0x0D],
      [CHR 0xC2, CHR 0x85], [CHR 0xC2, CHR 0xA0], [CHR 0xE1, CHR 0x9A, CHR 0x80]]
     @ map (\<lambda>c. [CHR 0xE2, CHR 0x80, c])
         [CHR 0x80, CHR 0x81, CHR 0x82, CHR 0x83, CHR 0x84, CHR 0x85, CHR 0x86, CHR 0x87,
          CHR 0x88, CHR 0x89, CHR 0x8A, CHR 0xA8, CHR 0xA9, CHR 0xAF]
     @ [[CHR 0xE2, CHR 0x81, CHR 0x9F], [CHR 0xE3, CHR 0x80, CHR 0x80]]"

text \<open>
  Stripping any of a list of byte patterns from the front until none matches. Each pattern is
  given as its first byte and the rest, so that a step always consumes a byte.
\<close>

fun strip_front :: "string list \<Rightarrow> string \<Rightarrow> string" where
  "strip_front ps [] = []"
| "strip_front ps (c # cs) =
     (case find (\<lambda>p. p \<noteq> [] \<and> has_prefix (c # cs) p) ps of
        None \<Rightarrow> c # cs
      | Some p \<Rightarrow> strip_front ps (drop (length p - 1) cs))"

definition trim_space :: "string \<Rightarrow> string" where
  "trim_space s = rev (strip_front (map rev space_runes) (rev (strip_front space_runes s)))"

definition no_front :: "string list \<Rightarrow> string \<Rightarrow> bool" where
  "no_front ps s \<longleftrightarrow> (\<forall>p \<in> set ps. p \<noteq> [] \<longrightarrow> \<not> has_prefix s p)"

lemma no_front_Nil [simp]: "no_front ps []"
  by (simp add: no_front_def has_prefix_def)

lemma no_front_prefix: "no_front ps (a @ b) \<Longrightarrow> no_front ps a"
  by (auto simp: no_front_def has_prefix_iff)

lemma no_front_find:
  "no_front ps s \<longleftrightarrow> find (\<lambda>p. p \<noteq> [] \<and> has_prefix s p) ps = None"
  by (auto simp: no_front_def find_None_iff)

lemma strip_front_no_front: "no_front ps (strip_front ps s)"
proof (induction ps s rule: strip_front.induct)
  case (1 ps)
  show ?case by simp
next
  case (2 ps c cs)
  then show ?case
    by (cases "find (\<lambda>p. p \<noteq> [] \<and> has_prefix (c # cs) p) ps") (auto simp: no_front_find)
qed

lemma strip_front_noop: "no_front ps s \<Longrightarrow> strip_front ps s = s"
  by (cases s) (simp_all add: no_front_find)

lemma strip_front_idem [simp]: "strip_front ps (strip_front ps s) = strip_front ps s"
  by (rule strip_front_noop) (rule strip_front_no_front)

lemma strip_front_suffix: "\<exists>t. s = t @ strip_front ps s"
proof (induction ps s rule: strip_front.induct)
  case (1 ps)
  show ?case by simp
next
  case (2 ps c cs)
  show ?case
  proof (cases "find (\<lambda>p. p \<noteq> [] \<and> has_prefix (c # cs) p) ps")
    case None
    then show ?thesis by simp
  next
    case (Some p)
    with 2 obtain t where "drop (length p - 1) cs = t @ strip_front ps (drop (length p - 1) cs)"
      by blast
    then have "c # cs = (c # take (length p - 1) cs @ t) @ strip_front ps (drop (length p - 1) cs)"
      by (metis Cons_eq_appendI append_take_drop_id append.assoc)
    then show ?thesis unfolding strip_front.simps Some option.case by (rule exI)
  qed
qed

lemma trim_space_Nil [simp]: "trim_space [] = []"
  by (simp add: trim_space_def)

lemma trim_space_infix: "\<exists>a b. s = a @ trim_space s @ b"
proof -
  obtain a where a: "s = a @ strip_front space_runes s"
    using strip_front_suffix by blast
  obtain b where "rev (strip_front space_runes s)
      = b @ strip_front (map rev space_runes) (rev (strip_front space_runes s))"
    using strip_front_suffix by blast
  then have "strip_front space_runes s = trim_space s @ rev b"
    unfolding trim_space_def by (metis rev_append rev_rev_ident)
  with a have "s = a @ trim_space s @ rev b" by simp
  then show ?thesis by blast
qed

lemma trim_space_idem [simp]: "trim_space (trim_space s) = trim_space s"
proof -
  let ?l = "strip_front space_runes s"
  let ?r = "strip_front (map rev space_runes) (rev ?l)"
  obtain b where "rev ?l = b @ ?r"
    using strip_front_suffix by blast
  then have "?l = rev ?r @ rev b" by (metis rev_append rev_rev_ident)
  then have "no_front space_runes (rev ?r)"
    by (metis no_front_prefix strip_front_no_front)
  then have "strip_front space_runes (rev ?r) = rev ?r" by (rule strip_front_noop)
  then show ?thesis by (simp add: trim_space_def)
qed

lemma trim_space_noop:
  "no_front space_runes s \<Longrightarrow> no_front (map rev space_runes) (rev s) \<Longrightarrow> trim_space s = s"
  by (simp add: trim_space_def strip_front_noop)

text \<open>What \<open>TrimSpace\<close> empties ends with a space rune, so it cannot follow a trimmed string's front.\<close>

lemma strip_front_Nil_suffix:
  "strip_front ps s = [] \<Longrightarrow> s \<noteq> [] \<Longrightarrow> \<exists>p \<in> set ps. p \<noteq> [] \<and> has_suffix s p"
proof (induction ps s rule: strip_front.induct)
  case (2 ps c cs)
  obtain p where p: "find (\<lambda>p. p \<noteq> [] \<and> has_prefix (c # cs) p) ps = Some p"
    using "2.prems" by (auto split: option.splits)
  then have pp: "p \<in> set ps" "p \<noteq> []" "has_prefix (c # cs) p"
    by (auto simp: find_Some_iff)
  then obtain t where t: "c # cs = p @ t" by (auto simp: has_prefix_iff)
  have len: "0 < length p" using pp(2) by simp
  then have d: "drop (length p - 1) cs = t"
    using t by (metis One_nat_def append_eq_conv_conj drop_Suc_Cons Suc_pred)
  show ?case
  proof (cases "t = []")
    case True
    with pp t have "has_suffix (c # cs) p" by (metis append.right_neutral append_Nil has_suffix_append)
    with pp show ?thesis by blast
  next
    case False
    have "strip_front ps t = []" using "2.prems"(1) p d by simp
    with "2.IH" [OF p] False d obtain q where q: "q \<in> set ps" "q \<noteq> []" "has_suffix t q" by blast
    have "has_suffix (c # cs) q" using q(3) unfolding t has_suffix_iff by (metis append.assoc)
    with q show ?thesis by blast
  qed
qed simp

lemma trim_space_no_suffix:
  "p \<in> set space_runes \<Longrightarrow> p \<noteq> [] \<Longrightarrow> \<not> has_suffix (trim_space s) p"
  using strip_front_no_front [of "map rev space_runes" "rev (strip_front space_runes s)"]
  by (auto simp: trim_space_def no_front_def has_suffix_def)

lemma trim_space_empty_suffix:
  assumes "trim_space r = []" "r \<noteq> []"
  shows "\<exists>p \<in> set space_runes. p \<noteq> [] \<and> has_suffix r p"
proof (cases "strip_front space_runes r = []")
  case True
  with assms(2) show ?thesis by (rule strip_front_Nil_suffix [rotated])
next
  case False
  let ?u = "rev (strip_front space_runes r)"
  obtain c cs where u: "?u = c # cs" using False by (cases ?u) auto
  have "strip_front (map rev space_runes) ?u = []" using assms(1) by (simp add: trim_space_def)
  then have "\<not> no_front (map rev space_runes) ?u" using u strip_front_noop by fastforce
  then obtain p where p: "p \<in> set space_runes" "p \<noteq> []" "has_prefix ?u (rev p)"
    by (auto simp: no_front_def)
  then have "has_suffix (strip_front space_runes r) p" by (simp add: has_suffix_def)
  then have "has_suffix r p"
    using strip_front_suffix [of r space_runes] unfolding has_suffix_iff by (metis append.assoc)
  with p show ?thesis by blast
qed

text \<open>
  Most values the source trims are plain identifiers; they are left as they are when they neither
  start nor end with a space rune, which a look at the first and the last byte decides.
\<close>

definition plain_byte :: "char \<Rightarrow> bool" where
  "plain_byte c \<longleftrightarrow> (33 :: nat) \<le> of_char c \<and> of_char c < (127 :: nat)"

lemma space_runes_not_plain: "p \<in> set space_runes \<Longrightarrow> p \<noteq> [] \<and> \<not> plain_byte (hd p) \<and> \<not> plain_byte (last p)"
  by (auto simp: space_runes_def plain_byte_def)

lemma trim_space_plain:
  assumes "plain_byte (hd s)" "plain_byte (last s)"
  shows "trim_space s = s"
proof (cases "s = []")
  case False
  show ?thesis
  proof (rule trim_space_noop)
    show "no_front space_runes s"
      using assms(1) space_runes_not_plain False
      by (fastforce simp: no_front_def has_prefix_iff)
    show "no_front (map rev space_runes) (rev s)"
      using assms(2) space_runes_not_plain False
      by (fastforce simp: no_front_def has_prefix_iff hd_rev[symmetric])
  qed
qed simp

subsection \<open>Case mapping\<close>

definition lower_char :: "char \<Rightarrow> char" where
  "lower_char c = (let n = (of_char c :: nat) in if 65 \<le> n \<and> n \<le> 90 then char_of (n + 32) else c)"

definition upper_char :: "char \<Rightarrow> char" where
  "upper_char c = (let n = (of_char c :: nat) in if 97 \<le> n \<and> n \<le> 122 then char_of (n - 32) else c)"

definition to_lower :: "string \<Rightarrow> string" where
  "to_lower s = map lower_char s"

definition to_upper :: "string \<Rightarrow> string" where
  "to_upper s = map upper_char s"

definition equal_fold :: "string \<Rightarrow> string \<Rightarrow> bool" where
  "equal_fold a b \<longleftrightarrow> to_lower a = to_lower b"

lemmas [go_str] = lower_char_def upper_char_def to_lower_def to_upper_def equal_fold_def

lemma of_lower_char:
  "(of_char (lower_char c) :: nat)
     = (let n = of_char c in if 65 \<le> n \<and> n \<le> 90 then n + 32 else n)"
  by (simp add: lower_char_def Let_def)

lemma lower_char_space: "lower_char c = CHR '' '' \<Longrightarrow> c = CHR '' ''"
proof -
  assume "lower_char c = CHR '' ''"
  then have "(of_char (lower_char c) :: nat) = 32" by simp
  then have "(of_char c :: nat) = 32" by (simp add: of_lower_char Let_def split: if_splits)
  then have "char_of (of_char c :: nat) = (CHR '' '' :: char)" 
    by (simp only:) (simp add: char_of_def bit_numeral_rec bit_0)
  then show ?thesis by simp
qed

lemma lower_char_idem [simp]: "lower_char (lower_char c) = lower_char c"
  using of_lower_char [of c] by (simp add: lower_char_def Let_def split: if_splits)

lemma to_lower_idem [simp]: "to_lower (to_lower s) = to_lower s"
  by (simp add: to_lower_def o_def)

lemma to_lower_append [simp]: "to_lower (a @ b) = to_lower a @ to_lower b"
  by (simp add: to_lower_def)

lemma to_lower_eq_Nil [simp]: "to_lower s = [] \<longleftrightarrow> s = []"
  by (simp add: to_lower_def)

lemma equal_fold_refl [simp]: "equal_fold a a"
  by (simp add: equal_fold_def)

lemma equal_fold_sym: "equal_fold a b \<longleftrightarrow> equal_fold b a"
  by (auto simp: equal_fold_def)

lemma equal_fold_lower [simp]:
  "equal_fold (to_lower a) b = equal_fold a b" "equal_fold a (to_lower b) = equal_fold a b"
  by (simp_all add: equal_fold_def)

text \<open>
  \<open>ToUpper\<close> of a one-byte slice \<open>s[:1]\<close>: a byte from 0x80 is not valid UTF-8 on its own, and Go then
  writes the replacement character U+FFFD.
\<close>

definition upper_byte :: "char \<Rightarrow> string" where
  "upper_byte c =
     (if (128 :: nat) \<le> of_char c then [CHR 0xEF, CHR 0xBF, CHR 0xBD] else [upper_char c])"

lemmas [go_str] = upper_byte_def

subsection \<open>Split, join, cut, fields\<close>

fun split_on :: "char \<Rightarrow> string \<Rightarrow> string list" where
  "split_on d [] = [[]]"
| "split_on d (c # cs) =
     (if c = d then [] # split_on d cs
      else (case split_on d cs of [] \<Rightarrow> [[c]] | p # ps \<Rightarrow> (c # p) # ps))"

fun join :: "string \<Rightarrow> string list \<Rightarrow> string" where
  "join sep [] = []"
| "join sep [p] = p"
| "join sep (p # q # ps) = p @ sep @ join sep (q # ps)"

definition string_cut :: "string \<Rightarrow> char \<Rightarrow> string \<times> string \<times> bool" where
  "string_cut s d =
     (if d \<in> set s
      then (takeWhile (\<lambda>c. c \<noteq> d) s, tl (dropWhile (\<lambda>c. c \<noteq> d) s), True)
      else (s, [], False))"

definition replace_byte :: "string \<Rightarrow> char \<Rightarrow> char \<Rightarrow> string" where
  "replace_byte s a b = map (\<lambda>c. if c = a then b else c) s"

definition fields_by :: "(char \<Rightarrow> bool) \<Rightarrow> string \<Rightarrow> string list" where
  "fields_by sep s =
     (let d = CHR '' '' in
      filter (\<lambda>f. f \<noteq> []) (split_on d (map (\<lambda>c. if sep c then d else c) s)))"

lemmas [go_str] = string_cut_def replace_byte_def

lemma split_on_nonempty [simp]: "split_on d s \<noteq> []"
  by (cases s) (auto split: list.splits)

lemma split_on_no_sep: "p \<in> set (split_on d s) \<Longrightarrow> d \<notin> set p"
proof (induction s arbitrary: p)
  case (Cons c cs)
  then show ?case by (cases "split_on d cs") (auto split: if_splits)
qed simp

lemma split_on_single [simp]: "d \<notin> set s \<Longrightarrow> split_on d s = [s]"
  by (induction s) auto

lemma split_on_append: "d \<notin> set p \<Longrightarrow> split_on d (p @ d # s) = p # split_on d s"
  by (induction p) auto

lemma join_split_on: "join [d] (split_on d s) = s"
proof (induction s)
  case (Cons c cs)
  then show ?case
    by (cases "split_on d cs"; cases "tl (split_on d cs)") auto
qed simp

lemma split_on_join:
  "ps \<noteq> [] \<Longrightarrow> (\<And>p. p \<in> set ps \<Longrightarrow> d \<notin> set p) \<Longrightarrow> split_on d (join [d] ps) = ps"
  by (induction "[d]" ps rule: join.induct) (simp_all add: split_on_append)

lemma length_split_on: "length (split_on d s) = Suc (count_byte s d)"
proof (induction s)
  case (Cons c cs)
  then show ?case by (cases "split_on d cs") (auto simp: count_byte_def)
qed (simp add: count_byte_def)

lemma string_cut_found: "string_cut s d = (a, b, True) \<Longrightarrow> s = a @ d # b \<and> d \<notin> set a"
proof -
  assume h: "string_cut s d = (a, b, True)"
  then have d: "d \<in> set s" and a: "a = takeWhile (\<lambda>c. c \<noteq> d) s"
    and b: "b = tl (dropWhile (\<lambda>c. c \<noteq> d) s)"
    by (auto simp: string_cut_def split: if_splits)
  obtain u v where uv: "s = u @ d # v" "d \<notin> set u"
    using d split_list_first by metis
  then have "takeWhile (\<lambda>c. c \<noteq> d) s = u" "dropWhile (\<lambda>c. c \<noteq> d) s = d # v"
    by (auto simp: takeWhile_append dropWhile_append)
  with a b uv show ?thesis by simp
qed

lemma fields_by_parts: "p \<in> set (fields_by sep s) \<Longrightarrow> p \<noteq> []"
  by (auto simp: fields_by_def Let_def)

subsection \<open>Decimal integers\<close>

text \<open>
  \<open>strconv.Atoi\<close> and \<open>ParseInt(s, 10, 64)\<close>: an optional sign, one or more digits, and a value in
  the range of a 64-bit integer; anything else is an error.
\<close>

definition digit_val :: "char \<Rightarrow> int option" where
  "digit_val c = (let n = (of_char c :: nat) in if 48 \<le> n \<and> n \<le> 57 then Some (int n - 48) else None)"

fun digits_val :: "int \<Rightarrow> string \<Rightarrow> int option" where
  "digits_val acc [] = Some acc"
| "digits_val acc (c # cs) =
     (case digit_val c of None \<Rightarrow> None | Some d \<Rightarrow> digits_val (10 * acc + d) cs)"

definition parse_nat :: "string \<Rightarrow> int option" where
  "parse_nat s = (if s = [] then None else digits_val 0 s)"

definition int64_min :: int where "int64_min = - (2 ^ 63)"
definition int64_max :: int where "int64_max = 2 ^ 63 - 1"

definition in_int64 :: "int \<Rightarrow> bool" where
  "in_int64 n \<longleftrightarrow> int64_min \<le> n \<and> n \<le> int64_max"

definition atoi :: "string \<Rightarrow> int option" where
  "atoi s =
     (let r = (case s of
          [] \<Rightarrow> None
        | c # cs \<Rightarrow>
            if c = CHR ''-'' then map_option uminus (parse_nat cs)
            else if c = CHR ''+'' then parse_nat cs
            else parse_nat (c # cs))
      in case r of None \<Rightarrow> None | Some n \<Rightarrow> if in_int64 n then Some n else None)"

lemmas [go_str] = digit_val_def parse_nat_def int64_min_def int64_max_def in_int64_def atoi_def

lemma atoi_range: "atoi s = Some n \<Longrightarrow> in_int64 n"
  by (auto simp: atoi_def Let_def split: option.splits if_splits)

text \<open>The wrap-around of a 64-bit signed \<open>int\<close>.\<close>

definition wrap64 :: "int \<Rightarrow> int" where
  "wrap64 n = (n + 2 ^ 63) mod 2 ^ 64 - 2 ^ 63"

lemma wrap64_word: "wrap64 n = sint (word_of_int n :: 64 word)"
  by (simp add: wrap64_def int_word_sint)

lemma wrap64_id: "in_int64 n \<Longrightarrow> wrap64 n = n"
  by (simp add: wrap64_def in_int64_def int64_min_def int64_max_def)

lemma wrap64_range: "in_int64 (wrap64 n)"
  by (simp add: wrap64_def in_int64_def int64_min_def int64_max_def)

text \<open>Decimal output (\<open>strconv.Itoa\<close>, \<open>FormatInt\<close> and the verb \<open>%d\<close>).\<close>

fun nat_digits :: "nat \<Rightarrow> string" where
  "nat_digits n =
     (if n < 10 then [char_of (48 + n)] else nat_digits (n div 10) @ [char_of (48 + n mod 10)])"

declare nat_digits.simps [simp del]

definition itoa :: "int \<Rightarrow> string" where
  "itoa n = (if n < 0 then CHR ''-'' # nat_digits (nat (- n)) else nat_digits (nat n))"

lemma digits_val_append:
  "digits_val acc (xs @ ys) = (case digits_val acc xs of None \<Rightarrow> None | Some a \<Rightarrow> digits_val a ys)"
  by (induction xs arbitrary: acc) (auto split: option.splits)

lemma digit_val_char_of: "d < 10 \<Longrightarrow> digit_val (char_of (48 + d)) = Some (int d)"
  by (simp add: digit_val_def Let_def)

lemma digits_val_nat_digits: "digits_val 0 (nat_digits n) = Some (int n)"
proof (induction n rule: nat_digits.induct)
  case (1 n)
  show ?case
  proof (cases "n < 10")
    case True
    then show ?thesis by (subst nat_digits.simps) (simp add: digit_val_char_of)
  next
    case False
    have "10 * int (n div 10) + int (n mod 10) = int n" by presburger
    with 1 False show ?thesis
      by (subst nat_digits.simps) (simp add: digits_val_append digit_val_char_of)
  qed
qed

lemma nat_digits_nonempty [simp]: "nat_digits n \<noteq> []"
  by (subst nat_digits.simps) simp

lemma nat_digits_digit: "c \<in> set (nat_digits n) \<Longrightarrow> (48 :: nat) \<le> of_char c \<and> of_char c \<le> (57 :: nat)"
proof (induction n arbitrary: c rule: nat_digits.induct)
  case (1 n)
  then show ?case
    by (subst (asm) nat_digits.simps) (auto split: if_splits)
qed

lemma atoi_itoa: "in_int64 n \<Longrightarrow> atoi (itoa n) = Some n"
proof -
  assume r: "in_int64 n"
  have digit: "hd (nat_digits k) \<noteq> CHR ''-'' \<and> hd (nat_digits k) \<noteq> CHR ''+''" for k
    using nat_digits_digit [of "hd (nat_digits k)" k] by auto
  show ?thesis
  proof (cases "n < 0")
    case True
    then show ?thesis using r
      by (simp add: itoa_def atoi_def Let_def parse_nat_def digits_val_nat_digits)
  next
    case False
    obtain c cs where c: "nat_digits (nat n) = c # cs"
      using nat_digits_nonempty neq_Nil_conv by metis
    have v: "digits_val 0 (c # cs) = Some n"
      using digits_val_nat_digits [of "nat n"] False c by simp
    show ?thesis using r False digit [of "nat n"] v
      by (simp add: itoa_def atoi_def Let_def parse_nat_def c del: digits_val.simps)
  qed
qed

lemma itoa_chars: "c \<in> set (itoa n) \<Longrightarrow> c = CHR ''-'' \<or> (48 :: nat) \<le> of_char c \<and> of_char c \<le> (57 :: nat)"
  using nat_digits_digit by (auto simp: itoa_def split: if_splits)

lemma itoa_nonempty [simp]: "itoa n \<noteq> []"
  by (simp add: itoa_def)

lemma plain_itoa: "c \<in> set (itoa n) \<Longrightarrow> plain_byte c"
  using itoa_chars by (fastforce simp: plain_byte_def)

subsection \<open>Trimming both ends\<close>

lemma trim_right_set_append_sep: "set t \<subseteq> set cs \<Longrightarrow> trim_right_set (s @ t) cs = trim_right_set s cs"
  by (simp add: trim_right_set_def dropWhile_append subset_iff)

lemma trim_set_idem [simp]: "trim_set (trim_set s cs) cs = trim_set s cs"
proof -
  let ?u = "trim_left_set s cs"
  let ?t = "trim_right_set ?u cs"
  have "trim_left_set ?t cs = ?t"
  proof (cases "?t")
    case (Cons c cs')
    obtain v where "?u = ?t @ v" using trim_right_set_prefix by metis
    with Cons have u: "hd ?u = c" "?u \<noteq> []" by simp_all
    then have "c \<notin> set cs" unfolding trim_left_set_def using hd_dropWhile by metis
    with Cons show ?thesis by (simp add: trim_left_set_def)
  qed (simp add: trim_left_set_def)
  then show ?thesis by (simp add: trim_set_def)
qed

lemma has_suffix_cut: "has_suffix (a @ c # t) p \<Longrightarrow> c \<notin> set p \<Longrightarrow> has_suffix t p"
  by (auto simp: has_suffix_iff append_eq_append_conv2 append_eq_Cons_conv Cons_eq_append_conv)

text \<open>A path that starts with a slash loses no byte at its front, and none behind a slash that a name follows.\<close>

lemma trim_space_path:
  assumes "\<forall>p \<in> set space_runes. p = [] \<or> \<not> has_suffix t p"
  shows "trim_space (''/'' @ a @ ''/'' @ t) = ''/'' @ a @ ''/'' @ t"
proof (rule trim_space_noop)
  have slash: "CHR ''/'' \<notin> set p" "p \<noteq> []" if "p \<in> set space_runes" for p
    using that by (auto simp: space_runes_def)
  show "no_front space_runes (''/'' @ a @ ''/'' @ t)"
    using slash by (fastforce simp: no_front_def has_prefix_iff Cons_eq_append_conv)
  have "\<not> has_suffix (''/'' @ a @ ''/'' @ t) p" if p: "p \<in> set space_runes" for p
  proof
    assume "has_suffix (''/'' @ a @ ''/'' @ t) p"
    then have "has_suffix ((CHR ''/'' # a) @ CHR ''/'' # t) p" by simp
    then have "has_suffix t p" using has_suffix_cut slash(1) [OF p] by blast
    with assms p slash(2) [OF p] show False by blast
  qed
  then show "no_front (map rev space_runes) (rev (''/'' @ a @ ''/'' @ t))"
    by (auto simp: no_front_def has_suffix_def has_prefix_def)
qed

end
