(* ===== verification/GoValues.thy ===== *)
theory GoValues
  imports GoStrings
begin

section \<open>Dynamic values and decoded JSON\<close>

text \<open>
  The source passes decoded JSON around as \<open>any\<close> and \<open>map[string]any\<close>. \<open>goval\<close> has one constructor for
  each dynamic type the code stores or tests for. A \<open>float64\<close> is represented by its shortest decimal
  text (the one \<open>fmt\<close> prints), which identifies it. A Go map is a finite map; where the code
  distinguishes a nil map it is an option.

  \<open>json\<close> is the syntax tree of a JSON text, objects with their members in the order of the text and
  duplicates kept, because decoding into a struct depends on both. Lexing bytes into such a tree is
  \<open>encoding/json\<close>'s; operations that read a body take the tree, \<open>None\<close> standing for bytes that are
  not JSON.
\<close>

subsection \<open>Values of type any\<close>

datatype goval =
    GNil
  | GBool bool
  | GNum string
  | GStr string
  | GStrs "string list"
  | GArr "goval list"
  | GMap "(string, goval) fmap"
  | GMaps "(string, goval) fmap list"

type_synonym gomap = "(string, goval) fmap"

definition sprint_map :: "(string, string) fmap \<Rightarrow> string" where
  "sprint_map t =
     ''map['' @ join '' '' (map (\<lambda>k. k @ '':'' @ (case fmlookup t k of None \<Rightarrow> [] | Some v \<Rightarrow> v))
        (sorted_list_of_fset (fmdom t))) @ '']''"

text \<open>\<open>fmt.Sprint\<close> of one value.\<close>

primrec sprint :: "goval \<Rightarrow> string" where
  "sprint GNil = ''<nil>''"
| "sprint (GBool b) = (if b then ''true'' else ''false'')"
| "sprint (GNum n) = n"
| "sprint (GStr s) = s"
| "sprint (GStrs ss) = ''['' @ join '' '' ss @ '']''"
| "sprint (GArr vs) = ''['' @ join '' '' (map sprint vs) @ '']''"
| "sprint (GMap m) = sprint_map (fmmap sprint m)"
| "sprint (GMaps ms) = ''['' @ join '' '' (map sprint_map (map (fmmap sprint) ms)) @ '']''"

text \<open>Type assertions with the comma-ok form.\<close>

fun as_string :: "goval \<Rightarrow> string option" where
  "as_string (GStr s) = Some s"
| "as_string _ = None"

fun as_bool :: "goval \<Rightarrow> bool option" where
  "as_bool (GBool b) = Some b"
| "as_bool _ = None"

fun as_map :: "goval \<Rightarrow> gomap option" where
  "as_map (GMap m) = Some m"
| "as_map _ = None"

fun as_arr :: "goval \<Rightarrow> goval list option" where
  "as_arr (GArr vs) = Some vs"
| "as_arr _ = None"

definition get_str :: "gomap \<Rightarrow> string \<Rightarrow> string" where
  \<comment> \<open>\<open>s, _ := m[k].(string)\<close>: the zero value where the key is missing or of another type\<close>
  "get_str m k = (case Option.bind (fmlookup m k) as_string of None \<Rightarrow> '''' | Some s \<Rightarrow> s)"

definition get_map :: "gomap \<Rightarrow> string \<Rightarrow> gomap option" where
  "get_map m k = Option.bind (fmlookup m k) as_map"

definition get_arr :: "gomap \<Rightarrow> string \<Rightarrow> goval list option" where
  "get_arr m k = Option.bind (fmlookup m k) as_arr"

definition get_any :: "gomap \<Rightarrow> string \<Rightarrow> goval" where
  "get_any m k = (case fmlookup m k of None \<Rightarrow> GNil | Some v \<Rightarrow> v)"

lemmas [go_val] = get_str_def get_map_def get_arr_def get_any_def

lemma as_string_Some [simp]: "as_string v = Some s \<longleftrightarrow> v = GStr s"
  by (cases v) auto

lemma as_map_Some [simp]: "as_map v = Some m \<longleftrightarrow> v = GMap m"
  by (cases v) auto

lemma as_arr_Some [simp]: "as_arr v = Some a \<longleftrightarrow> v = GArr a"
  by (cases v) auto

text \<open>
  \<open>stringFromMap\<close>: the string under a key, \<open>fmt.Sprint\<close> of any other value, and the empty string for a
  missing or nil one.
\<close>

definition string_from_map :: "gomap \<Rightarrow> string \<Rightarrow> string" where
  "string_from_map m key =
     (case fmlookup m key of
        None \<Rightarrow> ''''
      | Some v \<Rightarrow>
          if v = GNil then ''''
          else (case as_string v of Some s \<Rightarrow> s | None \<Rightarrow> sprint v))"

lemma string_from_map_str [simp]: "fmlookup m k = Some (GStr s) \<Longrightarrow> string_from_map m k = s"
  by (simp add: string_from_map_def)

lemma string_from_map_missing [simp]: "fmlookup m k = None \<Longrightarrow> string_from_map m k = ''''"
  by (simp add: string_from_map_def)

subsection \<open>JSON syntax trees\<close>

datatype json =
    JNull
  | JBool bool
  | JNum string
  | JStr string
  | JArr "json list"
  | JObj "(string \<times> json) list"

text \<open>
  Decoding into \<open>any\<close>. The text of a number goes through \<open>float64\<close>: the parameter \<open>fl\<close> gives the
  shortest text of the nearest float, \<open>None\<close> where the number is out of range, which fails the whole
  decode. A later duplicate member replaces an earlier one.
\<close>

fun to_any :: "(string \<Rightarrow> string option) \<Rightarrow> json \<Rightarrow> goval option"
  and to_any_list :: "(string \<Rightarrow> string option) \<Rightarrow> json list \<Rightarrow> goval list option"
  and to_any_map :: "(string \<Rightarrow> string option) \<Rightarrow> gomap \<Rightarrow> (string \<times> json) list \<Rightarrow> gomap option"
  where
  "to_any fl JNull = Some GNil"
| "to_any fl (JBool b) = Some (GBool b)"
| "to_any fl (JNum n) = map_option GNum (fl n)"
| "to_any fl (JStr s) = Some (GStr s)"
| "to_any fl (JArr vs) = map_option GArr (to_any_list fl vs)"
| "to_any fl (JObj ms) = map_option GMap (to_any_map fl fmempty ms)"
| "to_any_list fl [] = Some []"
| "to_any_list fl (v # vs) =
     (case to_any fl v of None \<Rightarrow> None
      | Some x \<Rightarrow> map_option (Cons x) (to_any_list fl vs))"
| "to_any_map fl acc [] = Some acc"
| "to_any_map fl acc ((k, v) # ms) =
     (case to_any fl v of None \<Rightarrow> None | Some x \<Rightarrow> to_any_map fl (fmupd k x acc) ms)"

text \<open>
  Decoding into a variable of type \<open>map[string]any\<close>: \<open>Some None\<close> is success with a nil map, which is
  what the text \<open>null\<close> gives; any other text that is not an object is an error.
\<close>

definition unmarshal_map :: "(string \<Rightarrow> string option) \<Rightarrow> json option \<Rightarrow> gomap option option" where
  "unmarshal_map fl j =
     (case j of
        None \<Rightarrow> None
      | Some JNull \<Rightarrow> Some None
      | Some (JObj ms) \<Rightarrow> map_option Some (to_any_map fl fmempty ms)
      | Some _ \<Rightarrow> None)"

subsection \<open>Decoding into a struct\<close>

text \<open>
  Each member of the object goes to the field whose name it matches, exactly or up to case, in the
  order of the text, so a later match overwrites an earlier one. JSON \<open>null\<close> leaves a field of a
  basic type alone. A value of the wrong type makes the whole decode return an error; the callers in
  the source then give the message up. Every field decoder therefore returns an option.
\<close>

definition decode_members :: "json option \<Rightarrow> (string \<times> json) list option" where
  "decode_members j =
     (case j of Some (JObj ms) \<Rightarrow> Some ms | Some JNull \<Rightarrow> Some [] | _ \<Rightarrow> None)"

fun decode_field :: "('a \<Rightarrow> json \<Rightarrow> 'a option) \<Rightarrow> string \<Rightarrow> 'a \<Rightarrow> (string \<times> json) list \<Rightarrow> 'a option" where
  "decode_field dec name acc [] = Some acc"
| "decode_field dec name acc ((k, v) # ms) =
     (if equal_fold k name
      then (case dec acc v of None \<Rightarrow> None | Some acc' \<Rightarrow> decode_field dec name acc' ms)
      else decode_field dec name acc ms)"

fun dec_string :: "string \<Rightarrow> json \<Rightarrow> string option" where
  "dec_string old (JStr s) = Some s"
| "dec_string old JNull = Some old"
| "dec_string old _ = None"

fun dec_int :: "int \<Rightarrow> json \<Rightarrow> int option" where
  "dec_int old (JNum n) = atoi n"
| "dec_int old JNull = Some old"
| "dec_int old _ = None"

fun dec_raw :: "json option \<Rightarrow> json \<Rightarrow> json option option" where
  "dec_raw old v = Some (Some v)"

fun dec_bool :: "bool \<Rightarrow> json \<Rightarrow> bool option" where
  "dec_bool old (JBool b) = Some b"
| "dec_bool old JNull = Some old"
| "dec_bool old _ = None"

text \<open>
  A slice: element \<open>i\<close> of the array is decoded into the element already there, or into a zero value past
  the end; \<open>null\<close> gives the nil slice.
\<close>

fun dec_elems :: "'a \<Rightarrow> ('a \<Rightarrow> json \<Rightarrow> 'a option) \<Rightarrow> 'a list \<Rightarrow> json list \<Rightarrow> 'a list option" where
  "dec_elems zero dec olds [] = Some []"
| "dec_elems zero dec olds (v # vs) =
     (case dec (case olds of [] \<Rightarrow> zero | old # _ \<Rightarrow> old) v of
        None \<Rightarrow> None
      | Some x \<Rightarrow> map_option (Cons x) (dec_elems zero dec (tl olds) vs))"

fun dec_list :: "'a \<Rightarrow> ('a \<Rightarrow> json \<Rightarrow> 'a option) \<Rightarrow> 'a list \<Rightarrow> json \<Rightarrow> 'a list option" where
  "dec_list zero dec old (JArr vs) = dec_elems zero dec old vs"
| "dec_list zero dec old JNull = Some []"
| "dec_list zero dec old _ = None"

fun dec_str_elems :: "json list \<Rightarrow> string list option" where
  "dec_str_elems [] = Some []"
| "dec_str_elems (v # vs) =
     (case dec_string '''' v of None \<Rightarrow> None
      | Some s \<Rightarrow> map_option (Cons s) (dec_str_elems vs))"

fun dec_strings :: "string list \<Rightarrow> json \<Rightarrow> string list option" where
  "dec_strings old (JArr vs) = dec_str_elems vs"
| "dec_strings old JNull = Some []"
| "dec_strings old _ = None"

fun dec_map :: "(string \<Rightarrow> string option) \<Rightarrow> gomap option \<Rightarrow> json \<Rightarrow> gomap option option" where
  \<comment> \<open>an object is merged into the map already there; \<open>null\<close> resets it to nil\<close>
  "dec_map fl old (JObj ms) =
     map_option Some (to_any_map fl (case old of None \<Rightarrow> fmempty | Some m \<Rightarrow> m) ms)"
| "dec_map fl old JNull = Some None"
| "dec_map fl old _ = None"

definition field_string :: "string \<Rightarrow> (string \<times> json) list \<Rightarrow> string option" where
  "field_string name = decode_field dec_string name ''''"

definition field_int :: "string \<Rightarrow> (string \<times> json) list \<Rightarrow> int option" where
  "field_int name = decode_field dec_int name 0"

lemmas [go_val] = decode_members_def field_string_def field_int_def unmarshal_map_def

lemma decode_field_no_match:
  "\<forall>k \<in> fst ` set ms. \<not> equal_fold k name \<Longrightarrow> decode_field dec name acc ms = Some acc"
  by (induction ms) auto

lemma decode_field_append:
  "decode_field dec name acc (xs @ ys)
     = Option.bind (decode_field dec name acc xs) (\<lambda>a. decode_field dec name a ys)"
proof (induction xs arbitrary: acc)
  case (Cons x xs)
  then show ?case by (cases x) (auto split: option.splits)
qed simp


subsection \<open>Encoding\<close>

text \<open>\<open>json.Marshal\<close> of a dynamic value, as a tree: the members of a map come in the order of their keys.\<close>

definition map_members :: "(string, json) fmap \<Rightarrow> (string \<times> json) list" where
  "map_members t =
     map (\<lambda>k. (k, case fmlookup t k of None \<Rightarrow> JNull | Some v \<Rightarrow> v)) (sorted_list_of_fset (fmdom t))"

primrec to_json :: "goval \<Rightarrow> json" where
  "to_json GNil = JNull"
| "to_json (GBool b) = JBool b"
| "to_json (GNum n) = JNum n"
| "to_json (GStr s) = JStr s"
| "to_json (GStrs ss) = JArr (map JStr ss)"
| "to_json (GArr vs) = JArr (map to_json vs)"
| "to_json (GMap m) = JObj (map_members (fmmap to_json m))"
| "to_json (GMaps ms) = JArr (map JObj (map map_members (map (fmmap to_json) ms)))"

lemma set_map_members:
  "(k, v) \<in> set (map_members t) \<longleftrightarrow> fmlookup t k = Some v"
proof -
  have "k |\<in>| fmdom t \<longleftrightarrow> (\<exists>v. fmlookup t k = Some v)" by (simp add: fmlookup_dom_iff)
  then show ?thesis by (auto simp: map_members_def split: option.splits)
qed

lemma map_fst_map_members: "map fst (map_members t) = sorted_list_of_fset (fmdom t)"
  by (simp add: map_members_def o_def)

lemma distinct_map_members [simp]: "distinct (map fst (map_members t))"
  by (simp add: map_fst_map_members sorted_list_of_fset_def)

end
