(* ===== verification/Multiplexer.thy ===== *)
theory Multiplexer
  imports GoValues
begin

section \<open>The request multiplexer (relay/multiplexer.go)\<close>

text \<open>
  One socket carries many requests; the multiplexer pairs each response with the request of the same
  id. \<open>pending\<close> maps an id to the channel its requester waits on. A channel has a buffer of one and a
  closed flag; sending on or closing a closed channel panics in Go, which the model makes a value
  (\<open>None\<close>), so that the absence of panics is a theorem and not a convention.

  The operations come in two forms. \<open>mux_register\<close>, \<open>mux_complete\<close>, \<open>mux_cancel\<close> and \<open>mux_wait\<close> run to
  the end. \<open>mux_step\<close> interleaves them as the goroutines of the server do: \<open>Complete\<close> and \<open>Cancel\<close> hold
  the mutex only while they take the channel out of \<open>pending\<close>, and touch the channel after that.
\<close>

record 'b chan =
  buf :: "'b option"
  closed :: bool

record 'b mux =
  pending :: "string \<rightharpoonup> nat"
  chans :: "nat \<Rightarrow> 'b chan"
  next_chan :: nat
  timeout :: time

definition open_chan :: "'b chan" where
  "open_chan = \<lparr>buf = None, closed = False\<rparr>"

definition new_mux :: "time \<Rightarrow> 'b mux" where
  "new_mux t =
     \<lparr>pending = Map.empty, chans = (\<lambda>_. open_chan), next_chan = 0,
      timeout = (if t \<le> 0 then 120 * second else t)\<rparr>"

definition mux_register :: "string \<Rightarrow> 'b mux \<Rightarrow> nat \<times> 'b mux" where
  "mux_register rid m =
     (let ch = next_chan m in
      (ch, m\<lparr>pending := (pending m)(rid \<mapsto> ch), chans := (chans m)(ch := open_chan),
             next_chan := Suc ch\<rparr>))"

text \<open>The part of \<open>Complete\<close> and \<open>Cancel\<close> under the mutex.\<close>

definition mux_take :: "string \<Rightarrow> 'b mux \<Rightarrow> nat option \<times> 'b mux" where
  "mux_take rid m =
     (case pending m rid of
        None \<Rightarrow> (None, m)
      | Some ch \<Rightarrow> (Some ch, m\<lparr>pending := (pending m)(rid := None)\<rparr>))"

text \<open>\<open>select { case ch <- body: default: }\<close>, \<open>close(ch)\<close>, \<open><-ch\<close>.\<close>

definition chan_offer :: "nat \<Rightarrow> 'b \<Rightarrow> 'b mux \<Rightarrow> 'b mux option" where
  "chan_offer ch b m =
     (if closed (chans m ch) then None
      else if buf (chans m ch) = None
      then Some (m\<lparr>chans := (chans m)(ch := (chans m ch)\<lparr>buf := Some b\<rparr>)\<rparr>)
      else Some m)"

definition chan_close :: "nat \<Rightarrow> 'b mux \<Rightarrow> 'b mux option" where
  "chan_close ch m =
     (if closed (chans m ch) then None
      else Some (m\<lparr>chans := (chans m)(ch := (chans m ch)\<lparr>closed := True\<rparr>)\<rparr>))"

datatype 'b recv = Blocked | Received 'b | Drained

definition chan_recv :: "nat \<Rightarrow> 'b mux \<Rightarrow> 'b recv \<times> 'b mux" where
  "chan_recv ch m =
     (case buf (chans m ch) of
        Some b \<Rightarrow> (Received b, m\<lparr>chans := (chans m)(ch := (chans m ch)\<lparr>buf := None\<rparr>)\<rparr>)
      | None \<Rightarrow> (if closed (chans m ch) then Drained else Blocked, m))"

definition mux_complete :: "string \<Rightarrow> 'b \<Rightarrow> 'b mux \<Rightarrow> (bool \<times> 'b mux) option" where
  "mux_complete rid b m =
     (case mux_take rid m of
        (None, m1) \<Rightarrow> Some (False, m1)
      | (Some ch, m1) \<Rightarrow>
          (case chan_offer ch b m1 of
             None \<Rightarrow> None
           | Some m2 \<Rightarrow> map_option (Pair True) (chan_close ch m2)))"

definition mux_cancel :: "string \<Rightarrow> 'b mux \<Rightarrow> 'b mux option" where
  "mux_cancel rid m =
     (case mux_take rid m of
        (None, m1) \<Rightarrow> Some m1
      | (Some ch, m1) \<Rightarrow> chan_close ch m1)"

text \<open>
  \<open>Wait\<close> selects between the channel and a timer. \<open>timer\<close> says whether the timer has fired and is the
  branch taken; the result is the body and the \<open>ok\<close> flag, \<open>None\<close> while neither branch is ready.
\<close>

definition mux_wait :: "nat \<Rightarrow> bool \<Rightarrow> 'b mux \<Rightarrow> ('b option \<times> 'b mux) option" where
  "mux_wait ch timer m =
     (if timer then Some (None, m)
      else (case chan_recv ch m of
              (Received b, m1) \<Rightarrow> Some (Some b, m1)
            | (Drained, m1) \<Rightarrow> Some (None, m1)
            | (Blocked, m1) \<Rightarrow> None))"

subsection \<open>Whole operations\<close>

lemmas mux_defs = mux_register_def mux_take_def chan_offer_def chan_close_def chan_recv_def
  mux_complete_def mux_cancel_def mux_wait_def open_chan_def Let_def

lemma mux_take_simps:
  "fst (mux_take rid m) = pending m rid"
  "pending (snd (mux_take rid m)) = (pending m)(rid := None)"
  "chans (snd (mux_take rid m)) = chans m"
  "next_chan (snd (mux_take rid m)) = next_chan m"
  by (auto simp: mux_take_def split: option.splits)

text \<open>
  A response that arrives after the request was cancelled finds no channel: it is dropped, and the
  closed channel is not touched again.
\<close>

lemma cancel_then_complete:
  "mux_cancel rid m = Some m' \<Longrightarrow> mux_complete rid b m' = Some (False, m')"
  by (auto simp: mux_defs split: option.splits if_splits)

lemma complete_twice:
  "mux_complete rid b m = Some (r, m') \<Longrightarrow> mux_complete rid b' m' = Some (False, m')"
  by (auto simp: mux_defs split: option.splits if_splits)

lemma complete_other_pending:
  "mux_complete rid b m = Some (r, m') \<Longrightarrow> j \<noteq> rid \<Longrightarrow> pending m' j = pending m j"
  by (auto simp: mux_defs split: option.splits if_splits)

text \<open>
  The table of pending requests is a registry: registering binds an id, taking removes it. The
  channel numbers are not part of the contract, so the interface shows whether an id is pending.
\<close>

text \<open>
  A multiplexer between operations: every pending channel was allocated, is open and empty, and
  belongs to one id.
\<close>

definition mux_ok :: "'b mux \<Rightarrow> bool" where
  "mux_ok m \<longleftrightarrow>
     (\<forall>rid ch. pending m rid = Some ch \<longrightarrow> ch < next_chan m \<and> chans m ch = open_chan) \<and>
     (\<forall>i j ch. pending m i = Some ch \<longrightarrow> pending m j = Some ch \<longrightarrow> i = j)"

lemma mux_ok_new [simp]: "mux_ok (new_mux t)"
  by (simp add: mux_ok_def new_mux_def)

lemma mux_ok_register: "mux_ok m \<Longrightarrow> mux_ok (snd (mux_register rid m))"
  by (auto simp: mux_ok_def mux_register_def Let_def less_SucI split: if_splits dest: less_not_refl2)

lemma mux_ok_take: "mux_ok m \<Longrightarrow> mux_ok (snd (mux_take rid m))"
  by (auto simp: mux_ok_def mux_take_simps split: if_splits)

lemma mux_ok_chan:
  "mux_ok m \<Longrightarrow> ch \<notin> ran (pending m) \<Longrightarrow> mux_ok (m\<lparr>chans := (chans m)(ch := c)\<rparr>)"
  by (auto simp: mux_ok_def ran_def)

lemma mux_take_not_ran:
  "mux_ok m \<Longrightarrow> pending m rid = Some ch \<Longrightarrow> ch \<notin> ran (pending (snd (mux_take rid m)))"
  by (auto simp: mux_ok_def mux_take_simps ran_def)

lemma mux_take_open:
  "mux_ok m \<Longrightarrow> pending m rid = Some ch \<Longrightarrow> chans (snd (mux_take rid m)) ch = open_chan"
  by (simp add: mux_ok_def mux_take_simps)

lemma mux_complete_ok:
  assumes "mux_ok m"
  obtains m' where "mux_complete rid b m = Some (pending m rid \<noteq> None, m')" "mux_ok m'"
    "pending m' = (pending m)(rid := None)"
    "\<And>ch. pending m rid = Some ch \<Longrightarrow> chans m' ch = \<lparr>buf = Some b, closed = True\<rparr>"
proof (cases "pending m rid")
  case None
  then have "mux_complete rid b m = Some (False, m)"
    by (simp add: mux_complete_def mux_take_def)
  with that None assms show thesis by (simp add: fun_upd_idem)
next
  case (Some ch)
  let ?m1 = "snd (mux_take rid m)"
  let ?m' = "?m1\<lparr>chans := (chans ?m1)(ch := \<lparr>buf = Some b, closed = True\<rparr>)\<rparr>"
  have "mux_complete rid b m = Some (True, ?m')"
    using mux_take_open [OF assms Some] Some
    by (simp add: mux_complete_def chan_offer_def chan_close_def open_chan_def mux_take_def)
  moreover have "mux_ok ?m'"
    using mux_ok_chan [OF mux_ok_take [OF assms] mux_take_not_ran [OF assms Some]] .
  ultimately show thesis using that Some by (simp add: mux_take_simps)
qed

lemma mux_cancel_ok:
  assumes "mux_ok m"
  obtains m' where "mux_cancel rid m = Some m'" "mux_ok m'" "pending m' = (pending m)(rid := None)"
proof (cases "pending m rid")
  case None
  then have "mux_cancel rid m = Some m"
    by (simp add: mux_cancel_def mux_take_def)
  with that None assms show thesis by (simp add: fun_upd_idem)
next
  case (Some ch)
  let ?m1 = "snd (mux_take rid m)"
  let ?m' = "?m1\<lparr>chans := (chans ?m1)(ch := \<lparr>buf = None, closed = True\<rparr>)\<rparr>"
  have "mux_cancel rid m = Some ?m'"
    using mux_take_open [OF assms Some] Some
    by (simp add: mux_cancel_def chan_close_def open_chan_def mux_take_def)
  moreover have "mux_ok ?m'"
    using mux_ok_chan [OF mux_ok_take [OF assms] mux_take_not_ran [OF assms Some]] .
  ultimately show thesis using that Some by (simp add: mux_take_simps)
qed

lemma mux_wait_ok:
  "mux_ok m \<Longrightarrow> ch \<notin> ran (pending m) \<Longrightarrow> mux_wait ch timer m = Some (r, m') \<Longrightarrow>
     mux_ok m' \<and> pending m' = pending m"
  by (auto simp: mux_wait_def chan_recv_def intro: mux_ok_chan split: if_splits option.splits)

text \<open>
  A request that is registered and then completed is answered with the completing body: whatever
  the table held before, \<open>Complete\<close> finds the channel, does not panic, takes the id out of the table,
  and the requester's \<open>Wait\<close> returns exactly that body.
\<close>

theorem register_complete_wait:
  "\<exists>m' m''. mux_complete rid b (snd (mux_register rid m)) = Some (True, m') \<and>
     pending m' rid = None \<and>
     mux_wait (fst (mux_register rid m)) False m' = Some (Some b, m'')"
  by (simp add: mux_defs)

subsection \<open>Interleaved operations\<close>

text \<open>
  A goroutine is between operations, has taken a channel and still has to offer a body on it, or has
  still to close it. \<open>reg\<close>, \<open>calls\<close> and \<open>received\<close> are history variables: the id each channel was
  registered for, the bodies \<open>Complete\<close> was called with, and what was received on which channel.
\<close>

datatype 'b pc = Idle | Offering nat 'b | Closing nat

record 'b mux_sys =
  the_mux :: "'b mux"
  pcs :: "nat \<Rightarrow> 'b pc"
  panicked :: bool
  reg :: "nat \<rightharpoonup> string"
  calls :: "(string \<times> 'b) set"
  received :: "(nat \<times> 'b) list"

definition mux_start :: "'b mux_sys \<Rightarrow> bool" where
  "mux_start s \<longleftrightarrow>
     (\<exists>t. s = \<lparr>the_mux = new_mux t, pcs = (\<lambda>_. Idle), panicked = False, reg = Map.empty,
               calls = {}, received = []\<rparr>)"

inductive mux_step :: "'b mux_sys \<Rightarrow> 'b mux_sys \<Rightarrow> bool" where
  step_register:
    "mux_register rid (the_mux s) = (ch, m') \<Longrightarrow>
     mux_step s (s\<lparr>the_mux := m', reg := (reg s)(ch \<mapsto> rid)\<rparr>)"
| step_complete_take:
    "pcs s g = Idle \<Longrightarrow> mux_take rid (the_mux s) = (Some ch, m') \<Longrightarrow>
     mux_step s (s\<lparr>the_mux := m', pcs := (pcs s)(g := Offering ch b),
                   calls := insert (rid, b) (calls s)\<rparr>)"
| step_cancel_take:
    "pcs s g = Idle \<Longrightarrow> mux_take rid (the_mux s) = (Some ch, m') \<Longrightarrow>
     mux_step s (s\<lparr>the_mux := m', pcs := (pcs s)(g := Closing ch)\<rparr>)"
| step_take_miss:
    "pcs s g = Idle \<Longrightarrow> mux_take rid (the_mux s) = (None, m') \<Longrightarrow>
     mux_step s (s\<lparr>the_mux := m'\<rparr>)"
| step_offer:
    "pcs s g = Offering ch b \<Longrightarrow> chan_offer ch b (the_mux s) = Some m' \<Longrightarrow>
     mux_step s (s\<lparr>the_mux := m', pcs := (pcs s)(g := Closing ch)\<rparr>)"
| step_offer_panic:
    "pcs s g = Offering ch b \<Longrightarrow> chan_offer ch b (the_mux s) = None \<Longrightarrow>
     mux_step s (s\<lparr>panicked := True\<rparr>)"
| step_close:
    "pcs s g = Closing ch \<Longrightarrow> chan_close ch (the_mux s) = Some m' \<Longrightarrow>
     mux_step s (s\<lparr>the_mux := m', pcs := (pcs s)(g := Idle)\<rparr>)"
| step_close_panic:
    "pcs s g = Closing ch \<Longrightarrow> chan_close ch (the_mux s) = None \<Longrightarrow>
     mux_step s (s\<lparr>panicked := True\<rparr>)"
| step_recv:
    "chan_recv ch (the_mux s) = (Received b, m') \<Longrightarrow>
     mux_step s (s\<lparr>the_mux := m', received := (ch, b) # received s\<rparr>)"

text \<open>What one mutex section or one channel operation changes.\<close>

lemma mux_registerD:
  "mux_register rid m = (ch, m') \<Longrightarrow> ch = next_chan m \<and> pending m' = (pending m)(rid \<mapsto> ch) \<and>
     chans m' = (chans m)(ch := open_chan) \<and> next_chan m' = Suc ch"
  by (auto simp: mux_register_def Let_def)

lemma mux_takeD:
  "mux_take rid m = (Some ch, m') \<Longrightarrow> pending m rid = Some ch \<and>
     pending m' = (pending m)(rid := None) \<and> chans m' = chans m \<and> next_chan m' = next_chan m"
  by (auto simp: mux_take_def split: option.splits)

lemma mux_take_NoneD: "mux_take rid m = (None, m') \<Longrightarrow> m' = m"
  by (auto simp: mux_take_def split: option.splits)

lemma chan_offerD:
  "chan_offer ch b m = Some m' \<Longrightarrow> buf (chans m ch) = None \<Longrightarrow>
     pending m' = pending m \<and> next_chan m' = next_chan m \<and>
     chans m' = (chans m)(ch := (chans m ch)\<lparr>buf := Some b\<rparr>)"
  by (auto simp: chan_offer_def split: if_splits)

lemma chan_closeD:
  "chan_close ch m = Some m' \<Longrightarrow>
     pending m' = pending m \<and> next_chan m' = next_chan m \<and>
     chans m' = (chans m)(ch := (chans m ch)\<lparr>closed := True\<rparr>)"
  by (auto simp: chan_close_def split: if_splits)

lemma chan_recvD:
  "chan_recv ch m = (Received b, m') \<Longrightarrow> buf (chans m ch) = Some b \<and>
     pending m' = pending m \<and> next_chan m' = next_chan m \<and>
     chans m' = (chans m)(ch := (chans m ch)\<lparr>buf := None\<rparr>)"
  by (auto simp: chan_recv_def split: option.splits if_splits)

text \<open>
  The invariant, in parts: a channel is in the table, or in the hands of one goroutine, or done.
  Channels of the first two kinds are open; those that still wait for a body are empty and were never
  received from; a body in a buffer, or received, was given to \<open>Complete\<close> under the id of its channel.
\<close>

definition holds :: "'b pc \<Rightarrow> nat \<Rightarrow> bool" where
  "holds p ch \<longleftrightarrow> (p = Closing ch \<or> (\<exists>b. p = Offering ch b))"

lemma holds_simps [simp]:
  "holds Idle ch = False" "holds (Closing c) ch = (c = ch)" "holds (Offering c b) ch = (c = ch)"
  by (auto simp: holds_def)

definition answered :: "'b mux_sys \<Rightarrow> nat \<Rightarrow> 'b \<Rightarrow> bool" where
  "answered s ch b \<longleftrightarrow> (\<exists>rid. reg s ch = Some rid \<and> (rid, b) \<in> calls s)"

definition unanswered :: "'b mux_sys \<Rightarrow> nat \<Rightarrow> bool" where
  "unanswered s ch \<longleftrightarrow> chans (the_mux s) ch = open_chan \<and> ch \<notin> fst ` set (received s)"

definition inv_table :: "'b mux_sys \<Rightarrow> bool" where
  "inv_table s \<longleftrightarrow>
     (\<forall>rid ch. pending (the_mux s) rid = Some ch \<longrightarrow>
        ch < next_chan (the_mux s) \<and> unanswered s ch \<and> reg s ch = Some rid \<and>
        (\<forall>g. \<not> holds (pcs s g) ch))"

definition inv_hands :: "'b mux_sys \<Rightarrow> bool" where
  "inv_hands s \<longleftrightarrow>
     (\<forall>g ch. holds (pcs s g) ch \<longrightarrow>
        ch < next_chan (the_mux s) \<and> \<not> closed (chans (the_mux s) ch) \<and>
        (\<forall>g'. holds (pcs s g') ch \<longrightarrow> g' = g)) \<and>
     (\<forall>g ch b. pcs s g = Offering ch b \<longrightarrow> unanswered s ch \<and> answered s ch b)"

definition inv_bodies :: "'b mux_sys \<Rightarrow> bool" where
  "inv_bodies s \<longleftrightarrow>
     (\<forall>ch b. buf (chans (the_mux s) ch) = Some b \<longrightarrow>
        ch < next_chan (the_mux s) \<and> ch \<notin> fst ` set (received s) \<and> answered s ch b) \<and>
     (\<forall>ch b. (ch, b) \<in> set (received s) \<longrightarrow>
        ch < next_chan (the_mux s) \<and> answered s ch b) \<and>
     distinct (map fst (received s))"

definition mux_inv :: "'b mux_sys \<Rightarrow> bool" where
  "mux_inv s \<longleftrightarrow> inv_table s \<and> inv_hands s \<and> inv_bodies s \<and> \<not> panicked s"

lemmas mux_inv_defs = mux_inv_def inv_table_def inv_hands_def inv_bodies_def unanswered_def
  answered_def

lemma mux_inv_start: "mux_start s \<Longrightarrow> mux_inv s"
  by (auto simp: mux_start_def mux_inv_defs new_mux_def open_chan_def)

lemma mux_inv_fresh:
  assumes "mux_inv s" "ch = next_chan (the_mux s)"
  shows "\<not> holds (pcs s g) ch" "pcs s g \<noteq> Offering ch b" "ch \<notin> fst ` set (received s)"
    "(ch, b) \<notin> set (received s)" "pending (the_mux s) rid \<noteq> Some ch"
proof -
  show h: "\<not> holds (pcs s g) ch" for g
    using assms unfolding mux_inv_def inv_hands_def by blast
  show "pcs s g \<noteq> Offering ch b"
    using h [of g] by (metis holds_simps(3))
  show r: "(ch, b) \<notin> set (received s)" for b
    using assms unfolding mux_inv_def inv_bodies_def by blast
  show "ch \<notin> fst ` set (received s)"
    using r by force
  show "pending (the_mux s) rid \<noteq> Some ch"
    using assms unfolding mux_inv_def inv_table_def by blast
qed

lemma mux_inv_register:
  assumes "mux_inv s" "mux_register rid (the_mux s) = (ch, m')"
  shows "mux_inv (s\<lparr>the_mux := m', reg := (reg s)(ch \<mapsto> rid)\<rparr>)"
proof -
  note D = mux_registerD [OF assms(2)]
  then have n: "ch = next_chan (the_mux s)" by blast
  note F = mux_inv_fresh [OF assms(1) n]
  have parts: "inv_table s" "inv_hands s" "inv_bodies s" "\<not> panicked s"
    using assms(1) by (simp_all add: mux_inv_def)
  let ?t = "s\<lparr>the_mux := m', reg := (reg s)(ch \<mapsto> rid)\<rparr>"
  have ans: "answered ?t c b \<longleftrightarrow> answered s c b" if "c \<noteq> ch" for c b
    using that by (simp add: answered_def)
  have un: "unanswered ?t c \<longleftrightarrow> c = ch \<or> unanswered s c" for c
    using D F by (auto simp: unanswered_def)
  have "inv_table ?t"
    using parts(1) D F un by (auto simp: inv_table_def less_SucI)
  moreover have "inv_hands ?t"
    using parts(2) D F un ans by (auto simp: inv_hands_def less_SucI) metis+
  moreover have "inv_bodies ?t"
    using parts(3) D F ans unfolding inv_bodies_def
    by (auto simp: open_chan_def less_SucI split: if_splits) metis+
  ultimately show ?thesis using parts(4) by (simp add: mux_inv_def)
qed

lemma mux_inv_holder:
  assumes "mux_inv s" "holds (pcs s g) ch"
  shows "ch < next_chan (the_mux s)" "\<not> closed (chans (the_mux s) ch)"
    "pending (the_mux s) rid \<noteq> Some ch" "holds (pcs s g') ch \<longleftrightarrow> g' = g"
    "pcs s g' = Offering ch b \<Longrightarrow> g' = g"
proof -
  show "ch < next_chan (the_mux s)" "\<not> closed (chans (the_mux s) ch)"
    "pending (the_mux s) rid \<noteq> Some ch"
    using assms unfolding mux_inv_def inv_hands_def inv_table_def by blast+
  show h: "holds (pcs s g') ch \<longleftrightarrow> g' = g" for g'
    using assms unfolding mux_inv_def inv_hands_def by blast
  show "pcs s g' = Offering ch b \<Longrightarrow> g' = g"
    using h [of g'] by simp
qed

lemma mux_inv_offering:
  assumes "mux_inv s" "pcs s g = Offering ch b"
  shows "unanswered s ch" "answered s ch b" "buf (chans (the_mux s) ch) = None"
  using assms unfolding mux_inv_def inv_hands_def by (auto simp: unanswered_def open_chan_def)

lemma mux_inv_take:
  assumes "mux_inv s" "pcs s g = Idle" "mux_take rid (the_mux s) = (Some ch, m')"
    and p: "p = Closing ch \<and> C = calls s \<or> p = Offering ch b \<and> C = insert (rid, b) (calls s)"
  shows "mux_inv (s\<lparr>the_mux := m', pcs := (pcs s)(g := p), calls := C\<rparr>)"
proof -
  note D = mux_takeD [OF assms(3)]
  have parts: "inv_table s" "inv_hands s" "inv_bodies s" "\<not> panicked s"
    using assms(1) by (simp_all add: mux_inv_def)
  let ?t = "s\<lparr>the_mux := m', pcs := (pcs s)(g := p), calls := C\<rparr>"
  have pend: "pending (the_mux s) rid = Some ch" using D by blast
  have T: "ch < next_chan (the_mux s)" "unanswered s ch" "reg s ch = Some rid"
    "\<not> holds (pcs s g') ch" for g'
    using pend parts(1) unfolding inv_table_def by blast+
  have T5: "rid' = rid" if "pending (the_mux s) rid' = Some ch" for rid'
  proof -
    have "reg s ch = Some rid'" using that parts(1) unfolding inv_table_def by blast
    with T(3) show ?thesis by simp
  qed
  have un: "unanswered ?t c \<longleftrightarrow> unanswered s c" for c
    using D by (simp add: unanswered_def)
  have ans: "answered s c b' \<Longrightarrow> answered ?t c b'" for c b'
    using p by (auto simp: answered_def)
  have hp: "holds p c \<longleftrightarrow> c = ch" for c
    using p by auto
  have off: "p = Offering c b' \<Longrightarrow> unanswered ?t c \<and> answered ?t c b'" for c b'
    using p T D by (auto simp: unanswered_def answered_def)
  have "inv_table ?t"
    using parts(1) D T5 un hp by (auto simp: inv_table_def split: if_splits)
  moreover have "inv_hands ?t"
    using parts(2) D T un ans hp off unfolding inv_hands_def
    by (auto simp: unanswered_def open_chan_def split: if_splits)
  moreover have "inv_bodies ?t"
    using parts(3) D ans unfolding inv_bodies_def by auto
  ultimately show ?thesis using parts(4) by (simp add: mux_inv_def)
qed

lemma mux_inv_offer:
  assumes "mux_inv s" "pcs s g = Offering ch b" "chan_offer ch b (the_mux s) = Some m'"
  shows "mux_inv (s\<lparr>the_mux := m', pcs := (pcs s)(g := Closing ch)\<rparr>)"
proof -
  have "holds (pcs s g) ch" using assms(2) by simp
  note H = mux_inv_holder [OF assms(1) this] and O = mux_inv_offering [OF assms(1,2)]
  note D = chan_offerD [OF assms(3) O(3)]
  have parts: "inv_table s" "inv_hands s" "inv_bodies s" "\<not> panicked s"
    using assms(1) by (simp_all add: mux_inv_def)
  let ?t = "s\<lparr>the_mux := m', pcs := (pcs s)(g := Closing ch)\<rparr>"
  have un: "c \<noteq> ch \<Longrightarrow> unanswered ?t c \<longleftrightarrow> unanswered s c" for c
    using D by (simp add: unanswered_def)
  have ans: "answered ?t c b' \<longleftrightarrow> answered s c b'" for c b'
    by (simp add: answered_def)
  have tab: "pending (the_mux s) r = Some c \<Longrightarrow> c \<noteq> ch \<and> ch \<noteq> c" for r c
    using H(3) by blast
  have "inv_table ?t"
    using parts(1) D H(4) un tab by (simp add: inv_table_def)
  moreover have other: "g' \<noteq> g \<Longrightarrow> pcs s g' = Offering c b' \<Longrightarrow> c \<noteq> ch" for g' c b'
    using H(5) by blast
  moreover have "inv_hands ?t"
    using parts(2) D H un ans other unfolding inv_hands_def by (auto split: if_splits)
  moreover have "inv_bodies ?t"
    using parts(3) D H(1) O ans unfolding inv_bodies_def unanswered_def
    by (auto split: if_splits)
  ultimately show ?thesis using parts(4) by (simp add: mux_inv_def)
qed

lemma mux_inv_close:
  assumes "mux_inv s" "pcs s g = Closing ch" "chan_close ch (the_mux s) = Some m'"
  shows "mux_inv (s\<lparr>the_mux := m', pcs := (pcs s)(g := Idle)\<rparr>)"
proof -
  have "holds (pcs s g) ch" using assms(2) by simp
  note H = mux_inv_holder [OF assms(1) this] and D = chan_closeD [OF assms(3)]
  have parts: "inv_table s" "inv_hands s" "inv_bodies s" "\<not> panicked s"
    using assms(1) by (simp_all add: mux_inv_def)
  let ?t = "s\<lparr>the_mux := m', pcs := (pcs s)(g := Idle)\<rparr>"
  have un: "c \<noteq> ch \<Longrightarrow> unanswered ?t c \<longleftrightarrow> unanswered s c" for c
    using D by (simp add: unanswered_def)
  have ans: "answered ?t c b' \<longleftrightarrow> answered s c b'" for c b'
    by (simp add: answered_def)
  have noff: "pcs s g' = Offering ch b \<Longrightarrow> False" for g' b
    using H(5) assms(2) by fastforce
  have tab: "pending (the_mux s) r = Some c \<Longrightarrow> c \<noteq> ch \<and> ch \<noteq> c" for r c
    using H(3) by blast
  have "inv_table ?t"
    using parts(1) D un tab by (simp add: inv_table_def)
  moreover have "inv_hands ?t"
    using parts(2) D H un ans noff unfolding inv_hands_def by (auto split: if_splits) metis+
  moreover have "inv_bodies ?t"
    using parts(3) D ans unfolding inv_bodies_def by (auto split: if_splits)
  ultimately show ?thesis using parts(4) by (simp add: mux_inv_def)
qed

lemma mux_inv_recv:
  assumes "mux_inv s" "chan_recv ch (the_mux s) = (Received b, m')"
  shows "mux_inv (s\<lparr>the_mux := m', received := (ch, b) # received s\<rparr>)"
proof -
  note D = chan_recvD [OF assms(2)]
  have parts: "inv_table s" "inv_hands s" "inv_bodies s" "\<not> panicked s"
    using assms(1) by (simp_all add: mux_inv_def)
  let ?t = "s\<lparr>the_mux := m', received := (ch, b) # received s\<rparr>"
  have nun: "\<not> unanswered s ch"
    using D by (auto simp: unanswered_def open_chan_def)
  have un: "c \<noteq> ch \<Longrightarrow> unanswered ?t c \<longleftrightarrow> unanswered s c" for c
    using D by (simp add: unanswered_def)
  have ans: "answered ?t c b' \<longleftrightarrow> answered s c b'" for c b'
    by (simp add: answered_def)
  have "inv_table ?t"
    using parts(1) D nun un by (auto simp: inv_table_def) metis+
  moreover have "inv_hands ?t"
    using parts(2) D nun un ans unfolding inv_hands_def by (auto split: if_splits) metis+
  moreover have "inv_bodies ?t"
    using parts(3) D ans unfolding inv_bodies_def by (auto split: if_splits)
  ultimately show ?thesis using parts(4) by (simp add: mux_inv_def)
qed

lemma mux_inv_no_panic:
  assumes "mux_inv s"
  shows "pcs s g = Offering ch b \<Longrightarrow> chan_offer ch b (the_mux s) \<noteq> None"
    and "pcs s g = Closing ch \<Longrightarrow> chan_close ch (the_mux s) \<noteq> None"
proof -
  show "chan_offer ch b (the_mux s) \<noteq> None" if "pcs s g = Offering ch b"
    using mux_inv_holder(2) [OF assms, of g ch] that by (simp add: chan_offer_def)
  show "chan_close ch (the_mux s) \<noteq> None" if "pcs s g = Closing ch"
    using mux_inv_holder(2) [OF assms, of g ch] that by (simp add: chan_close_def)
qed

lemma mux_inv_step: "mux_step s t \<Longrightarrow> mux_inv s \<Longrightarrow> mux_inv t"
proof (induction rule: mux_step.induct)
  case (step_complete_take s g rid ch m' b)
  then show ?case
    using mux_inv_take [of s g rid ch m' "Offering ch b" "insert (rid, b) (calls s)" b] by simp
next
  case (step_cancel_take s g rid ch m')
  then show ?case
    using mux_inv_take [of s g rid ch m' "Closing ch" "calls s"] by simp
next
  case (step_take_miss s g rid m')
  from mux_take_NoneD [OF step_take_miss(2)] have "s\<lparr>the_mux := m'\<rparr> = s" by simp
  with step_take_miss(3) show ?case by simp
qed (simp_all add: mux_inv_register mux_inv_offer mux_inv_close mux_inv_recv mux_inv_no_panic)

interpretation mux_system: invariant_system mux_start mux_step mux_inv
  by unfold_locales (blast intro: mux_inv_start mux_inv_step)+

text \<open>A run in which a request is registered, completed by another goroutine, and answered.\<close>

definition demo_mux :: "(string \<rightharpoonup> nat) \<Rightarrow> nat chan \<Rightarrow> nat \<Rightarrow> nat mux" where
  "demo_mux p c n =
     \<lparr>pending = p, chans = (\<lambda>_. open_chan)(0 := c), next_chan = n, timeout = 120 * second\<rparr>"

definition demo_sys :: "nat mux \<Rightarrow> nat pc \<Rightarrow> (nat \<rightharpoonup> string) \<Rightarrow> (string \<times> nat) set \<Rightarrow> (nat \<times> nat) list
    \<Rightarrow> nat mux_sys" where
  "demo_sys m p r c rs =
     \<lparr>the_mux = m, pcs = (\<lambda>_. Idle)(1 := p), panicked = False, reg = r, calls = c, received = rs\<rparr>"

definition demo_end :: "nat mux_sys" where
  "demo_end =
     demo_sys (demo_mux Map.empty \<lparr>buf = None, closed = True\<rparr> 1) Idle [0 \<mapsto> ''a''] {(''a'', 7)}
       [(0, 7)]"

lemma demo_run: "reach mux_start mux_step demo_end"
proof -
  let ?R = "reach mux_start mux_step"
  let ?c = "\<lambda>b. \<lparr>buf = b, closed = False\<rparr>" and ?d = "\<lambda>b. \<lparr>buf = b, closed = True\<rparr>"
  let ?calls = "{(''a'', 7 :: nat)}" and ?reg = "[0 \<mapsto> ''a'']"
  have "?R (demo_sys (demo_mux Map.empty (?c None) 0) Idle Map.empty {} [])"
    by (rule reach_init) (auto simp: mux_start_def demo_sys_def demo_mux_def new_mux_def
        open_chan_def intro!: exI [of _ 0])
  then have "?R (demo_sys (demo_mux [''a'' \<mapsto> 0] (?c None) 1) Idle ?reg {} [])"
    by (rule reach_step) (rule back_subst [where P = "mux_step _", OF step_register [of "''a''"]],
        auto simp: mux_register_def demo_sys_def demo_mux_def open_chan_def)
  then have "?R (demo_sys (demo_mux Map.empty (?c None) 1) (Offering 0 7) ?reg ?calls [])"
    by (rule reach_step)
      (rule back_subst [where P = "mux_step _", OF step_complete_take [of _ 1 "''a''" 0 _ 7]],
        auto simp: mux_take_def demo_sys_def demo_mux_def)
  then have "?R (demo_sys (demo_mux Map.empty (?c (Some 7)) 1) (Closing 0) ?reg ?calls [])"
    by (rule reach_step) (rule back_subst [where P = "mux_step _", OF step_offer [of _ 1 0 7]],
        auto simp: chan_offer_def demo_sys_def demo_mux_def)
  then have "?R (demo_sys (demo_mux Map.empty (?d (Some 7)) 1) Idle ?reg ?calls [])"
    by (rule reach_step) (rule back_subst [where P = "mux_step _", OF step_close [of _ 1 0]],
        auto simp: chan_close_def demo_sys_def demo_mux_def)
  then show ?thesis unfolding demo_end_def
    by (rule reach_step) (rule back_subst [where P = "mux_step _", OF step_recv [of 0 _ 7 "demo_mux Map.empty (?d None) 1"]],
        auto simp: chan_recv_def demo_sys_def demo_mux_def)
qed

text \<open>
  C10. No interleaving of the multiplexer's operations panics: however the mutex sections of
  \<open>Register\<close>, \<open>Complete\<close> and \<open>Cancel\<close> and the channel operations after them are scheduled, no goroutine
  sends on a closed channel or closes a channel twice.
\<close>

theorem mux_never_panics:
  assumes "reach mux_start mux_step s"
  shows "\<not> panicked s \<and>
    (\<forall>g ch b. pcs s g = Offering ch b \<longrightarrow> chan_offer ch b (the_mux s) \<noteq> None) \<and>
    (\<forall>g ch. pcs s g = Closing ch \<longrightarrow> chan_close ch (the_mux s) \<noteq> None)"
proof -
  have inv: "mux_inv s" using assms by (rule mux_system.reachable_inv)
  then have "\<not> panicked s" by (simp add: mux_inv_def)
  with mux_inv_no_panic [OF inv] show ?thesis by simp
qed

theorem mux_never_panics_witness:
  "received demo_end = [(0, 7)] \<and> \<not> panicked demo_end"
  using mux_never_panics [OF demo_run] by (simp add: demo_end_def demo_sys_def)

text \<open>
  C19. Responses are not mixed up and not duplicated: a body received on a channel was passed to
  \<open>Complete\<close> under the id that channel was registered for, and every channel delivers at most one body.
\<close>

theorem mux_correlates:
  assumes "reach mux_start mux_step s"
  shows "(\<forall>(ch, b) \<in> set (received s). \<exists>rid. reg s ch = Some rid \<and> (rid, b) \<in> calls s) \<and>
    distinct (map fst (received s))"
proof -
  have "inv_bodies s"
    using mux_system.reachable_inv [OF assms] by (simp add: mux_inv_def)
  then show ?thesis by (auto simp: inv_bodies_def answered_def)
qed

theorem mux_correlates_witness:
  "received demo_end = [(0, 7)] \<and> (\<exists>rid. reg demo_end 0 = Some rid \<and> (rid, 7) \<in> calls demo_end)"
  using mux_correlates [OF demo_run] by (simp add: demo_end_def demo_sys_def)

end
