(* ===== verification/Hub.thy ===== *)
theory Hub
  imports Multiplexer
begin

section \<open>The relay hub (relay/hub.go, relay/heartbeat.go)\<close>

text \<open>
  The hub tracks live WebSocket sessions: MCP instances by instance id, harness workers by worker id,
  and for each user the heavy worker that serves them. A \<open>*Conn\<close> is shared between the hub and the
  handler that reads the socket, so connections live in a heap and the tables hold addresses; a
  connection that was dropped from a table is still there for its handler. Every operation of the
  source runs under the hub's mutex and is one function here. Where the code ranges over a map, the
  order of the visit is an argument, a list of keys: Go leaves it unspecified.
\<close>

record conn =
  conn_id :: string
  conn_kind :: string
  instance_id :: string
  worker_id :: string
  tenant_id :: string
  user_id :: string
  provider :: string
  tier :: string
  providers :: "string list"
  max_concurrent :: int
  active_jobs :: int
  sock :: "nat option"   \<comment> \<open>the socket \<open>Send\<close> writes to, \<open>None\<close> for a nil \<open>Send\<close>\<close>
  last_seen :: time
  conn_mux :: "json option mux option"

record hub =
  mcp :: "string \<rightharpoonup> nat"
  harness :: "string \<rightharpoonup> nat"
  harness_by_user :: "string \<rightharpoonup> string"
  on_worker_online :: bool   \<comment> \<open>whether a callback was installed with \<open>SetOnWorkerOnline\<close>\<close>
  heap :: "nat \<Rightarrow> conn"
  next_conn :: nat

definition zero_conn :: conn where
  "zero_conn =
     \<lparr>conn_id = '''', conn_kind = '''', instance_id = '''', worker_id = '''', tenant_id = '''',
      user_id = '''', provider = '''', tier = '''', providers = [], max_concurrent = 0,
      active_jobs = 0, sock = None, last_seen = 0, conn_mux = None\<rparr>"

definition new_hub :: hub where
  "new_hub =
     \<lparr>mcp = Map.empty, harness = Map.empty, harness_by_user = Map.empty, on_worker_online = False,
      heap = (\<lambda>_. zero_conn), next_conn = 0\<rparr>"

definition set_on_worker_online :: "bool \<Rightarrow> hub \<Rightarrow> hub" where
  "set_on_worker_online fn h = h\<lparr>on_worker_online := fn\<rparr>"

definition alloc_conn :: "conn \<Rightarrow> hub \<Rightarrow> nat \<times> hub" where
  \<comment> \<open>\<open>&Conn{...}\<close>\<close>
  "alloc_conn c h = (next_conn h, h\<lparr>heap := (heap h)(next_conn h := c), next_conn := Suc (next_conn h)\<rparr>)"

definition upd_conn :: "nat \<Rightarrow> (conn \<Rightarrow> conn) \<Rightarrow> hub \<Rightarrow> hub" where
  "upd_conn a f h = h\<lparr>heap := (heap h)(a := f (heap h a))\<rparr>"

definition user_key :: "string \<Rightarrow> string \<Rightarrow> string" where
  "user_key t u = t @ ''#'' @ u"

definition conn_user_key :: "conn \<Rightarrow> string" where
  "conn_user_key c = user_key (tenant_id c) (user_id c)"

definition has_user :: "conn \<Rightarrow> bool" where
  "has_user c \<longleftrightarrow> tenant_id c \<noteq> '''' \<and> user_id c \<noteq> ''''"

definition index_heavy :: "string \<Rightarrow> conn \<Rightarrow> hub \<Rightarrow> hub" where
  "index_heavy w c h =
     (if has_user c \<and> equal_fold (tier c) ''heavy''
      then h\<lparr>harness_by_user := (harness_by_user h)(conn_user_key c \<mapsto> w)\<rparr>
      else h)"

subsection \<open>Registration\<close>

definition register_mcp :: "string \<Rightarrow> nat option \<Rightarrow> time \<Rightarrow> hub \<Rightarrow> hub" where
  "register_mcp i p now h =
     (case p of
        None \<Rightarrow> h
      | Some a \<Rightarrow>
          if i = '''' then h
          else (upd_conn a (\<lambda>c. c\<lparr>instance_id := i, conn_kind := ''mcp'', last_seen := now,
                  conn_mux := (case conn_mux c of None \<Rightarrow> Some (new_mux 0) | Some m \<Rightarrow> Some m)\<rparr>) h)
               \<lparr>mcp := (mcp h)(i \<mapsto> a)\<rparr>)"

datatype hub_event = WorkerOnline string string string

definition register_harness :: "string \<Rightarrow> nat option \<Rightarrow> time \<Rightarrow> hub \<Rightarrow> hub \<times> hub_event list" where
  "register_harness w p now h =
     (case p of
        None \<Rightarrow> (h, [])
      | Some a \<Rightarrow>
          if w = '''' then (h, [])
          else
            (let h1 = upd_conn a (\<lambda>c. c\<lparr>worker_id := w, conn_kind := ''harness'', last_seen := now\<rparr>) h;
                 c = heap h1 a;
                 h2 = index_heavy w c (h1\<lparr>harness := (harness h1)(w \<mapsto> a)\<rparr>)
             in (h2, if on_worker_online h2 then [WorkerOnline w (tenant_id c) (user_id c)] else [])))"

definition update_harness_capabilities ::
    "string \<Rightarrow> string \<Rightarrow> string list \<Rightarrow> int \<Rightarrow> hub \<Rightarrow> hub" where
  "update_harness_capabilities w tr provs maxc h =
     (case harness h w of
        None \<Rightarrow> h
      | Some a \<Rightarrow>
          (let h1 = upd_conn a (\<lambda>c. c\<lparr>tier := to_lower (trim_space tr), providers := provs,
                 max_concurrent :=
                   (if 0 < maxc then maxc
                    else if max_concurrent c \<le> 0 then 1 else max_concurrent c)\<rparr>) h
           in index_heavy w (heap h1 a) h1))"

definition inc_harness_active_jobs :: "string \<Rightarrow> int \<Rightarrow> hub \<Rightarrow> hub" where
  "inc_harness_active_jobs w delta h =
     (case harness h w of
        None \<Rightarrow> h
      | Some a \<Rightarrow>
          upd_conn a (\<lambda>c. let n = active_jobs c + delta
                          in c\<lparr>active_jobs := (if n < 0 then 0 else n)\<rparr>) h)"

definition unregister_mcp :: "string \<Rightarrow> hub \<Rightarrow> hub" where
  "unregister_mcp i h = h\<lparr>mcp := (mcp h)(i := None)\<rparr>"

definition unindex :: "conn \<Rightarrow> hub \<Rightarrow> hub" where
  "unindex c h =
     (if has_user c then h\<lparr>harness_by_user := (harness_by_user h)(conn_user_key c := None)\<rparr> else h)"

definition unregister_harness :: "string \<Rightarrow> hub \<Rightarrow> hub" where
  "unregister_harness w h =
     (let h1 = (case harness h w of None \<Rightarrow> h | Some a \<Rightarrow> unindex (heap h a) h)
      in h1\<lparr>harness := (harness h1)(w := None)\<rparr>)"

definition touch :: "nat option \<Rightarrow> time \<Rightarrow> hub \<Rightarrow> hub" where
  "touch p now h =
     (case p of None \<Rightarrow> h | Some a \<Rightarrow> upd_conn a (\<lambda>c. c\<lparr>last_seen := now\<rparr>) h)"

subsection \<open>Lookups\<close>

definition get_mcp :: "hub \<Rightarrow> string \<Rightarrow> nat option" where
  "get_mcp h i = mcp h i"

definition get_harness :: "hub \<Rightarrow> string \<Rightarrow> nat option" where
  "get_harness h w = harness h w"

definition mcp_online :: "hub \<Rightarrow> string \<Rightarrow> bool" where
  "mcp_online h i \<longleftrightarrow> mcp h i \<noteq> None"

definition harness_online :: "hub \<Rightarrow> string \<Rightarrow> bool" where
  "harness_online h w \<longleftrightarrow> harness h w \<noteq> None"

definition harness_for_user :: "hub \<Rightarrow> string \<Rightarrow> string \<Rightarrow> nat option" where
  "harness_for_user h t u =
     (case harness_by_user h (user_key t u) of None \<Rightarrow> None | Some w \<Rightarrow> harness h w)"

subsection \<open>Picking a shared worker\<close>

definition harness_supports_provider :: "conn \<Rightarrow> string \<Rightarrow> bool" where
  "harness_supports_provider c p \<longleftrightarrow>
     (if p = '''' then False
      else if providers c = []
      then provider c = '''' \<or>
           (\<exists>q \<in> set (split_on CHR '','' (provider c)). equal_fold (trim_space q) p)
      else (\<exists>q \<in> set (providers c). equal_fold (trim_space q) p))"

definition effective_max :: "conn \<Rightarrow> int" where
  "effective_max c = (if max_concurrent c \<le> 0 then 1 else max_concurrent c)"

definition pick_skips :: "string \<Rightarrow> string \<Rightarrow> string \<Rightarrow> conn \<Rightarrow> bool" where
  "pick_skips t p tr c \<longleftrightarrow>
     \<not> equal_fold (tier c) tr \<or>
     (t \<noteq> '''' \<and> tenant_id c \<noteq> '''' \<and> tenant_id c \<noteq> t) \<or>
     (p \<noteq> '''' \<and> \<not> harness_supports_provider c p) \<or>
     effective_max c \<le> active_jobs c"

text \<open>The loop; \<open>best\<close> is the candidate so far with its load.\<close>

fun pick_loop ::
    "hub \<Rightarrow> string \<Rightarrow> string \<Rightarrow> string \<Rightarrow> string list \<Rightarrow> (nat \<times> int) option \<Rightarrow> (nat \<times> int) option" where
  "pick_loop h t p tr [] best = best"
| "pick_loop h t p tr (w # ws) best =
     (case harness h w of
        None \<Rightarrow> pick_loop h t p tr ws best
      | Some a \<Rightarrow>
          if pick_skips t p tr (heap h a) then pick_loop h t p tr ws best
          else (let load = active_jobs (heap h a)
                in (case best of
                      None \<Rightarrow> pick_loop h t p tr ws (Some (a, load))
                    | Some (b, best_load) \<Rightarrow>
                        if load < best_load then pick_loop h t p tr ws (Some (a, load))
                        else pick_loop h t p tr ws best)))"

definition pick_tier :: "string \<Rightarrow> string" where
  "pick_tier tr = (let s = to_lower (trim_space tr) in if s = '''' then ''lightweight'' else s)"

definition pick_shared_worker ::
    "string list \<Rightarrow> hub \<Rightarrow> string \<Rightarrow> string \<Rightarrow> string \<Rightarrow> nat option" where
  "pick_shared_worker order h t p tr =
     map_option fst
       (pick_loop h (trim_space t) (to_lower (trim_space p)) (pick_tier tr) order None)"

subsection \<open>Heartbeats\<close>

definition default_stale_threshold :: time where
  "default_stale_threshold = 90 * second"

definition is_stale :: "time \<Rightarrow> conn \<Rightarrow> bool" where
  "is_stale now c \<longleftrightarrow> default_stale_threshold < now - last_seen c"

definition stale_entries :: "time \<Rightarrow> hub \<Rightarrow> (string \<rightharpoonup> nat) \<Rightarrow> string list \<Rightarrow> (string \<times> nat) list" where
  "stale_entries now h tab order =
     concat (map (\<lambda>k. case tab k of
                        None \<Rightarrow> []
                      | Some a \<Rightarrow> if is_stale now (heap h a) then [(k, a)] else []) order)"

fun evict_harness :: "(string \<times> nat) list \<Rightarrow> hub \<Rightarrow> hub" where
  "evict_harness [] h = h"
| "evict_harness ((w, a) # es) h = evict_harness es (unregister_harness w h)"

text \<open>
  The sweep returns the hub and the entries whose offline callbacks run after the mutex is released,
  each with the reason \<open>heartbeat_timeout\<close>.
\<close>

definition sweep_stale ::
    "string list \<Rightarrow> string list \<Rightarrow> time \<Rightarrow> hub \<Rightarrow> hub \<times> (string \<times> nat) list \<times> (string \<times> nat) list" where
  "sweep_stale order_m order_h now h =
     (let stale_m = stale_entries now h (mcp h) order_m;
          stale_h = stale_entries now h (harness h) order_h;
          h1 = h\<lparr>mcp := delete_keys (map fst stale_m) (mcp h)\<rparr>
      in (evict_harness stale_h h1, stale_m, stale_h))"

definition ping_targets :: "string list \<Rightarrow> string list \<Rightarrow> hub \<Rightarrow> nat list" where
  \<comment> \<open>the sockets \<open>pingAll\<close> writes to\<close>
  "ping_targets order_m order_h h =
     concat (map (\<lambda>a. case sock (heap h a) of None \<Rightarrow> [] | Some s \<Rightarrow> [s])
       (concat (map (\<lambda>k. case mcp h k of None \<Rightarrow> [] | Some a \<Rightarrow> [a]) order_m) @
        concat (map (\<lambda>k. case harness h k of None \<Rightarrow> [] | Some a \<Rightarrow> [a]) order_h)))"

definition conn_key :: "conn \<Rightarrow> string" where
  "conn_key c = (if instance_id c \<noteq> '''' then instance_id c else worker_id c)"

subsection \<open>What each operation leaves alone\<close>

lemma upd_conn_simps [simp, hub_simps]:
  "mcp (upd_conn a f h) = mcp h" "harness (upd_conn a f h) = harness h"
  "harness_by_user (upd_conn a f h) = harness_by_user h" "next_conn (upd_conn a f h) = next_conn h"
  "on_worker_online (upd_conn a f h) = on_worker_online h"
  "heap (upd_conn a f h) b = (if b = a then f (heap h a) else heap h b)"
  by (simp_all add: upd_conn_def)

lemma index_heavy_simps [simp, hub_simps]:
  "mcp (index_heavy w c h) = mcp h" "harness (index_heavy w c h) = harness h"
  "heap (index_heavy w c h) = heap h" "next_conn (index_heavy w c h) = next_conn h"
  "on_worker_online (index_heavy w c h) = on_worker_online h"
  by (simp_all add: index_heavy_def)

lemma unindex_simps [simp, hub_simps]:
  "mcp (unindex c h) = mcp h" "harness (unindex c h) = harness h"
  "heap (unindex c h) = heap h" "next_conn (unindex c h) = next_conn h"
  by (simp_all add: unindex_def)

lemma unregister_harness_simps [simp, hub_simps]:
  "mcp (unregister_harness w h) = mcp h"
  "harness (unregister_harness w h) = (harness h)(w := None)"
  "heap (unregister_harness w h) = heap h" "next_conn (unregister_harness w h) = next_conn h"
  by (simp_all add: unregister_harness_def Let_def split: option.split)

lemma unregister_mcp_simps [simp, hub_simps]:
  "mcp (unregister_mcp i h) = (mcp h)(i := None)" "harness (unregister_mcp i h) = harness h"
  "heap (unregister_mcp i h) = heap h" "next_conn (unregister_mcp i h) = next_conn h"
  "harness_by_user (unregister_mcp i h) = harness_by_user h"
  by (simp_all add: unregister_mcp_def)

lemma register_mcp_simps [simp, hub_simps]:
  "mcp (register_mcp i (Some a) now h) = (if i = '''' then mcp h else (mcp h)(i \<mapsto> a))"
  "harness (register_mcp i (Some a) now h) = harness h"
  "harness_by_user (register_mcp i p now h) = harness_by_user h"
  "next_conn (register_mcp i p now h) = next_conn h"
  by (simp_all add: register_mcp_def split: option.split)

lemma register_harness_simps [simp, hub_simps]:
  "mcp (fst (register_harness w p now h)) = mcp h"
  "harness (fst (register_harness w (Some a) now h)) =
     (if w = '''' then harness h else (harness h)(w \<mapsto> a))"
  "next_conn (fst (register_harness w p now h)) = next_conn h"
  by (simp_all add: register_harness_def Let_def split: option.split)

lemma evict_harness_simps [simp, hub_simps]:
  "harness (evict_harness es h) = delete_keys (map fst es) (harness h)"
  "mcp (evict_harness es h) = mcp h" "heap (evict_harness es h) = heap h"
  "next_conn (evict_harness es h) = next_conn h"
  by (induction es h rule: evict_harness.induct) simp_all

subsection \<open>The tables are registries\<close>

interpretation mcp_table:
  registry get_mcp "\<lambda>i a. register_mcp i (Some a) now" "\<lambda>i. i \<noteq> ''''" unregister_mcp
  for now
  by unfold_locales (simp_all add: get_mcp_def)

interpretation harness_table:
  registry get_harness "\<lambda>w a h. fst (register_harness w (Some a) now h)" "\<lambda>w. w \<noteq> ''''" unregister_harness
  for now
  by unfold_locales (simp_all add: get_harness_def)

subsection \<open>Picking\<close>

definition pick_candidates :: "hub \<Rightarrow> string \<Rightarrow> string \<Rightarrow> string \<Rightarrow> string list \<Rightarrow> nat set" where
  "pick_candidates h t p tr ws =
     {a. \<exists>w \<in> set ws. harness h w = Some a \<and> \<not> pick_skips t p tr (heap h a)}"

lemma pick_candidates_Cons:
  "pick_candidates h t p tr (w # ws) =
     (case harness h w of
        None \<Rightarrow> {}
      | Some a \<Rightarrow> if pick_skips t p tr (heap h a) then {} else {a}) \<union> pick_candidates h t p tr ws"
  by (auto simp: pick_candidates_def split: option.splits)

lemma pick_loop_None:
  "pick_loop h t p tr ws best = None \<longleftrightarrow> best = None \<and> pick_candidates h t p tr ws = {}"
proof (induction ws arbitrary: best)
  case Nil
  then show ?case by (simp add: pick_candidates_def)
next
  case (Cons w ws)
  then show ?case
    by (auto simp: pick_candidates_Cons Let_def simp del: not_None_eq split: option.split)
qed

lemma pick_loop_Some:
  assumes "pick_loop h t p tr ws best = Some (b, l)"
    and "\<And>b0 l0. best = Some (b0, l0) \<Longrightarrow> l0 = active_jobs (heap h b0)"
  shows "l = active_jobs (heap h b) \<and>
    (b \<in> pick_candidates h t p tr ws \<or> best = Some (b, l)) \<and>
    (\<forall>a \<in> pick_candidates h t p tr ws. l \<le> active_jobs (heap h a)) \<and>
    (\<forall>b0 l0. best = Some (b0, l0) \<longrightarrow> l \<le> l0)"
  using assms
proof (induction ws arbitrary: best)
  case Nil
  then show ?case by (simp add: pick_candidates_def)
next
  case (Cons w ws)
  show ?case
  proof (cases "\<exists>a. harness h w = Some a \<and> \<not> pick_skips t p tr (heap h a)")
    case False
    then have "pick_loop h t p tr (w # ws) best = pick_loop h t p tr ws best"
      and "pick_candidates h t p tr (w # ws) = pick_candidates h t p tr ws"
      by (auto simp: pick_candidates_Cons split: option.splits)
    with Cons show ?thesis by metis
  next
    case True
    then obtain a where a: "harness h w = Some a" "\<not> pick_skips t p tr (heap h a)" by blast
    have cand: "pick_candidates h t p tr (w # ws) = insert a (pick_candidates h t p tr ws)"
      using a by (simp add: pick_candidates_Cons)
    let ?better = "case best of None \<Rightarrow> True | Some (_, l0) \<Rightarrow> active_jobs (heap h a) < l0"
    let ?best = "if ?better then Some (a, active_jobs (heap h a)) else best"
    have "pick_loop h t p tr (w # ws) best = pick_loop h t p tr ws ?best"
      using a by (auto simp: Let_def split: option.split)
    with Cons.prems(1) have "pick_loop h t p tr ws ?best = Some (b, l)" by simp
    moreover have "\<And>b0 l0. ?best = Some (b0, l0) \<Longrightarrow> l0 = active_jobs (heap h b0)"
      using Cons.prems(2) by (auto split: if_splits)
    ultimately have IH: "l = active_jobs (heap h b) \<and>
      (b \<in> pick_candidates h t p tr ws \<or> ?best = Some (b, l)) \<and>
      (\<forall>a \<in> pick_candidates h t p tr ws. l \<le> active_jobs (heap h a)) \<and>
      (\<forall>b0 l0. ?best = Some (b0, l0) \<longrightarrow> l \<le> l0)"
      by (rule Cons.IH)
    then show ?thesis unfolding cand
      by (cases best) (auto split: if_splits)
  qed
qed

text \<open>
  C15. \<open>PickSharedWorker\<close> returns a least-loaded worker among those that may take the job, whatever the
  order in which the map is visited: the worker is registered, of the requested tier (\<open>lightweight\<close> by
  default), of the caller's tenant or shared, supports the provider, has a free slot, and no other
  such worker has fewer active jobs; nothing is returned only when there is no such worker.
\<close>

theorem pick_shared_worker_optimal:
  assumes "set order = dom (harness h)"
  shows "case pick_shared_worker order h t p tr of
      None \<Rightarrow> \<forall>w a. harness h w = Some a \<longrightarrow>
        pick_skips (trim_space t) (to_lower (trim_space p)) (pick_tier tr) (heap h a)
    | Some a \<Rightarrow> a \<in> ran (harness h) \<and>
        equal_fold (tier (heap h a)) (pick_tier tr) \<and>
        (trim_space t = '''' \<or> tenant_id (heap h a) \<in> {'''', trim_space t}) \<and>
        (trim_space p = '''' \<or> harness_supports_provider (heap h a) (to_lower (trim_space p))) \<and>
        active_jobs (heap h a) < effective_max (heap h a) \<and>
        (\<forall>w b. harness h w = Some b \<longrightarrow>
          \<not> pick_skips (trim_space t) (to_lower (trim_space p)) (pick_tier tr) (heap h b) \<longrightarrow>
          active_jobs (heap h a) \<le> active_jobs (heap h b))"
proof -
  let ?T = "trim_space t" and ?P = "to_lower (trim_space p)" and ?R = "pick_tier tr"
  have cand: "pick_candidates h ?T ?P ?R order
      = {a. \<exists>w. harness h w = Some a \<and> \<not> pick_skips ?T ?P ?R (heap h a)}"
    using assms by (auto simp: pick_candidates_def)
  show ?thesis
  proof (cases "pick_loop h ?T ?P ?R order None")
    case None
    then have "pick_candidates h ?T ?P ?R order = {}" by (simp add: pick_loop_None)
    with None cand show ?thesis by (auto simp: pick_shared_worker_def)
  next
    case (Some r)
    obtain a l where r: "r = (a, l)" by fastforce
    from pick_loop_Some [OF Some [unfolded r]]
    have "l = active_jobs (heap h a)" "a \<in> pick_candidates h ?T ?P ?R order"
      "\<forall>b \<in> pick_candidates h ?T ?P ?R order. l \<le> active_jobs (heap h b)" by auto
    with Some r cand show ?thesis
      by (auto simp: pick_shared_worker_def pick_skips_def ran_def)
  qed
qed

definition demo_worker :: "string \<Rightarrow> int \<Rightarrow> conn" where
  "demo_worker w n =
     zero_conn\<lparr>worker_id := w, tier := ''lightweight'', max_concurrent := 4, active_jobs := n\<rparr>"

definition demo_hub :: hub where
  "demo_hub =
     new_hub\<lparr>harness := [''w1'' \<mapsto> 0, ''w2'' \<mapsto> 1],
             heap := (\<lambda>_. zero_conn)(0 := demo_worker ''w1'' 2, 1 := demo_worker ''w2'' 1),
             next_conn := 2\<rparr>"

theorem pick_shared_worker_optimal_witness:
  "set [''w1'', ''w2''] = dom (harness demo_hub) \<and>
   pick_shared_worker [''w1'', ''w2''] demo_hub ''t'' '''' '''' = Some 1 \<and>
   active_jobs (heap demo_hub 1) < effective_max (heap demo_hub 1)"
proof -
  have d: "set [''w1'', ''w2''] = dom (harness demo_hub)"
    by (auto simp: demo_hub_def)
  have p: "pick_shared_worker [''w1'', ''w2''] demo_hub ''t'' '''' '''' = Some 1"
    by code_simp
  show ?thesis
    using pick_shared_worker_optimal [OF d, of "''t''" "''''" "''''"] d p by simp
qed

subsection \<open>Sweeping\<close>

lemma stale_entries_iff:
  "(k, a) \<in> set (stale_entries now h tab order) \<longleftrightarrow>
     k \<in> set order \<and> tab k = Some a \<and> is_stale now (heap h a)"
  by (auto simp: stale_entries_def split: option.splits if_splits intro!: bexI [of _ k])

lemma stale_keys:
  "k \<in> fst ` set (stale_entries now h tab order) \<longleftrightarrow>
     k \<in> set order \<and> (\<exists>a. tab k = Some a \<and> is_stale now (heap h a))"
proof
  assume "k \<in> fst ` set (stale_entries now h tab order)"
  then obtain a where "(k, a) \<in> set (stale_entries now h tab order)" by auto
  then show "k \<in> set order \<and> (\<exists>a. tab k = Some a \<and> is_stale now (heap h a))"
    by (auto simp: stale_entries_iff)
next
  assume "k \<in> set order \<and> (\<exists>a. tab k = Some a \<and> is_stale now (heap h a))"
  then obtain a where "(k, a) \<in> set (stale_entries now h tab order)"
    by (auto simp: stale_entries_iff)
  then show "k \<in> fst ` set (stale_entries now h tab order)" by force
qed

lemma distinct_stale_entries:
  "distinct order \<Longrightarrow> distinct (map fst (stale_entries now h tab order))"
proof (induction order)
  case (Cons k ks)
  have "k \<notin> set (map fst (stale_entries now h tab ks))"
    using Cons.prems by (simp add: stale_keys)
  with Cons show ?case
    by (auto simp: stale_entries_def split: option.splits)
qed (simp add: stale_entries_def)

definition surviving :: "time \<Rightarrow> hub \<Rightarrow> (string \<rightharpoonup> nat) \<Rightarrow> (string \<rightharpoonup> nat)" where
  "surviving now h tab =
     (\<lambda>k. case tab k of None \<Rightarrow> None | Some a \<Rightarrow> if is_stale now (heap h a) then None else Some a)"

lemma delete_stale:
  "set order = dom tab \<Longrightarrow>
     delete_keys (map fst (stale_entries now h tab order)) tab = surviving now h tab"
proof (rule ext)
  fix k
  assume d: "set order = dom tab"
  show "delete_keys (map fst (stale_entries now h tab order)) tab k = surviving now h tab k"
    by (cases "tab k") (simp_all add: stale_keys surviving_def d domIff)
qed

text \<open>
  C16. The heartbeat sweep evicts exactly the stale sessions: an entry of either table survives iff it was
  heard from within the 90 second threshold, the connections themselves are untouched, and the offline
  callbacks run once for each evicted entry and for no other.
\<close>

theorem sweep_stale_exact:
  assumes "set order_m = dom (mcp h)" "set order_h = dom (harness h)"
    and "distinct order_m" "distinct order_h"
    and "sweep_stale order_m order_h now h = (h', off_m, off_h)"
  shows "mcp h' = surviving now h (mcp h) \<and> harness h' = surviving now h (harness h) \<and>
    heap h' = heap h \<and> distinct (map fst off_m) \<and> distinct (map fst off_h) \<and>
    (\<forall>i a. (i, a) \<in> set off_m \<longleftrightarrow> mcp h i = Some a \<and> is_stale now (heap h a)) \<and>
    (\<forall>w a. (w, a) \<in> set off_h \<longleftrightarrow> harness h w = Some a \<and> is_stale now (heap h a))"
proof -
  have off: "off_m = stale_entries now h (mcp h) order_m"
      "off_h = stale_entries now h (harness h) order_h"
    and h': "h' = evict_harness off_h (h\<lparr>mcp := delete_keys (map fst off_m) (mcp h)\<rparr>)"
    using assms(5) by (auto simp: sweep_stale_def Let_def)
  have "mcp h' = surviving now h (mcp h)" "harness h' = surviving now h (harness h)"
    "heap h' = heap h"
    using h' off delete_stale assms(1,2) by simp_all
  moreover have "distinct (map fst off_m)" "distinct (map fst off_h)"
    using off distinct_stale_entries assms(3,4) by simp_all
  moreover have "(i, a) \<in> set off_m \<longleftrightarrow> mcp h i = Some a \<and> is_stale now (heap h a)"
    "(i, a) \<in> set off_h \<longleftrightarrow> harness h i = Some a \<and> is_stale now (heap h a)" for i a
    using off assms(1,2) by (auto simp: stale_entries_iff)
  ultimately show ?thesis by blast
qed

theorem sweep_stale_exact_witness:
  "\<exists>h' off. sweep_stale [] [''w1'', ''w2''] (100 * second) demo_hub = (h', [], off) \<and>
     (''w1'', 0) \<in> set off \<and> harness h' ''w1'' = None"
proof -
  let ?r = "sweep_stale [] [''w1'', ''w2''] (100 * second) demo_hub"
  have m: "fst (snd ?r) = []"
    by (simp add: sweep_stale_def stale_entries_def Let_def)
  obtain h' off where r: "?r = (h', [], off)"
    using m by (cases ?r) auto
  have d: "set [] = dom (mcp demo_hub)" "set [''w1'', ''w2''] = dom (harness demo_hub)"
    by (auto simp: demo_hub_def new_hub_def)
  have w: "harness demo_hub ''w1'' = Some 0" "is_stale (100 * second) (heap demo_hub 0)"
    by (simp_all add: is_stale_def demo_hub_def demo_worker_def zero_conn_def
        default_stale_threshold_def second_def)
  have "(''w1'', 0) \<in> set off" "harness h' = surviving (100 * second) demo_hub (harness demo_hub)"
    using sweep_stale_exact [OF d _ _ r] w by auto
  with r w show ?thesis by (auto simp: surviving_def)
qed

subsection \<open>Well-formed hubs\<close>

text \<open>
  A listed connection was allocated, carries the key it is listed under, and a listed MCP connection
  has a multiplexer; every multiplexer is in order and no counter of active jobs is negative.
\<close>

definition hub_wf :: "hub \<Rightarrow> bool" where
  "hub_wf h \<longleftrightarrow>
     (\<forall>i a. mcp h i = Some a \<longrightarrow> i \<noteq> '''' \<and> a < next_conn h \<and> instance_id (heap h a) = i \<and>
        conn_mux (heap h a) \<noteq> None) \<and>
     (\<forall>w a. harness h w = Some a \<longrightarrow> w \<noteq> '''' \<and> a < next_conn h \<and> worker_id (heap h a) = w) \<and>
     (\<forall>a m. conn_mux (heap h a) = Some m \<longrightarrow> mux_ok m) \<and>
     (\<forall>a. 0 \<le> active_jobs (heap h a))"

definition unlisted :: "nat \<Rightarrow> hub \<Rightarrow> bool" where
  "unlisted a h \<longleftrightarrow> a < next_conn h \<and> a \<notin> ran (mcp h) \<and> a \<notin> ran (harness h)"

lemma hub_wf_new [simp]: "hub_wf new_hub"
  by (simp add: hub_wf_def new_hub_def zero_conn_def)

lemma hub_wf_alloc:
  assumes "hub_wf h" "0 \<le> active_jobs c" "\<And>m. conn_mux c = Some m \<Longrightarrow> mux_ok m"
    and "alloc_conn c h = (a, h')"
  shows "hub_wf h'" "unlisted a h'" "heap h' a = c" "mcp h' = mcp h" "harness h' = harness h"
    "harness_by_user h' = harness_by_user h" "a = next_conn h" "next_conn h' = Suc a"
    "b \<noteq> a \<Longrightarrow> heap h' b = heap h b"
proof -
  have h': "a = next_conn h"
    "h' = h\<lparr>heap := (heap h)(next_conn h := c), next_conn := Suc (next_conn h)\<rparr>"
    using assms(4) by (auto simp: alloc_conn_def)
  show "hub_wf h'"
    using assms(1-3) by (auto simp: h' hub_wf_def less_SucI dest: less_irrefl_nat)
  show "unlisted a h'"
    using assms(1) by (auto simp: h' hub_wf_def unlisted_def ran_def)
qed (use assms(4) in \<open>auto simp: alloc_conn_def\<close>)

lemma hub_wf_register_mcp:
  "hub_wf h \<Longrightarrow> unlisted a h \<Longrightarrow> hub_wf (register_mcp i (Some a) now h)"
  by (auto simp: hub_wf_def unlisted_def register_mcp_def ran_def split: option.splits)

lemma hub_wf_index_heavy [simp]: "hub_wf (index_heavy w c h) = hub_wf h"
  by (simp add: hub_wf_def)

lemma hub_wf_register_harness:
  "hub_wf h \<Longrightarrow> unlisted a h \<Longrightarrow> hub_wf (fst (register_harness w (Some a) now h))"
  by (auto simp: hub_wf_def unlisted_def register_harness_def ran_def Let_def)

text \<open>Updates of a connection that leave its keys and its multiplexer alone.\<close>

lemma hub_wf_upd_conn:
  assumes "hub_wf h" "instance_id (f (heap h a)) = instance_id (heap h a)"
    and "worker_id (f (heap h a)) = worker_id (heap h a)"
    and "conn_mux (f (heap h a)) = conn_mux (heap h a) \<or>
         (\<exists>m. conn_mux (f (heap h a)) = Some m \<and> mux_ok m)"
    and "0 \<le> active_jobs (f (heap h a))"
  shows "hub_wf (upd_conn a f h)"
  using assms unfolding hub_wf_def upd_conn_simps by (auto split: if_splits)

lemma hub_wf_touch: "hub_wf h \<Longrightarrow> hub_wf (touch p now h)"
  by (auto simp: touch_def hub_wf_def split: option.split intro!: hub_wf_upd_conn)

lemma hub_wf_inc: "hub_wf h \<Longrightarrow> hub_wf (inc_harness_active_jobs w d h)"
  by (auto simp: inc_harness_active_jobs_def Let_def split: option.split intro!: hub_wf_upd_conn)

lemma hub_wf_update: "hub_wf h \<Longrightarrow> hub_wf (update_harness_capabilities w t p m h)"
  by (auto simp: update_harness_capabilities_def Let_def hub_wf_def split: option.split
      intro!: hub_wf_upd_conn)

lemma hub_wf_unregister_mcp: "hub_wf h \<Longrightarrow> hub_wf (unregister_mcp i h)"
  by (simp add: hub_wf_def)

lemma hub_wf_unregister_harness: "hub_wf h \<Longrightarrow> hub_wf (unregister_harness w h)"
  by (simp add: hub_wf_def)

lemma hub_wf_sweep: "hub_wf h \<Longrightarrow> hub_wf (fst (sweep_stale om oh now h))"
  by (simp add: hub_wf_def sweep_stale_def Let_def)

lemmas hub_wf_intros = hub_wf_touch hub_wf_inc hub_wf_update hub_wf_unregister_mcp
  hub_wf_unregister_harness hub_wf_sweep hub_wf_register_mcp hub_wf_register_harness

subsection \<open>Job counters\<close>

lemma inc_active_jobs:
  "harness h w = Some a \<Longrightarrow>
     active_jobs (heap (inc_harness_active_jobs w d h) a) = max 0 (active_jobs (heap h a) + d)"
  by (simp add: inc_harness_active_jobs_def Let_def)

lemma inc_dec_active_jobs:
  "hub_wf h \<Longrightarrow> inc_harness_active_jobs w (-1) (inc_harness_active_jobs w 1 h) = h"
proof (cases "harness h w")
  case (Some a)
  assume "hub_wf h"
  then have "0 \<le> active_jobs (heap h a)" by (simp add: hub_wf_def)
  then show ?thesis using Some
    by (simp add: inc_harness_active_jobs_def Let_def upd_conn_def)
qed (simp add: inc_harness_active_jobs_def)

lemma inc_active_jobs_simps [simp, hub_simps]:
  "mcp (inc_harness_active_jobs w d h) = mcp h"
  "harness (inc_harness_active_jobs w d h) = harness h"
  "harness_by_user (inc_harness_active_jobs w d h) = harness_by_user h"
  "next_conn (inc_harness_active_jobs w d h) = next_conn h"
  by (simp_all add: inc_harness_active_jobs_def split: option.split)

lemma update_capabilities_simps [simp, hub_simps]:
  "mcp (update_harness_capabilities w t p m h) = mcp h"
  "harness (update_harness_capabilities w t p m h) = harness h"
  "next_conn (update_harness_capabilities w t p m h) = next_conn h"
  by (simp_all add: update_harness_capabilities_def Let_def split: option.split)

lemma touch_simps [simp, hub_simps]:
  "mcp (touch p now h) = mcp h" "harness (touch p now h) = harness h"
  "harness_by_user (touch p now h) = harness_by_user h" "next_conn (touch p now h) = next_conn h"
  by (simp_all add: touch_def split: option.split)

subsection \<open>The index from users to heavy workers\<close>

text \<open>
  \<open>harnessByUser\<close> is keyed by the tenant and the user joined with \<open>#\<close>, which separates them only when
  the tenant holds no \<open>#\<close>.
\<close>

lemma user_key_inj:
  assumes "user_key t u = user_key t' u'" "CHR ''#'' \<notin> set t" "CHR ''#'' \<notin> set t'"
  shows "t = t' \<and> u = u'"
proof -
  have "split_on CHR ''#'' (user_key t u) = t # split_on CHR ''#'' u"
    "split_on CHR ''#'' (user_key t' u') = t' # split_on CHR ''#'' u'"
    using assms(2,3) split_on_append by (simp_all add: user_key_def)
  with assms(1) show ?thesis by (auto simp: user_key_def)
qed

lemma user_key_ambiguous: "user_key ''a#b'' ''c'' = user_key ''a'' ''b#c''"
  by (simp add: user_key_def)

text \<open>
  The index is only as good as the worker ids: \<open>owner\<close> says which user each worker id belongs to. The
  index follows the owners as long as every worker registers under its own id.
\<close>

definition owned :: "(string \<Rightarrow> string \<times> string) \<Rightarrow> hub \<Rightarrow> bool" where
  "owned owner h \<longleftrightarrow>
     (\<forall>k w. harness_by_user h k = Some w \<longrightarrow> k = user_key (fst (owner w)) (snd (owner w))) \<and>
     (\<forall>w a. harness h w = Some a \<longrightarrow> (tenant_id (heap h a), user_id (heap h a)) = owner w)"

lemma owned_harness_for_user:
  assumes "owned owner h" "harness_for_user h t u = Some a"
  shows "user_key t u = conn_user_key (heap h a)"
proof -
  obtain w where w: "harness_by_user h (user_key t u) = Some w" "harness h w = Some a"
    using assms(2) by (auto simp: harness_for_user_def split: option.splits)
  have "user_key t u = user_key (fst (owner w)) (snd (owner w))"
    and "owner w = (tenant_id (heap h a), user_id (heap h a))"
    using assms(1) w unfolding owned_def by auto
  then show ?thesis by (simp add: conn_user_key_def)
qed

lemma owned_index_heavy:
  "owned owner h \<Longrightarrow> owner w = (tenant_id c, user_id c) \<Longrightarrow> owned owner (index_heavy w c h)"
  by (auto simp: owned_def index_heavy_def conn_user_key_def)

lemma owned_upd_conn:
  "owned owner h \<Longrightarrow> tenant_id (f (heap h a)) = tenant_id (heap h a) \<Longrightarrow>
     user_id (f (heap h a)) = user_id (heap h a) \<Longrightarrow> owned owner (upd_conn a f h)"
  by (auto simp: owned_def)

lemma owned_register_harness:
  "owned owner h \<Longrightarrow> owner w = (tenant_id (heap h a), user_id (heap h a)) \<Longrightarrow>
     owned owner (fst (register_harness w (Some a) now h))"
  by (auto simp: register_harness_def Let_def owned_def index_heavy_def conn_user_key_def
      split: if_splits)

lemma owned_unregister_harness: "owned owner h \<Longrightarrow> owned owner (unregister_harness w h)"
  by (auto simp: owned_def unregister_harness_def unindex_def Let_def split: option.splits if_splits)

end
