(* ===== verification/Http.thy ===== *)
theory Http
  imports GoValues
begin

section \<open>What the handlers see of an HTTP request\<close>

text \<open>
  The parts of an \<open>http.Request\<close> the source reads. A header or query parameter that is absent reads as
  the empty string, which is what \<open>Header.Get\<close> and \<open>Query().Get\<close> return; header names are given in the
  canonical spelling that \<open>Get\<close> looks up.
\<close>

record request =
  r_method :: string
  r_path :: string
  r_header :: "string \<Rightarrow> string"
  r_query :: "string \<Rightarrow> string"

text \<open>The body of a request: reading it fails, or it gives bytes that parse as JSON or do not.\<close>

datatype body_read = ReadError | ReadBody "json option"

text \<open>A string environment, and boolean settings in it (env.go).\<close>

type_synonym env = "string \<Rightarrow> string"

definition truthy :: "string list" where
  "truthy = [''1'', ''true'', ''yes'', ''on'']"

definition env_bool_true :: "env \<Rightarrow> string \<Rightarrow> bool" where
  "env_bool_true getenv key \<longleftrightarrow> to_lower (trim_space (getenv key)) \<in> set truthy"


text \<open>
  The JSON library as the source calls it: \<open>jl_parse\<close> is the syntax tree of a text that is one JSON
  value (\<open>Unmarshal\<close>), \<open>jl_first\<close> the tree of the first value of a stream (\<open>Decoder.Decode\<close>), both
  \<open>None\<close> on a syntax error; \<open>jl_float\<close> is the shortest text of the float nearest to a numeral.
\<close>

record json_lib =
  jl_parse :: "string \<Rightarrow> json option"
  jl_first :: "string \<Rightarrow> json option"
  jl_float :: "string \<Rightarrow> string option"

text \<open>What a call of an HTTP client comes to: a transport error, or a status, headers and a body.\<close>

datatype http_result =
    HttpFailed string
  | HttpReply int "string \<Rightarrow> string" string

definition positive_env_int :: "env \<Rightarrow> string \<Rightarrow> int \<Rightarrow> int" where
  \<comment> \<open>\<open>if n, err := strconv.Atoi(s); err == nil && n > 0\<close> over a default\<close>
  "positive_env_int getenv key dflt =
     (case atoi (getenv key) of Some n \<Rightarrow> if 0 < n then n else dflt | None \<Rightarrow> dflt)"

end
