(* ===== verification/RelayServer.thy ===== *)
theory RelayServer
  imports Hub Http
begin

section \<open>The relay server (relay/server.go, callback.go, control_callback.go, env.go)\<close>

text \<open>
  The HTTP handlers of the relay as functions on the server's state, returning the effects they have:
  the response, frames written to sockets, callbacks posted to the orchestrator and to Control. What
  the handlers do not decide is an argument: the result of the WebSocket upgrade, fresh uuids, the
  time, whether a write to a socket succeeds. A handler that reads a socket until it fails is three
  functions: the connect, one frame, and the deferred teardown. A forward that waits for its answer
  is two: up to the wait, and from it.
\<close>

subsection \<open>Configuration and callbacks\<close>

record callback =
  cb_base :: string
  cb_token :: string

record server_config =
  auth_token :: string
  public_base_url :: string
  orchestrator :: "callback option"
  control :: "callback option"

definition trim_url :: "string \<Rightarrow> string" where
  "trim_url s = trim_right_set (trim_space s) ''/''"

definition new_callback :: "string \<Rightarrow> string \<Rightarrow> callback" where
  "new_callback base tok = \<lparr>cb_base = trim_url base, cb_token = trim_space tok\<rparr>"

record router_env =
  env_orchestrator_url :: string
  env_control_url :: string
  env_internal_token :: string
  env_public_base_url :: string
  env_auth_token :: string

definition load_router_env :: "(string \<Rightarrow> string) \<Rightarrow> router_env" where
  "load_router_env getenv =
     \<lparr>env_orchestrator_url = trim_url (getenv ''HARNESS_ORCHESTRATOR_URL''),
      env_control_url = trim_url (getenv ''MCP_CONTROL_SERVER_URL''),
      env_internal_token = trim_space (getenv ''MCP_CONTROL_INTERNAL_TOKEN''),
      env_public_base_url = trim_url (getenv ''RELAY_PUBLIC_BASE_URL''),
      env_auth_token = trim_space (getenv ''RELAY_AUTH_TOKEN'')\<rparr>"

definition server_config_from_env :: "(string \<Rightarrow> string) \<Rightarrow> server_config" where
  "server_config_from_env getenv =
     (let e = load_router_env getenv in
      \<lparr>auth_token = env_auth_token e, public_base_url = env_public_base_url e,
       orchestrator = (if env_orchestrator_url e \<noteq> ''''
         then Some (new_callback (env_orchestrator_url e) (env_internal_token e)) else None),
       control = (if env_control_url e \<noteq> ''''
         then Some (new_callback (env_control_url e) (env_internal_token e)) else None)\<rparr>)"

definition auth_token_from_env :: "(string \<Rightarrow> string) option \<Rightarrow> string" where
  "auth_token_from_env getenv =
     (case getenv of None \<Rightarrow> '''' | Some g \<Rightarrow> trim_space (g ''RELAY_AUTH_TOKEN''))"

definition public_base_url_from_env :: "(string \<Rightarrow> string) \<Rightarrow> (string \<Rightarrow> string) option \<Rightarrow> string" where
  \<comment> \<open>the first argument is the process environment, used when no function is given\<close>
  "public_base_url_from_env os_getenv getenv =
     (case getenv of
        None \<Rightarrow> trim_url (os_getenv ''RELAY_PUBLIC_BASE_URL'')
      | Some g \<Rightarrow> trim_url (g ''RELAY_PUBLIC_BASE_URL''))"

subsection \<open>Frames and effects\<close>

datatype out_frame =
    FPing
  | FMCPConnected string string                  \<comment> \<open>instance id, canonical url\<close>
  | FHarnessRegistered string                    \<comment> \<open>worker id\<close>
  | FMCPRequest string json string string        \<comment> \<open>request id, body, authorization, instance id\<close>
  | FHarnessRun gomap
  | FEmpty                                       \<comment> \<open>the text \<open>{}\<close> that \<open>mustJSON\<close> falls back to\<close>

datatype rbody = TextBody string | JsonBody gomap | RawBody "json option"

datatype effect =
    Respond int rbody
  | Send nat out_frame
  | Post string string gomap                     \<comment> \<open>url, internal token, payload\<close>
  | CloseWs nat
  | Panic string

definition http_error :: "int \<Rightarrow> string \<Rightarrow> effect list" where
  "http_error code msg = [Respond code (TextBody msg)]"

definition write_json :: "int \<Rightarrow> gomap \<Rightarrow> effect list" where
  "write_json code v = [Respond code (JsonBody v)]"

definition cb_post :: "callback \<Rightarrow> string \<Rightarrow> gomap \<Rightarrow> effect list" where
  "cb_post cb path body = [Post (cb_base cb @ path) (cb_token cb) body]"

definition strs :: "(string \<times> string) list \<Rightarrow> gomap" where
  "strs kvs = fmap_of_list (map (\<lambda>(k, v). (k, GStr v)) kvs)"

definition notify_worker_online :: "callback option \<Rightarrow> string \<Rightarrow> string \<Rightarrow> string \<Rightarrow> effect list" where
  "notify_worker_online c w t u =
     (case c of
        None \<Rightarrow> []
      | Some cb \<Rightarrow>
          if cb_base cb = '''' then []
          else cb_post cb ''/api/v1/internal/harness/worker-online''
                 (strs [(''worker_id'', w), (''tenant_id'', t), (''user_id'', u)]))"

definition notify_run_complete ::
    "callback option \<Rightarrow> string \<Rightarrow> string \<Rightarrow> gomap option \<Rightarrow> string \<Rightarrow> effect list" where
  "notify_run_complete c run status result err =
     (case c of
        None \<Rightarrow> []
      | Some cb \<Rightarrow>
          if cb_base cb = '''' then []
          else
            (let p0 = strs [(''run_id'', run), (''status'', status)];
                 p1 = (case result of None \<Rightarrow> p0 | Some r \<Rightarrow> fmupd ''result'' (GMap r) p0);
                 p2 = (if err \<noteq> '''' then fmupd ''error'' (GStr err) p1 else p1)
             in cb_post cb ''/api/v1/internal/harness/run-complete'' p2))"

definition notify_instance_connected ::
    "callback option \<Rightarrow> string \<Rightarrow> string \<Rightarrow> string \<Rightarrow> effect list" where
  "notify_instance_connected c i t url =
     (case c of
        None \<Rightarrow> []
      | Some cb \<Rightarrow>
          if cb_base cb = '''' then []
          else cb_post cb ''/internal/mcp/relay/instance-connected''
                 (strs [(''instance_id'', i), (''tenant_id'', t), (''canonical_url'', url),
                        (''connectivity'', ''online'')]))"

definition notify_instance_disconnected ::
    "callback option \<Rightarrow> string \<Rightarrow> string \<Rightarrow> string \<Rightarrow> effect list" where
  "notify_instance_disconnected c i t reason =
     (case c of
        None \<Rightarrow> []
      | Some cb \<Rightarrow>
          if cb_base cb = '''' then []
          else cb_post cb ''/internal/mcp/relay/instance-disconnected''
                 (strs [(''instance_id'', i), (''tenant_id'', t), (''reason'', reason),
                        (''connectivity'', ''offline'')]))"

subsection \<open>The server\<close>

text \<open>
  Besides the hub, the state has what the running handlers hold: for each open session the key its
  handler captured, and for each forward in progress the connection, the request id and the channel.
  \<open>answers\<close> is a history variable, the \<open>mcp_response\<close> frames dispatched so far.
\<close>

record server =
  the_hub :: hub
  the_cfg :: server_config
  mcp_sessions :: "nat \<rightharpoonup> string \<times> string"
  harness_sessions :: "nat \<rightharpoonup> string"
  waiters :: "(nat \<times> string \<times> nat) list"
  answers :: "(nat \<times> string \<times> json option) set"

definition new_server :: "server_config \<Rightarrow> server" where
  "new_server cfg =
     \<lparr>the_hub = new_hub, the_cfg = cfg, mcp_sessions = Map.empty, harness_sessions = Map.empty,
      waiters = [], answers = {}\<rparr>"

definition mcp_instance_prefix :: string where
  "mcp_instance_prefix = ''/relay/mcp/instances/''"

definition harness_worker_prefix :: string where
  "harness_worker_prefix = ''/relay/harness/workers/''"

definition authorize_connect :: "server_config \<Rightarrow> string \<Rightarrow> string option" where
  \<comment> \<open>the error message, \<open>None\<close> when the caller may connect\<close>
  "authorize_connect cfg header =
     (let auth = trim_space header in
      if auth = '''' then Some ''missing authorization''
      else if \<not> has_prefix (to_lower auth) ''bearer '' then Some ''authorization must be bearer token''
      else
        (let token = trim_space (drop 7 auth) in
         if token = '''' then Some ''empty bearer token''
         else if auth_token cfg \<noteq> '''' \<and> token \<noteq> auth_token cfg then Some ''invalid bearer token''
         else None))"

definition instance_canonical_url :: "server_config \<Rightarrow> string \<Rightarrow> string" where
  "instance_canonical_url cfg i =
     (let base = trim_url (public_base_url cfg) in
      if base = '''' then '''' else base @ mcp_instance_prefix @ i)"

subsection \<open>MCP sessions\<close>

definition handle_mcp_connect ::
    "request \<Rightarrow> nat option \<Rightarrow> string \<Rightarrow> time \<Rightarrow> server \<Rightarrow> server \<times> effect list" where
  "handle_mcp_connect r ws uuid now s =
     (if r_method r \<noteq> ''GET'' then (s, http_error 405 ''method not allowed'')
      else case authorize_connect (the_cfg s) (r_header r ''Authorization'') of
        Some e \<Rightarrow> (s, http_error 401 e)
      | None \<Rightarrow>
          let i = trim_space (r_query r ''instance_id'') in
          if i = '''' then (s, http_error 400 ''instance_id required'')
          else
            (let t = trim_space (r_query r ''tenant_id''); u = trim_space (r_query r ''user_id'') in
             case ws of
               None \<Rightarrow> (s, [])
             | Some k \<Rightarrow>
                 let (a, h1) = alloc_conn (zero_conn\<lparr>conn_id := uuid, instance_id := i, tenant_id := t,
                       user_id := u, conn_mux := Some (new_mux 0), sock := Some k\<rparr>) (the_hub s);
                     h2 = register_mcp i (Some a) now h1;
                     url = instance_canonical_url (the_cfg s) i
                 in (s\<lparr>the_hub := h2, mcp_sessions := (mcp_sessions s)(a \<mapsto> (i, t))\<rparr>,
                     (if url \<noteq> '''' then notify_instance_connected (control (the_cfg s)) i t url else [])
                     @ [Send k (FMCPConnected i url)])))"

record mcp_frame =
  mf_type :: string
  mf_id :: string
  mf_body :: "json option"
  mf_status :: int

definition decode_mcp_frame :: "json option \<Rightarrow> mcp_frame option" where
  "decode_mcp_frame msg =
     Option.bind (decode_members msg) (\<lambda>ms.
     Option.bind (field_string ''type'' ms) (\<lambda>ty.
     Option.bind (field_string ''id'' ms) (\<lambda>i.
     Option.bind (decode_field dec_raw ''body'' None ms) (\<lambda>b.
     Option.bind (field_int ''status'' ms) (\<lambda>st.
       Some \<lparr>mf_type = ty, mf_id = i, mf_body = b, mf_status = st\<rparr>)))))"

definition set_mux :: "nat \<Rightarrow> json option mux \<Rightarrow> hub \<Rightarrow> hub" where
  "set_mux a m h = upd_conn a (\<lambda>c. c\<lparr>conn_mux := Some m\<rparr>) h"

definition dispatch_mcp_inbound :: "nat \<Rightarrow> json option \<Rightarrow> server \<Rightarrow> server \<times> effect list" where
  "dispatch_mcp_inbound a msg s =
     (case decode_mcp_frame msg of
        None \<Rightarrow> (s, [])
      | Some f \<Rightarrow>
          if mf_type f = ''pong'' \<or> mf_type f = ''heartbeat'' then (s, [])
          else if mf_type f = ''mcp_response'' then
            (case conn_mux (heap (the_hub s) a) of
               None \<Rightarrow> (s, [])
             | Some m \<Rightarrow>
                 if mf_id f = '''' then (s, [])
                 else (case mux_complete (mf_id f) (mf_body f) m of
                         None \<Rightarrow> (s, [Panic ''close of closed channel''])
                       | Some (_, m') \<Rightarrow>
                           (s\<lparr>the_hub := set_mux a m' (the_hub s),
                              answers := insert (a, mf_id f, mf_body f) (answers s)\<rparr>, [])))
          else (s, []))"

definition handle_mcp_frame :: "nat \<Rightarrow> json option \<Rightarrow> time \<Rightarrow> server \<Rightarrow> server \<times> effect list" where
  "handle_mcp_frame a msg now s =
     (case mcp_sessions s a of
        None \<Rightarrow> (s, [])
      | Some _ \<Rightarrow> dispatch_mcp_inbound a msg (s\<lparr>the_hub := touch (Some a) now (the_hub s)\<rparr>))"

definition handle_mcp_close :: "nat \<Rightarrow> server \<Rightarrow> server \<times> effect list" where
  \<comment> \<open>the read failed: the deferred function of the handler\<close>
  "handle_mcp_close a s =
     (case mcp_sessions s a of
        None \<Rightarrow> (s, [])
      | Some (i, t) \<Rightarrow>
          (s\<lparr>the_hub := unregister_mcp i (the_hub s), mcp_sessions := (mcp_sessions s)(a := None)\<rparr>,
           notify_instance_disconnected (control (the_cfg s)) i t ''disconnect'' @
           (case sock (heap (the_hub s) a) of None \<Rightarrow> [] | Some k \<Rightarrow> [CloseWs k])))"

subsection \<open>Harness sessions\<close>

definition handle_harness_connect ::
    "request \<Rightarrow> nat option \<Rightarrow> string \<Rightarrow> string \<Rightarrow> time \<Rightarrow> server \<Rightarrow> server \<times> effect list" where
  "handle_harness_connect r ws wuuid uuid now s =
     (if r_method r \<noteq> ''GET'' then (s, http_error 405 ''method not allowed'')
      else case authorize_connect (the_cfg s) (r_header r ''Authorization'') of
        Some e \<Rightarrow> (s, http_error 401 e)
      | None \<Rightarrow>
          let w0 = trim_space (r_query r ''worker_id'');
              w = (if w0 = '''' then wuuid else w0);
              t = trim_space (r_query r ''tenant_id''); u = trim_space (r_query r ''user_id'');
              p = trim_space (r_query r ''provider'');
              tr = to_lower (trim_space (r_query r ''tier''))
          in (case ws of
               None \<Rightarrow> (s, [])
             | Some k \<Rightarrow>
                 let (a, h1) = alloc_conn (zero_conn\<lparr>conn_id := uuid, worker_id := w, tenant_id := t,
                       user_id := u, provider := p, tier := tr, sock := Some k\<rparr>) (the_hub s);
                     (h2, _) = register_harness w (Some a) now h1
                 in (s\<lparr>the_hub := h2, harness_sessions := (harness_sessions s)(a \<mapsto> w)\<rparr>,
                     notify_worker_online (orchestrator (the_cfg s)) w t u
                     @ [Send k (FHarnessRegistered w)])))"

record harness_frame =
  hf_type :: string
  hf_run_id :: string
  hf_status :: string
  hf_result :: "gomap option"
  hf_error :: string
  hf_worker_id :: string
  hf_tier :: string
  hf_providers :: "string list"
  hf_max :: int

text \<open>The nested struct \<open>capabilities\<close>.\<close>

fun dec_capabilities ::
    "string \<times> string list \<times> int \<Rightarrow> json \<Rightarrow> (string \<times> string list \<times> int) option" where
  "dec_capabilities (tr, ps, n) (JObj ms) =
     Option.bind (decode_field dec_string ''tier'' tr ms) (\<lambda>tr'.
     Option.bind (decode_field dec_strings ''providers'' ps ms) (\<lambda>ps'.
     Option.bind (decode_field dec_int ''max_concurrent'' n ms) (\<lambda>n'. Some (tr', ps', n'))))"
| "dec_capabilities old JNull = Some old"
| "dec_capabilities old _ = None"

definition decode_harness_frame ::
    "(string \<Rightarrow> string option) \<Rightarrow> json option \<Rightarrow> harness_frame option" where
  "decode_harness_frame fl msg =
     Option.bind (decode_members msg) (\<lambda>ms.
     Option.bind (field_string ''type'' ms) (\<lambda>ty.
     Option.bind (field_string ''run_id'' ms) (\<lambda>run.
     Option.bind (field_string ''status'' ms) (\<lambda>st.
     Option.bind (decode_field (dec_map fl) ''result'' None ms) (\<lambda>res.
     Option.bind (field_string ''error'' ms) (\<lambda>err.
     Option.bind (field_string ''worker_id'' ms) (\<lambda>w.
     Option.bind (decode_field dec_capabilities ''capabilities'' ('''', [], 0) ms) (\<lambda>(tr, ps, n).
       Some \<lparr>hf_type = ty, hf_run_id = run, hf_status = st, hf_result = res, hf_error = err,
             hf_worker_id = w, hf_tier = tr, hf_providers = ps, hf_max = n\<rparr>))))))))"

definition dispatch_harness_inbound ::
    "(string \<Rightarrow> string option) \<Rightarrow> nat \<Rightarrow> json option \<Rightarrow> server \<Rightarrow> server \<times> effect list" where
  "dispatch_harness_inbound fl a msg s =
     (case decode_harness_frame fl msg of
        None \<Rightarrow> (s, [])
      | Some f \<Rightarrow>
          if hf_type f = ''pong'' \<or> hf_type f = ''heartbeat'' then (s, [])
          else if hf_type f = ''harness_register'' then
            (let w = (if hf_worker_id f \<noteq> '''' then hf_worker_id f
                      else worker_id (heap (the_hub s) a))
             in (s\<lparr>the_hub := update_harness_capabilities w (hf_tier f) (hf_providers f) (hf_max f)
                      (the_hub s)\<rparr>, []))
          else if hf_type f = ''harness_complete'' then
            (s\<lparr>the_hub := inc_harness_active_jobs (worker_id (heap (the_hub s) a)) (-1) (the_hub s)\<rparr>,
             notify_run_complete (orchestrator (the_cfg s)) (hf_run_id f) (hf_status f)
               (hf_result f) (hf_error f))
          else (s, []))"

definition handle_harness_frame ::
    "(string \<Rightarrow> string option) \<Rightarrow> nat \<Rightarrow> json option \<Rightarrow> time \<Rightarrow> server \<Rightarrow> server \<times> effect list" where
  "handle_harness_frame fl a msg now s =
     (case harness_sessions s a of
        None \<Rightarrow> (s, [])
      | Some _ \<Rightarrow>
          dispatch_harness_inbound fl a msg (s\<lparr>the_hub := touch (Some a) now (the_hub s)\<rparr>))"

definition handle_harness_close :: "nat \<Rightarrow> server \<Rightarrow> server \<times> effect list" where
  "handle_harness_close a s =
     (case harness_sessions s a of
        None \<Rightarrow> (s, [])
      | Some w \<Rightarrow>
          (s\<lparr>the_hub := unregister_harness w (the_hub s),
             harness_sessions := (harness_sessions s)(a := None)\<rparr>,
           (case sock (heap (the_hub s) a) of None \<Rightarrow> [] | Some k \<Rightarrow> [CloseWs k])))"

subsection \<open>Forwarding a request to an MCP instance\<close>

definition instance_id_of_path :: "string \<Rightarrow> string" where
  "instance_id_of_path path =
     (let p = trim_prefix path mcp_instance_prefix in
      trim_set (hd (split_on CHR ''/'' p)) ''/'')"

definition request_frame :: "string \<Rightarrow> json option \<Rightarrow> string \<Rightarrow> string \<Rightarrow> out_frame" where
  \<comment> \<open>\<open>mustJSON\<close> of a map whose body is a \<open>RawMessage\<close>: marshalling fails on invalid JSON\<close>
  "request_frame rid body auth i =
     (case body of None \<Rightarrow> FEmpty | Some j \<Rightarrow> FMCPRequest rid j auth i)"

definition is_async :: "request \<Rightarrow> bool" where
  "is_async r \<longleftrightarrow>
     (let w = trim_space (r_header r ''X-Relay-Async'') in w = ''1'' \<or> equal_fold w ''true'')"

text \<open>
  A \<open>Send\<close> is a write to the connection's socket. \<open>send_to\<close> lists the frame whether or not the write
  succeeds; \<open>sent\<close> says whether it did.
\<close>

definition send_to :: "hub \<Rightarrow> nat \<Rightarrow> out_frame \<Rightarrow> effect list" where
  "send_to h a f = (case sock (heap h a) of None \<Rightarrow> [] | Some k \<Rightarrow> [Send k f])"

definition mux_of :: "hub \<Rightarrow> nat \<Rightarrow> json option mux" where
  \<comment> \<open>\<open>if conn.Mux == nil { conn.Mux = NewRequestMultiplexer(0) }\<close>\<close>
  "mux_of h a = (case conn_mux (heap h a) of None \<Rightarrow> new_mux 0 | Some m \<Rightarrow> m)"

definition forward_begin ::
    "request \<Rightarrow> body_read \<Rightarrow> string \<Rightarrow> bool \<Rightarrow> server \<Rightarrow> server \<times> effect list" where
  "forward_begin r b rid sent s =
     (if r_method r \<noteq> ''POST'' then (s, http_error 405 ''method not allowed'')
      else
        (let i = instance_id_of_path (r_path r) in
         if i = '''' then (s, http_error 400 ''instance_id required'')
         else case get_mcp (the_hub s) i of
           None \<Rightarrow> (s, http_error 503 ''connector not connected'')
         | Some a \<Rightarrow>
             (case b of
                ReadError \<Rightarrow> (s, http_error 400 ''read body'')
              | ReadBody j \<Rightarrow>
                  let (ch, m1) = mux_register rid (mux_of (the_hub s) a);
                      frame = send_to (the_hub s) a (request_frame rid j (r_header r ''Authorization'') i);
                      s1 = s\<lparr>the_hub := set_mux a m1 (the_hub s)\<rparr>
                  in if \<not> sent then
                       (case mux_cancel rid m1 of
                          None \<Rightarrow> (s1, frame @ [Panic ''close of closed channel''])
                        | Some m2 \<Rightarrow> (s\<lparr>the_hub := set_mux a m2 (the_hub s)\<rparr>,
                                      frame @ http_error 502 ''forward failed''))
                     else if is_async r then
                       (s1, frame @ write_json 202 (strs [(''status'', ''forwarded''), (''id'', rid)]))
                     else (s1\<lparr>waiters := (a, rid, ch) # waiters s\<rparr>, frame))))"

definition forward_end :: "nat \<Rightarrow> string \<Rightarrow> nat \<Rightarrow> bool \<Rightarrow> server \<Rightarrow> server \<times> effect list" where
  \<comment> \<open>a waiting forward goes on: a message or the close of its channel, or the timer\<close>
  "forward_end a rid ch timer s =
     (if (a, rid, ch) \<notin> set (waiters s) then (s, [])
      else case mux_wait ch timer (mux_of (the_hub s) a) of
        None \<Rightarrow> (s, [])
      | Some (Some body, m1) \<Rightarrow>
          (s\<lparr>the_hub := set_mux a m1 (the_hub s), waiters := remove1 (a, rid, ch) (waiters s)\<rparr>,
           [Respond 200 (RawBody body)])
      | Some (None, m1) \<Rightarrow>
          (case mux_cancel rid m1 of
             None \<Rightarrow> (s, [Panic ''close of closed channel''])
           | Some m2 \<Rightarrow>
               (s\<lparr>the_hub := set_mux a m2 (the_hub s), waiters := remove1 (a, rid, ch) (waiters s)\<rparr>,
                http_error 504 ''relay response timeout'')))"

subsection \<open>Picking and dispatching harness jobs\<close>

definition handle_harness_pick :: "request \<Rightarrow> string list \<Rightarrow> server \<Rightarrow> server \<times> effect list" where
  "handle_harness_pick r order s =
     (if r_method r \<noteq> ''GET'' then (s, http_error 405 ''method not allowed'')
      else
        (case pick_shared_worker order (the_hub s) (trim_space (r_query r ''tenant_id''))
                (trim_space (r_query r ''provider'')) (trim_space (r_query r ''tier'')) of
           None \<Rightarrow> (s, http_error 503 ''no shared worker available'')
         | Some a \<Rightarrow>
             let c = heap (the_hub s) a in
             (s, write_json 200 (fmap_of_list
                   [(''worker_id'', GStr (worker_id c)), (''tier'', GStr (tier c)),
                    (''active_jobs'', GNum (itoa (active_jobs c))),
                    (''max_concurrent'', GNum (itoa (max_concurrent c)))]))))"

definition worker_id_of_path :: "string \<Rightarrow> string" where
  "worker_id_of_path path =
     hd (split_on CHR ''/'' (trim_set (trim_prefix path harness_worker_prefix) ''/''))"

definition handle_harness_run ::
    "(string \<Rightarrow> string option) \<Rightarrow> request \<Rightarrow> body_read \<Rightarrow> string \<Rightarrow> string \<Rightarrow> bool \<Rightarrow> server
       \<Rightarrow> server \<times> effect list" where
  "handle_harness_run fl r b run_uuid job_uuid sent s =
     (if r_method r \<noteq> ''POST'' then (s, http_error 405 ''method not allowed'')
      else
        (let path = trim_prefix (r_path r) harness_worker_prefix;
             parts = split_on CHR ''/'' (trim_set path ''/'')
         in if parts = [] \<or> hd parts = '''' then (s, http_error 400 ''worker_id required'')
            else
              (let w = hd parts in
               case get_harness (the_hub s) w of
                 None \<Rightarrow> (s, http_error 503 ''harness worker not connected'')
               | Some a \<Rightarrow>
                   (case b of
                      ReadError \<Rightarrow> (s, http_error 400 ''read body'')
                    | ReadBody j \<Rightarrow>
                        (case unmarshal_map fl j of
                           None \<Rightarrow> (s, http_error 400 ''invalid json'')
                         | Some None \<Rightarrow> (s, [Panic ''assignment to entry in nil map''])
                         | Some (Some job) \<Rightarrow>
                             let run0 = get_str job ''run_id'';
                                 run = (if run0 = '''' then run_uuid else run0);
                                 job1 = (if run0 = '''' then fmupd ''run_id'' (GStr run) job else job);
                                 job2 = fmupd ''id'' (GStr job_uuid) (fmupd ''type'' (GStr ''harness_run'') job1);
                                 h1 = inc_harness_active_jobs w 1 (the_hub s);
                                 frame = send_to h1 a (FHarnessRun job2)
                             in if \<not> sent
                                then (s\<lparr>the_hub := inc_harness_active_jobs w (-1) h1\<rparr>,
                                      frame @ http_error 502 ''forward failed'')
                                else (s\<lparr>the_hub := h1\<rparr>,
                                      frame @ write_json 202
                                        (strs [(''status'', ''dispatched''), (''run_id'', run)])))))))"

subsection \<open>Heartbeats\<close>

definition on_mcp_offline :: "server_config \<Rightarrow> conn \<Rightarrow> string \<Rightarrow> effect list" where
  "on_mcp_offline cfg c reason =
     notify_instance_disconnected (control cfg) (instance_id c) (tenant_id c) reason"

definition heartbeat ::
    "string list \<Rightarrow> string list \<Rightarrow> string list \<Rightarrow> string list \<Rightarrow> time \<Rightarrow> server \<Rightarrow> server \<times> effect list"
  where
  \<comment> \<open>one tick of the monitor: \<open>sweepStale\<close>, then \<open>pingAll\<close>; each ranges over both tables\<close>
  "heartbeat om oh pm ph now s =
     (let (h', off_m, off_h) = sweep_stale om oh now (the_hub s) in
      (s\<lparr>the_hub := h'\<rparr>,
       concat (map (\<lambda>(i, a). on_mcp_offline (the_cfg s) (heap h' a) ''heartbeat_timeout'') off_m) @
       map (\<lambda>k. Send k FPing) (ping_targets pm ph h')))"


subsection \<open>Who may connect\<close>

lemma trimmed_bearer:
  assumes "a = trim_space h" "has_prefix (to_lower a) ''bearer ''"
  shows "trim_space (drop 7 a) \<noteq> ''''"
proof
  assume e: "trim_space (drop 7 a) = ''''"
  have l: "take 7 (to_lower a) = ''bearer ''" 
    using assms(2) by (simp add: has_prefix_def eval_nat_numeral)
  then have "length (take 7 (to_lower a)) = 7" by simp
  then have len: "7 \<le> length a" by (simp add: to_lower_def)
  have "lower_char (a ! 6) = CHR '' ''"
    using arg_cong [OF l, of "\<lambda>x. x ! 6"] len by (simp add: to_lower_def)
  then have sp: "a ! 6 = CHR '' ''" by (rule lower_char_space)
  have spl: "a = take 6 a @ [CHR '' ''] @ drop 7 a"
    using len sp id_take_nth_drop [of 6 a] by simp
  show False
  proof (cases "drop 7 a = []")
    case True
    with spl have "has_suffix a '' ''" unfolding has_suffix_iff by (metis append.right_neutral)
    moreover have "'' '' \<in> set space_runes" by (simp add: space_runes_def)
    ultimately show False using trim_space_no_suffix [of "'' ''" h] assms(1) by simp
  next
    case False
    then obtain p where p: "p \<in> set space_runes" "p \<noteq> []" "has_suffix (drop 7 a) p"
      using trim_space_empty_suffix e by blast
    then obtain x where "drop 7 a = x @ p" by (auto simp: has_suffix_iff)
    with spl have "has_suffix a p" unfolding has_suffix_iff by (metis append.assoc)
    with trim_space_no_suffix [OF p(1,2), of h] assms(1) show False by simp
  qed
qed

text \<open>
  C17. The relay admits exactly the callers it should: the trimmed \<open>Authorization\<close> header starts with
  \<open>Bearer \<close> in any case, and if a relay token is configured the trimmed rest equals it. The branch for an
  empty bearer token is never taken: trimming the header has already removed the space before it.
\<close>

theorem authorize_connect_exactly:
  "(authorize_connect cfg header = None \<longleftrightarrow>
     has_prefix (to_lower (trim_space header)) ''bearer '' \<and>
     (auth_token cfg = '''' \<or> trim_space (drop 7 (trim_space header)) = auth_token cfg)) \<and>
   authorize_connect cfg header \<noteq> Some ''empty bearer token''"
  using trimmed_bearer [OF refl, of header]
  by (auto simp: authorize_connect_def Let_def has_prefix_def to_lower_def)

end
