(* ===== verification/RelaySystem.thy ===== *)
theory RelaySystem
  imports RelayServer
begin

section \<open>The relay as a system\<close>

text \<open>
  What can happen to a relay server, one event per handler run or part of a run: a socket opens, a
  frame arrives on it, it closes, a client forwards a request or picks up its answer, a job is picked
  or dispatched, the heartbeat ticks. Any sequence of events is a run, so the theorems range over
  every interleaving of these parts. The grain is coarser than the code's: an event holds several mutex
  sections (a forward up to its wait is the lookup in the hub, \<open>Register\<close>, the write and, when the write
  fails, \<open>Cancel\<close>; a dispatched job is the increment, the write and the decrement of the counter), and a write
  to a socket takes no time. Multiplexer and MuxSpec have the interleavings of the single sections and
  channel operations of a multiplexer. What the websocket library does when two goroutines write to one
  socket at once is in neither.
\<close>

datatype server_event =
    EvMCPConnect request "nat option" string time
  | EvMCPFrame nat "json option" time
  | EvMCPClose nat
  | EvHarnessConnect request "nat option" string string time
  | EvHarnessFrame nat "json option" time
  | EvHarnessClose nat
  | EvForward request body_read string bool
  | EvForwardEnd nat string nat bool
  | EvPick request "string list"
  | EvRun request body_read string string bool
  | EvHeartbeat "string list" "string list" "string list" "string list" time

fun server_apply ::
    "(string \<Rightarrow> string option) \<Rightarrow> server_event \<Rightarrow> server \<Rightarrow> server \<times> effect list" where
  "server_apply fl (EvMCPConnect r ws uuid now) s = handle_mcp_connect r ws uuid now s"
| "server_apply fl (EvMCPFrame a msg now) s = handle_mcp_frame a msg now s"
| "server_apply fl (EvMCPClose a) s = handle_mcp_close a s"
| "server_apply fl (EvHarnessConnect r ws w uuid now) s = handle_harness_connect r ws w uuid now s"
| "server_apply fl (EvHarnessFrame a msg now) s = handle_harness_frame fl a msg now s"
| "server_apply fl (EvHarnessClose a) s = handle_harness_close a s"
| "server_apply fl (EvForward r b rid sent) s = forward_begin r b rid sent s"
| "server_apply fl (EvForwardEnd a rid ch timer) s = forward_end a rid ch timer s"
| "server_apply fl (EvPick r order) s = handle_harness_pick r order s"
| "server_apply fl (EvRun r b ru ju sent) s = handle_harness_run fl r b ru ju sent s"
| "server_apply fl (EvHeartbeat om oh pm ph now) s = heartbeat om oh pm ph now s"

fun server_run :: "(string \<Rightarrow> string option) \<Rightarrow> server_event list \<Rightarrow> server \<Rightarrow> server" where
  "server_run fl [] s = s"
| "server_run fl (e # es) s = server_run fl es (fst (server_apply fl e s))"

definition server_init :: "server \<Rightarrow> bool" where
  "server_init s \<longleftrightarrow> (\<exists>cfg. s = new_server cfg)"

definition server_step :: "(string \<Rightarrow> string option) \<Rightarrow> server \<Rightarrow> server \<Rightarrow> bool" where
  "server_step fl s t \<longleftrightarrow> (\<exists>e. t = fst (server_apply fl e s))"

lemma reach_server_run:
  "reach server_init (server_step fl) s \<Longrightarrow> reach server_init (server_step fl) (server_run fl es s)"
proof (induction es arbitrary: s)
  case (Cons e es)
  have "server_step fl s (fst (server_apply fl e s))"
    by (auto simp: server_step_def)
  with Cons show ?case by (simp add: reach_step)
qed simp

lemma reach_run_new: "reach server_init (server_step fl) (server_run fl es (new_server cfg))"
  by (rule reach_server_run, rule reach_init) (auto simp: server_init_def)

subsection \<open>What a waiting forward knows of its channel\<close>

text \<open>
  Its channel was allocated; if it is still pending it is pending for its own request id; and a body
  in its buffer came in an \<open>mcp_response\<close> frame with that id on that connection.
\<close>

definition waiter_ok ::
    "json option mux \<Rightarrow> (nat \<times> string \<times> json option) set \<Rightarrow> nat \<Rightarrow> string \<Rightarrow> nat \<Rightarrow> bool" where
  "waiter_ok m ans a rid ch \<longleftrightarrow>
     ch < next_chan m \<and> (\<forall>r. pending m r = Some ch \<longrightarrow> r = rid) \<and>
     (\<forall>b. buf (chans m ch) = Some b \<longrightarrow> (a, rid, b) \<in> ans)"

lemma waiter_ok_mono: "waiter_ok m ans a rid ch \<Longrightarrow> ans \<subseteq> ans' \<Longrightarrow> waiter_ok m ans' a rid ch"
  by (auto simp: waiter_ok_def)

lemma waiter_ok_register_new:
  assumes "mux_ok m" shows "waiter_ok (snd (mux_register rid m)) ans a rid (fst (mux_register rid m))"
  using assms by (auto simp: waiter_ok_def mux_register_def Let_def open_chan_def mux_ok_def)

lemma waiter_ok_register_old:
  "waiter_ok m ans a rid ch \<Longrightarrow> waiter_ok (snd (mux_register r m)) ans a rid ch"
  by (auto simp: waiter_ok_def mux_register_def Let_def)

lemma waiter_ok_complete:
  assumes "mux_ok m" "waiter_ok m ans a rid ch" "mux_complete r b m = Some (z, m')"
  shows "waiter_ok m' (insert (a, r, b) ans) a rid ch"
proof (cases "pending m r")
  case None
  then have "m' = m" using assms(3) by (auto simp: mux_complete_def mux_take_def)
  with assms(2) show ?thesis by (auto simp: waiter_ok_def)
next
  case (Some c)
  then have "chans m c = open_chan" using assms(1) by (simp add: mux_ok_def)
  with Some assms(2,3) show ?thesis
    by (auto simp: waiter_ok_def mux_complete_def mux_take_def chan_offer_def chan_close_def
        open_chan_def split: if_splits)
qed

lemma waiter_ok_cancel:
  assumes "waiter_ok m ans a rid ch" "mux_cancel r m = Some m'"
  shows "waiter_ok m' ans a rid ch"
  using assms
  by (auto simp: waiter_ok_def mux_cancel_def mux_take_def chan_close_def
      split: option.splits if_splits)

lemma waiter_ok_wait:
  assumes "waiter_ok m ans a rid ch" "mux_wait c timer m = Some (x, m')"
  shows "waiter_ok m' ans a rid ch"
  using assms
  by (auto simp: waiter_ok_def mux_wait_def chan_recv_def split: option.splits if_splits)

lemma mux_wait_mux_ok:
  assumes "mux_ok m" "mux_wait ch timer m = Some (x, m')" shows "mux_ok m'"
proof (cases "ch \<in> ran (pending m)")
  case True
  then have "chans m ch = open_chan" using assms(1) by (auto simp: mux_ok_def ran_def)
  with assms show ?thesis
    by (auto simp: mux_wait_def chan_recv_def open_chan_def split: if_splits)
next
  case False
  with mux_wait_ok assms show ?thesis by blast
qed

lemma mux_wait_body:
  "mux_wait ch timer m = Some (Some b, m') \<Longrightarrow> buf (chans m ch) = Some b"
  by (auto simp: mux_wait_def chan_recv_def split: option.splits if_splits)

subsection \<open>The invariant\<close>

text \<open>
  The hub is well formed; whatever it lists has an open session, whose handler captured the key it is
  listed under; the connection of an open session is allocated; and every waiting forward is in order.
\<close>

definition sessions_ok :: "server \<Rightarrow> bool" where
  "sessions_ok s \<longleftrightarrow>
     (\<forall>i a. mcp (the_hub s) i = Some a \<longrightarrow> (\<exists>t. mcp_sessions s a = Some (i, t))) \<and>
     (\<forall>w a. harness (the_hub s) w = Some a \<longrightarrow> harness_sessions s a = Some w) \<and>
     (\<forall>a x. mcp_sessions s a = Some x \<longrightarrow> a < next_conn (the_hub s)) \<and>
     (\<forall>a x. harness_sessions s a = Some x \<longrightarrow> a < next_conn (the_hub s))"

definition waiters_ok :: "server \<Rightarrow> bool" where
  "waiters_ok s \<longleftrightarrow>
     (\<forall>(a, rid, ch) \<in> set (waiters s). \<exists>m. a < next_conn (the_hub s) \<and>
        conn_mux (heap (the_hub s) a) = Some m \<and> waiter_ok m (answers s) a rid ch)"

definition server_inv :: "server \<Rightarrow> bool" where
  "server_inv s \<longleftrightarrow> hub_wf (the_hub s) \<and> sessions_ok s \<and> waiters_ok s"

lemma server_inv_new: "server_inv (new_server cfg)"
proof -
  have "sessions_ok (new_server cfg)" "waiters_ok (new_server cfg)"
    by (simp_all add: new_server_def sessions_ok_def waiters_ok_def new_hub_def)
  then show ?thesis by (simp add: server_inv_def new_server_def)
qed

text \<open>Steps that touch no multiplexer of an allocated connection keep the waiters in order.\<close>

lemma waiters_ok_frame:
  assumes "waiters_ok s" "waiters t = waiters s" "answers t = answers s"
    and "next_conn (the_hub s) \<le> next_conn (the_hub t)"
    and "\<And>a. a < next_conn (the_hub s) \<Longrightarrow>
           conn_mux (heap (the_hub t) a) = conn_mux (heap (the_hub s) a)"
  shows "waiters_ok t"
  unfolding waiters_ok_def
proof (clarify)
  fix a rid ch
  assume "(a, rid, ch) \<in> set (waiters t)"
  then obtain m where "a < next_conn (the_hub s)" "conn_mux (heap (the_hub s) a) = Some m"
      "waiter_ok m (answers s) a rid ch"
    using assms(1,2) by (fastforce simp: waiters_ok_def)
  with assms(3-5) show "\<exists>m. a < next_conn (the_hub t) \<and> conn_mux (heap (the_hub t) a) = Some m \<and>
      waiter_ok m (answers t) a rid ch"
    by (metis order_less_le_trans)
qed

lemma sessions_ok_frame:
  assumes "sessions_ok s" "mcp (the_hub t) \<subseteq>\<^sub>m mcp (the_hub s)"
    and "harness (the_hub t) \<subseteq>\<^sub>m harness (the_hub s)"
    and "mcp_sessions t = mcp_sessions s" "harness_sessions t = harness_sessions s"
    and "next_conn (the_hub t) = next_conn (the_hub s)"
  shows "sessions_ok t"
proof -
  have "mcp (the_hub t) i = Some a \<Longrightarrow> mcp (the_hub s) i = Some a"
    "harness (the_hub t) i = Some a \<Longrightarrow> harness (the_hub s) i = Some a" for i a
    using assms(2,3) by (metis domI map_le_def)+
  with assms show ?thesis by (simp add: sessions_ok_def)
qed

lemma server_invI: "hub_wf (the_hub s) \<Longrightarrow> sessions_ok s \<Longrightarrow> waiters_ok s \<Longrightarrow> server_inv s"
  by (simp add: server_inv_def)

lemma server_invD:
  assumes "server_inv s"
  shows "hub_wf (the_hub s)" "sessions_ok s" "waiters_ok s"
  using assms by (simp_all add: server_inv_def)

text \<open>A multiplexer of a well-formed hub, and putting one back.\<close>

lemma mux_of_ok: "hub_wf h \<Longrightarrow> mux_ok (mux_of h a)"
  by (auto simp: mux_of_def hub_wf_def split: option.split)

lemma set_mux_simps [simp, hub_simps]:
  "mcp (set_mux a m h) = mcp h" "harness (set_mux a m h) = harness h"
  "harness_by_user (set_mux a m h) = harness_by_user h"
  "next_conn (set_mux a m h) = next_conn h"
  "conn_mux (heap (set_mux a m h) b) = (if b = a then Some m else conn_mux (heap h b))"
  "worker_id (heap (set_mux a m h) b) = worker_id (heap h b)"
  "instance_id (heap (set_mux a m h) b) = instance_id (heap h b)"
  "active_jobs (heap (set_mux a m h) b) = active_jobs (heap h b)"
  "sock (heap (set_mux a m h) b) = sock (heap h b)"
  by (simp_all add: set_mux_def)

lemma mux_of_set_mux [simp]: "mux_of (set_mux a m h) b = (if b = a then m else mux_of h b)"
  by (simp add: mux_of_def)

lemma hub_wf_set_mux: "hub_wf h \<Longrightarrow> mux_ok m \<Longrightarrow> hub_wf (set_mux a m h)"
  unfolding set_mux_def by (rule hub_wf_upd_conn) (simp_all add: hub_wf_def)

lemma conn_mux_touch [simp]: "conn_mux (heap (touch p now h) b) = conn_mux (heap h b)"
  by (simp add: touch_def split: option.split)

lemma conn_mux_inc [simp]:
  "conn_mux (heap (inc_harness_active_jobs w d h) b) = conn_mux (heap h b)"
  by (simp add: inc_harness_active_jobs_def Let_def split: option.split)

lemma conn_mux_update [simp]:
  "conn_mux (heap (update_harness_capabilities w t p m h) b) = conn_mux (heap h b)"
  by (simp add: update_harness_capabilities_def Let_def split: option.split)

text \<open>
  Replacing the hub by one with the same tables and multiplexers keeps the invariant: touching a
  connection, counting jobs, taking capabilities over.
\<close>

lemma server_inv_hub:
  assumes "server_inv s" "hub_wf h" "mcp h \<subseteq>\<^sub>m mcp (the_hub s)"
    and "harness h \<subseteq>\<^sub>m harness (the_hub s)"
    and "next_conn h = next_conn (the_hub s)"
    and "\<And>a. conn_mux (heap h a) = conn_mux (heap (the_hub s) a)"
  shows "server_inv (s\<lparr>the_hub := h\<rparr>)"
proof (rule server_invI)
  show "sessions_ok (s\<lparr>the_hub := h\<rparr>)"
    by (rule sessions_ok_frame [OF server_invD(2) [OF assms(1)]]) (use assms in simp_all)
  show "waiters_ok (s\<lparr>the_hub := h\<rparr>)"
    by (rule waiters_ok_frame [OF server_invD(3) [OF assms(1)]]) (use assms in simp_all)
qed (use assms in simp)

text \<open>
  Replacing one multiplexer by one that keeps the waiters on it in order, with possibly more answers
  and other waiters.
\<close>

lemma server_inv_set_mux:
  assumes "server_inv s" "mux_ok m" "answers s \<subseteq> ans" "a < next_conn (the_hub s)"
    and "\<And>b rid ch. (b, rid, ch) \<in> set ws \<Longrightarrow> b \<noteq> a \<Longrightarrow> (b, rid, ch) \<in> set (waiters s)"
    and "\<And>rid ch. (a, rid, ch) \<in> set ws \<Longrightarrow> waiter_ok m ans a rid ch"
  shows "server_inv (s\<lparr>the_hub := set_mux a m (the_hub s), waiters := ws, answers := ans\<rparr>)"
    (is "server_inv ?t")
proof (rule server_invI)
  show "hub_wf (the_hub ?t)"
    using server_invD(1) [OF assms(1)] assms(2) by (simp add: hub_wf_set_mux)
  show "sessions_ok ?t"
    by (rule sessions_ok_frame [OF server_invD(2) [OF assms(1)]]) simp_all
  show "waiters_ok ?t"
    unfolding waiters_ok_def
  proof (clarify)
    fix b rid ch
    assume w: "(b, rid, ch) \<in> set (waiters ?t)"
    show "\<exists>m. b < next_conn (the_hub ?t) \<and> conn_mux (heap (the_hub ?t) b) = Some m \<and>
        waiter_ok m (answers ?t) b rid ch"
    proof (cases "b = a")
      case True
      with w assms(4,6) show ?thesis by simp
    next
      case False
      with w assms(5) have "(b, rid, ch) \<in> set (waiters s)" by simp
      then obtain m' where "b < next_conn (the_hub s)" "conn_mux (heap (the_hub s) b) = Some m'"
          "waiter_ok m' (answers s) b rid ch"
        using server_invD(3) [OF assms(1)] by (fastforce simp: waiters_ok_def)
      with False assms(3) show ?thesis by (auto intro: waiter_ok_mono)
    qed
  qed
qed

lemma waiter_mux:
  assumes "server_inv s" "(a, rid, ch) \<in> set (waiters s)"
  shows "a < next_conn (the_hub s)" "waiter_ok (mux_of (the_hub s) a) (answers s) a rid ch"
proof -
  obtain m where "a < next_conn (the_hub s)" "conn_mux (heap (the_hub s) a) = Some m"
      "waiter_ok m (answers s) a rid ch"
    using server_invD(3) [OF assms(1)] assms(2) by (fastforce simp: waiters_ok_def)
  then show "a < next_conn (the_hub s)" "waiter_ok (mux_of (the_hub s) a) (answers s) a rid ch"
    by (simp_all add: mux_of_def)
qed


subsection \<open>Every handler keeps the invariant\<close>

lemma register_mcp_conn_mux:
  "b \<noteq> a \<Longrightarrow> conn_mux (heap (register_mcp i (Some a) now h) b) = conn_mux (heap h b)"
  by (simp add: register_mcp_def)

lemma register_harness_conn_mux [simp]:
  "conn_mux (heap (fst (register_harness w (Some a) now h)) b) = conn_mux (heap h b)"
  by (simp add: register_harness_def Let_def)

lemma server_inv_open_mcp:
  assumes "server_inv s" "i \<noteq> ''''" "alloc_conn c (the_hub s) = (a, h1)"
    and "conn_mux c = Some (new_mux 0)" "active_jobs c = 0"
  shows "server_inv (s\<lparr>the_hub := register_mcp i (Some a) now h1,
           mcp_sessions := (mcp_sessions s)(a \<mapsto> (i, t))\<rparr>)" (is "server_inv ?t")
proof -
  have wf: "hub_wf (the_hub s)" using server_invD(1) [OF assms(1)] .
  note h1 = hub_wf_alloc [OF wf _ _ assms(3), simplified assms(4,5), simplified]
  have fresh: "mcp_sessions s a = None" "harness_sessions s a = None"
    using server_invD(2) [OF assms(1)] h1(7) by (auto simp: sessions_ok_def) (fastforce+)
  show ?thesis
  proof (rule server_invI)
    show "hub_wf (the_hub ?t)" using h1(1,2) by (simp add: hub_wf_register_mcp)
    show "sessions_ok ?t"
      using server_invD(2) [OF assms(1)] assms(2) h1(4,5,7,8) fresh
      by (fastforce simp: sessions_ok_def)
    show "waiters_ok ?t"
      by (rule waiters_ok_frame [OF server_invD(3) [OF assms(1)]])
        (use h1 in \<open>auto simp: register_mcp_conn_mux\<close>)
  qed
qed

lemma server_inv_open_harness:
  assumes "server_inv s" "alloc_conn c (the_hub s) = (a, h1)"
    and "conn_mux c = None" "active_jobs c = 0"
  shows "server_inv (s\<lparr>the_hub := fst (register_harness w (Some a) now h1),
           harness_sessions := (harness_sessions s)(a \<mapsto> w)\<rparr>)" (is "server_inv ?t")
proof -
  have wf: "hub_wf (the_hub s)" using server_invD(1) [OF assms(1)] .
  note h1 = hub_wf_alloc [OF wf _ _ assms(2), simplified assms(3,4), simplified]
  have fresh: "mcp_sessions s a = None" "harness_sessions s a = None"
    using server_invD(2) [OF assms(1)] h1(7) by (auto simp: sessions_ok_def) (fastforce+)
  show ?thesis
  proof (rule server_invI)
    show "hub_wf (the_hub ?t)" using h1(1,2) by (simp add: hub_wf_register_harness)
    show "sessions_ok ?t"
      using server_invD(2) [OF assms(1)] h1(4,5,7,8) fresh
      by (fastforce simp: sessions_ok_def)
    show "waiters_ok ?t"
      by (rule waiters_ok_frame [OF server_invD(3) [OF assms(1)]]) (use h1 in auto)
  qed
qed


lemma inv_mcp_connect:
  assumes "server_inv s" shows "server_inv (fst (handle_mcp_connect r ws uuid now s))"
proof -
  have "server_inv (s\<lparr>the_hub := register_mcp i (Some a) now h1,
      mcp_sessions := (mcp_sessions s)(a \<mapsto> (i, t))\<rparr>)"
    if "i \<noteq> ''''" "alloc_conn (zero_conn\<lparr>conn_id := uuid, instance_id := i, tenant_id := t,
        user_id := u, conn_mux := Some (new_mux 0), sock := Some k\<rparr>) (the_hub s) = (a, h1)"
    for i t u k a h1
    by (rule server_inv_open_mcp [OF assms that]) (simp_all add: zero_conn_def)
  with assms show ?thesis
    by (simp add: handle_mcp_connect_def Let_def split: option.split prod.split)
qed

lemma inv_harness_connect:
  assumes "server_inv s" shows "server_inv (fst (handle_harness_connect r ws w uuid now s))"
proof -
  have "server_inv (s\<lparr>the_hub := fst (register_harness v (Some a) now h1),
      harness_sessions := (harness_sessions s)(a \<mapsto> v)\<rparr>)"
    if "alloc_conn (zero_conn\<lparr>conn_id := uuid, worker_id := v, tenant_id := t, user_id := u,
        provider := p, tier := tr, sock := Some k\<rparr>) (the_hub s) = (a, h1)"
    for v t u p tr k a h1
    by (rule server_inv_open_harness [OF assms that]) (simp_all add: zero_conn_def)
  then have "server_inv (s\<lparr>the_hub := h2, harness_sessions := (harness_sessions s)(a \<mapsto> v)\<rparr>)"
    if "alloc_conn (zero_conn\<lparr>conn_id := uuid, worker_id := v, tenant_id := t, user_id := u,
        provider := p, tier := tr, sock := Some k\<rparr>) (the_hub s) = (a, h1)"
      "register_harness v (Some a) now h1 = (h2, ev)"
    for v t u p tr k a h1 h2 ev
    using that by (metis fst_conv)
  with assms show ?thesis
    by (simp add: handle_harness_connect_def Let_def split: option.split prod.split)
qed

lemma inv_touch:
  "server_inv s \<Longrightarrow> server_inv (s\<lparr>the_hub := touch (Some a) now (the_hub s)\<rparr>)"
  by (rule server_inv_hub) (simp_all add: hub_wf_touch server_invD)

lemma inv_dispatch_mcp:
  assumes "server_inv s" "a < next_conn (the_hub s)"
  shows "server_inv (fst (dispatch_mcp_inbound a msg s)) \<and>
    (\<forall>e. Panic e \<notin> set (snd (dispatch_mcp_inbound a msg s)))"
proof (cases "decode_mcp_frame msg")
  case None
  then show ?thesis using assms by (simp add: dispatch_mcp_inbound_def)
next
  case (Some f)
  show ?thesis
  proof (cases "conn_mux (heap (the_hub s) a)")
    case None
    then show ?thesis using assms Some by (simp add: dispatch_mcp_inbound_def)
  next
    case m: (Some m)
    have ok: "mux_ok m" using server_invD(1) [OF assms(1)] m by (auto simp: hub_wf_def)
    obtain m' where c: "mux_complete (mf_id f) (mf_body f) m
        = Some (pending m (mf_id f) \<noteq> None, m')" "mux_ok m'"
      using mux_complete_ok [OF ok] by blast
    have w: "waiter_ok m' (insert (a, mf_id f, mf_body f) (answers s)) a rid ch"
      if "(a, rid, ch) \<in> set (waiters s)" for rid ch
      using waiter_ok_complete [OF ok _ c(1)] waiter_mux(2) [OF assms(1) that] m
      by (simp add: mux_of_def)
    have "server_inv (s\<lparr>the_hub := set_mux a m' (the_hub s), waiters := waiters s,
        answers := insert (a, mf_id f, mf_body f) (answers s)\<rparr>)"
      by (rule server_inv_set_mux [OF assms(1) c(2) _ assms(2)]) (auto intro: w)
    then show ?thesis using assms Some m c(1)
      by (simp add: dispatch_mcp_inbound_def)
  qed
qed

lemma inv_mcp_frame:
  assumes "server_inv s"
  shows "server_inv (fst (handle_mcp_frame a msg now s)) \<and>
    (\<forall>e. Panic e \<notin> set (snd (handle_mcp_frame a msg now s)))"
proof (cases "mcp_sessions s a")
  case None
  then show ?thesis using assms by (simp add: handle_mcp_frame_def)
next
  case (Some x)
  then have "a < next_conn (the_hub s)"
    using server_invD(2) [OF assms] by (cases x) (fastforce simp: sessions_ok_def)
  with inv_dispatch_mcp [OF inv_touch [OF assms]] Some show ?thesis
    by (simp add: handle_mcp_frame_def)
qed

lemma inv_mcp_close:
  assumes "server_inv s" shows "server_inv (fst (handle_mcp_close a s))"
proof (cases "mcp_sessions s a")
  case None
  then show ?thesis using assms by (simp add: handle_mcp_close_def)
next
  case (Some x)
  obtain i t where x: "x = (i, t)" by (cases x)
  let ?t = "s\<lparr>the_hub := unregister_mcp i (the_hub s), mcp_sessions := (mcp_sessions s)(a := None)\<rparr>"
  have "server_inv ?t"
  proof (rule server_invI)
    show "hub_wf (the_hub ?t)" using server_invD(1) [OF assms] by (simp add: hub_wf_unregister_mcp)
    show "sessions_ok ?t"
      using server_invD(2) [OF assms] Some x by (fastforce simp: sessions_ok_def)
    show "waiters_ok ?t"
      by (rule waiters_ok_frame [OF server_invD(3) [OF assms]]) simp_all
  qed
  then show ?thesis using Some x by (simp add: handle_mcp_close_def)
qed

lemma inv_harness_close:
  assumes "server_inv s" shows "server_inv (fst (handle_harness_close a s))"
proof (cases "harness_sessions s a")
  case None
  then show ?thesis using assms by (simp add: handle_harness_close_def)
next
  case (Some w)
  let ?t = "s\<lparr>the_hub := unregister_harness w (the_hub s),
              harness_sessions := (harness_sessions s)(a := None)\<rparr>"
  have "server_inv ?t"
  proof (rule server_invI)
    show "hub_wf (the_hub ?t)"
      using server_invD(1) [OF assms] by (simp add: hub_wf_unregister_harness)
    show "sessions_ok ?t"
      using server_invD(2) [OF assms] Some by (fastforce simp: sessions_ok_def)
    show "waiters_ok ?t"
      by (rule waiters_ok_frame [OF server_invD(3) [OF assms]]) simp_all
  qed
  then show ?thesis using Some by (simp add: handle_harness_close_def)
qed

lemma inv_dispatch_harness:
  assumes "server_inv s" shows "server_inv (fst (dispatch_harness_inbound fl a msg s))"
proof -
  have "server_inv (s\<lparr>the_hub := update_harness_capabilities w t p m (the_hub s)\<rparr>)"
    "server_inv (s\<lparr>the_hub := inc_harness_active_jobs w d (the_hub s)\<rparr>)" for w t p m d
    by (rule server_inv_hub [OF assms]; simp add: hub_wf_intros server_invD(1) [OF assms])+
  with assms show ?thesis
    by (simp add: dispatch_harness_inbound_def Let_def split: option.split)
qed

lemma inv_harness_frame:
  "server_inv s \<Longrightarrow> server_inv (fst (handle_harness_frame fl a msg now s))"
  by (simp add: handle_harness_frame_def inv_dispatch_harness inv_touch split: option.split)

lemma inv_heartbeat:
  assumes "server_inv s" shows "server_inv (fst (heartbeat om oh pm ph now s))"
proof -
  obtain h' x y where h: "sweep_stale om oh now (the_hub s) = (h', x, y)"
    by (metis prod_cases3)
  have "server_inv (s\<lparr>the_hub := h'\<rparr>)"
  proof (rule server_inv_hub [OF assms])
    show "hub_wf h'" using hub_wf_sweep [OF server_invD(1) [OF assms], of om oh now] h by simp
  qed (use h in \<open>auto simp: sweep_stale_def Let_def map_le_def split: if_splits\<close>)
  then show ?thesis by (simp add: heartbeat_def h Let_def)
qed


text \<open>A forward up to its wait: the four ways it can end there.\<close>

lemma get_mcp_alloc: "server_inv s \<Longrightarrow> get_mcp (the_hub s) i = Some a \<Longrightarrow> a < next_conn (the_hub s)"
  using server_invD(1) [of s] by (auto simp: hub_wf_def get_mcp_def)

lemma inv_forward_begin:
  assumes "server_inv s"
  shows "server_inv (fst (forward_begin r b rid sent s)) \<and>
    (\<forall>e. Panic e \<notin> set (snd (forward_begin r b rid sent s)))"
proof (cases "get_mcp (the_hub s) (instance_id_of_path (r_path r))")
  case None
  then show ?thesis using assms by (simp add: forward_begin_def http_error_def Let_def)
next
  case (Some a)
  let ?m = "mux_of (the_hub s) a"
  obtain ch1 m1 where reg: "mux_register rid ?m = (ch1, m1)" by (cases "mux_register rid ?m")
  have a: "a < next_conn (the_hub s)" by (rule get_mcp_alloc [OF assms Some])
  have ok: "mux_ok ?m" by (rule mux_of_ok [OF server_invD(1) [OF assms]])
  then have ok1: "mux_ok m1" using mux_ok_register reg by (metis snd_conv)
  obtain m2 where m2: "mux_cancel rid m1 = Some m2" "mux_ok m2"
    using mux_cancel_ok [OF ok1] by blast
  have w1: "waiter_ok m1 (answers s) a r' ch" if "(a, r', ch) \<in> set (waiters s)" for r' ch
    using waiter_ok_register_old [OF waiter_mux(2) [OF assms that], of rid] reg by simp
  have w2: "waiter_ok m1 (answers s) a rid ch1"
    using waiter_ok_register_new [OF ok, of rid] reg by simp
  have "server_inv (s\<lparr>the_hub := set_mux a m1 (the_hub s), waiters := waiters s,
      answers := answers s\<rparr>)"
    by (rule server_inv_set_mux [OF assms ok1 _ a]) (auto intro: w1)
  moreover have "server_inv (s\<lparr>the_hub := set_mux a m2 (the_hub s), waiters := waiters s,
      answers := answers s\<rparr>)"
    by (rule server_inv_set_mux [OF assms m2(2) _ a]) (auto intro: waiter_ok_cancel [OF w1 m2(1)])
  moreover have "server_inv (s\<lparr>the_hub := set_mux a m1 (the_hub s),
      waiters := (a, rid, ch1) # waiters s, answers := answers s\<rparr>)"
    by (rule server_inv_set_mux [OF assms ok1 _ a])
      (auto intro: w1 w2)
  ultimately show ?thesis using assms Some m2(1) reg
    by (simp add: forward_begin_def http_error_def write_json_def send_to_def Let_def
        split: prod.split body_read.split option.split)
qed

lemma inv_forward_end:
  assumes "server_inv s"
  shows "server_inv (fst (forward_end a rid ch timer s)) \<and>
    (\<forall>e. Panic e \<notin> set (snd (forward_end a rid ch timer s)))"
proof (cases "(a, rid, ch) \<in> set (waiters s)")
  case False
  then show ?thesis using assms by (simp add: forward_end_def)
next
  case True
  let ?m = "mux_of (the_hub s) a" and ?ws = "remove1 (a, rid, ch) (waiters s)"
  have a: "a < next_conn (the_hub s)" by (rule waiter_mux(1) [OF assms True])
  have ok: "mux_ok ?m" by (rule mux_of_ok [OF server_invD(1) [OF assms]])
  have sub: "x \<in> set ?ws \<Longrightarrow> x \<in> set (waiters s)" for x
    using set_remove1_subset by fast
  show ?thesis
  proof (cases "mux_wait ch timer ?m")
    case None
    then show ?thesis using assms True by (simp add: forward_end_def)
  next
    case (Some y)
    obtain x m1 where y: "y = (x, m1)" by (cases y)
    have ok1: "mux_ok m1" using mux_wait_mux_ok [OF ok] Some y by blast
    have w1: "waiter_ok m1 (answers s) a r' c" if "(a, r', c) \<in> set ?ws" for r' c
      using waiter_ok_wait [OF waiter_mux(2) [OF assms sub [OF that]]] Some y by blast
    obtain m2 where m2: "mux_cancel rid m1 = Some m2" "mux_ok m2"
      using mux_cancel_ok [OF ok1] by blast
    have "server_inv (s\<lparr>the_hub := set_mux a m1 (the_hub s), waiters := ?ws,
        answers := answers s\<rparr>)"
      by (rule server_inv_set_mux [OF assms ok1 _ a]) (auto intro: w1 sub)
    moreover have "server_inv (s\<lparr>the_hub := set_mux a m2 (the_hub s), waiters := ?ws,
        answers := answers s\<rparr>)"
      by (rule server_inv_set_mux [OF assms m2(2) _ a])
        (auto intro: waiter_ok_cancel [OF w1 m2(1)] sub)
    ultimately show ?thesis using True Some y m2(1)
      by (cases x) (simp_all add: forward_end_def http_error_def)
  qed
qed

lemma inv_harness_run:
  assumes "server_inv s" shows "server_inv (fst (handle_harness_run fl r b ru ju sent s))"
proof -
  have "server_inv (s\<lparr>the_hub := inc_harness_active_jobs w d (the_hub s)\<rparr>)" for w d
    by (rule server_inv_hub [OF assms]; simp add: hub_wf_intros server_invD(1) [OF assms])
  moreover have "s\<lparr>the_hub := inc_harness_active_jobs w (-1)
      (inc_harness_active_jobs w 1 (the_hub s))\<rparr> = s" for w
    using inc_dec_active_jobs [OF server_invD(1) [OF assms]] by simp
  ultimately show ?thesis using assms
    by (simp add: handle_harness_run_def Let_def split: option.split body_read.split)
qed

lemma inv_pick: "server_inv s \<Longrightarrow> server_inv (fst (handle_harness_pick r order s))"
  by (simp add: handle_harness_pick_def Let_def split: option.split)

lemma server_inv_apply: "server_inv s \<Longrightarrow> server_inv (fst (server_apply fl e s))"
  by (cases e) (simp_all add: inv_mcp_connect inv_mcp_frame inv_mcp_close inv_harness_connect
      inv_harness_frame inv_harness_close inv_forward_begin inv_forward_end inv_pick
      inv_harness_run inv_heartbeat)

interpretation relay_system: invariant_system server_init "server_step fl" server_inv for fl
  by unfold_locales (auto simp: server_init_def server_step_def server_inv_new server_inv_apply)

lemma server_inv_run: "server_inv s \<Longrightarrow> server_inv (server_run fl es s)"
  by (induction es arbitrary: s) (simp_all add: server_inv_apply)

lemma run_inv: "server_inv (server_run fl es (new_server cfg))"
  by (rule relay_system.reachable_inv [OF reach_run_new])


subsection \<open>Properties of every run\<close>

text \<open>Requests and frames for the concrete runs below.\<close>

definition demo_request :: "string \<Rightarrow> string \<Rightarrow> (string \<Rightarrow> string) \<Rightarrow> request" where
  "demo_request meth path q =
     \<lparr>r_method = meth, r_path = path,
      r_header = (\<lambda>k. if k = ''Authorization'' then ''Bearer tok'' else ''''), r_query = q\<rparr>"

definition demo_config :: server_config where
  "demo_config = \<lparr>auth_token = ''tok'', public_base_url = '''', orchestrator = None, control = None\<rparr>"

definition demo_query :: "string \<Rightarrow> string \<Rightarrow> string \<Rightarrow> string \<Rightarrow> string" where
  "demo_query i t u k =
     (if k = ''instance_id'' \<or> k = ''worker_id'' then i else if k = ''tenant_id'' then t
      else if k = ''user_id'' then u else if k = ''tier'' then ''heavy'' else '''')"

definition demo_connect :: "string \<Rightarrow> nat \<Rightarrow> server_event" where
  "demo_connect i k =
     EvMCPConnect (demo_request ''GET'' ''/relay/mcp/connect'' (demo_query i ''t'' ''u'')) (Some k) ''c'' 0"

definition demo_worker_connect :: "string \<Rightarrow> string \<Rightarrow> string \<Rightarrow> nat \<Rightarrow> server_event" where
  "demo_worker_connect w t u k =
     EvHarnessConnect (demo_request ''GET'' ''/relay/harness/connect'' (demo_query w t u)) (Some k)
       ''w0'' ''c'' 0"

text \<open>
  C8. The hub lists only live sessions: in every run, an MCP instance or a harness worker the hub lists
  has an open socket whose handler serves exactly that id, and the connection carries the id. An MCP
  connection that is listed has its multiplexer.
\<close>

theorem relay_lists_live_sessions:
  assumes "s = server_run fl es (new_server cfg)"
  shows "(\<forall>i a. get_mcp (the_hub s) i = Some a \<longrightarrow>
      (\<exists>t. mcp_sessions s a = Some (i, t)) \<and> instance_id (heap (the_hub s) a) = i \<and>
      conn_mux (heap (the_hub s) a) \<noteq> None) \<and>
    (\<forall>w a. get_harness (the_hub s) w = Some a \<longrightarrow>
      harness_sessions s a = Some w \<and> worker_id (heap (the_hub s) a) = w)"
  using run_inv [of fl es cfg] assms
  by (simp add: server_inv_def sessions_ok_def hub_wf_def get_mcp_def get_harness_def)

definition demo_two :: server where
  "demo_two = server_run (\<lambda>n. None) [demo_connect ''i'' 7, demo_worker_connect ''w'' ''t'' ''u'' 8]
     (new_server demo_config)"

lemma demo_two_lists: "get_mcp (the_hub demo_two) ''i'' = Some 0" "get_harness (the_hub demo_two) ''w'' = Some 1"
  by code_simp+

theorem relay_lists_live_sessions_witness:
  "(\<exists>t. mcp_sessions demo_two 0 = Some (''i'', t)) \<and> harness_sessions demo_two 1 = Some ''w''"
  using relay_lists_live_sessions [OF demo_two_def] demo_two_lists by blast

lemma notify_no_panic [simp]:
  "Panic e \<notin> set (notify_instance_connected c i t u)"
  "Panic e \<notin> set (notify_instance_disconnected c i t r)"
  "Panic e \<notin> set (notify_worker_online c w t u)"
  "Panic e \<notin> set (notify_run_complete c run st res err)"
  by (simp_all add: notify_instance_connected_def notify_instance_disconnected_def
      notify_worker_online_def notify_run_complete_def cb_post_def Let_def split: option.split)

lemma panic_harness_run:
  "Panic msg \<in> set (snd (handle_harness_run fl r b ru ju sent s)) \<longleftrightarrow>
     msg = ''assignment to entry in nil map'' \<and> r_method r = ''POST'' \<and> worker_id_of_path (r_path r) \<noteq> '''' \<and>
     get_harness (the_hub s) (worker_id_of_path (r_path r)) \<noteq> None \<and> b = ReadBody (Some JNull)"
proof -
  let ?w = "worker_id_of_path (r_path r)"
  have null: "unmarshal_map fl j = Some None \<longleftrightarrow> j = Some JNull" for j
    by (auto simp: unmarshal_map_def split: option.splits json.splits)
  note run = handle_harness_run_def worker_id_of_path_def http_error_def Let_def
  show ?thesis
  proof (cases "r_method r = ''POST'' \<and> ?w \<noteq> '''' \<and> get_harness (the_hub s) ?w \<noteq> None")
    case False
    then show ?thesis by (cases "get_harness (the_hub s) ?w") (simp_all add: run)
  next
    case True
    then obtain a where a: "get_harness (the_hub s) ?w = Some a" by auto
    show ?thesis
    proof (cases b)
      case ReadError
      with True a show ?thesis by (simp add: run)
    next
      case (ReadBody j)
      show ?thesis
      proof (cases "unmarshal_map fl j")
        case None
        with True a ReadBody null [of j] show ?thesis by (simp add: run)
      next
        case (Some x)
        with True a ReadBody null [of j] show ?thesis
          by (cases x) (simp_all add: run send_to_def write_json_def split: option.split)
      qed
    qed
  qed
qed

lemma panic_other:
  assumes "server_inv s"
  shows "Panic e \<notin> set (snd (handle_mcp_connect r ws uuid now s))"
    "Panic e \<notin> set (snd (handle_mcp_close a s))"
    "Panic e \<notin> set (snd (handle_harness_connect r ws w uuid now s))"
    "Panic e \<notin> set (snd (handle_harness_frame fl a msg now s))"
    "Panic e \<notin> set (snd (handle_harness_close a s))"
    "Panic e \<notin> set (snd (handle_harness_pick r order s))"
    "Panic e \<notin> set (snd (heartbeat om oh pm ph now s))"
  by (auto simp: handle_mcp_connect_def handle_mcp_close_def handle_harness_connect_def
      handle_harness_frame_def dispatch_harness_inbound_def handle_harness_close_def
      handle_harness_pick_def heartbeat_def on_mcp_offline_def http_error_def write_json_def Let_def
      split: option.splits prod.splits)

text \<open>
  C7. What the handlers' own statements can panic on, as long as no two of them write to one socket at the
  same time. In every run of whole handler parts, where a write to a socket is one step that ends before
  the next event begins, exactly one situation panics: a job is posted to a connected worker with the JSON
  body \<open>null\<close>, which decodes into a nil map that the handler then assigns to. No other request, frame,
  disconnect, timeout or order of them does; in particular no channel of a multiplexer is closed twice or
  sent on when closed. The code itself does not keep writes apart: \<open>Send\<close> calls \<open>ws.WriteMessage\<close> without a
  lock from every forward, job and heartbeat, and the websocket library panics when it sees two writers at
  once. That panic is outside of this model, and this theorem does not exclude it.
\<close>

theorem relay_panics_exactly:
  "Panic msg \<in> set (snd (server_apply fl e (server_run fl es (new_server cfg)))) \<longleftrightarrow>
     msg = ''assignment to entry in nil map'' \<and>
     (\<exists>r ru ju sent. e = EvRun r (ReadBody (Some JNull)) ru ju sent \<and> r_method r = ''POST'' \<and>
        worker_id_of_path (r_path r) \<noteq> '''' \<and>
        get_harness (the_hub (server_run fl es (new_server cfg))) (worker_id_of_path (r_path r))
          \<noteq> None)"
proof -
  note inv = run_inv [of fl es cfg]
  show ?thesis
    using inv_mcp_frame [OF inv] inv_forward_begin [OF inv] inv_forward_end [OF inv]
    by (cases e) (auto simp: panic_other [OF inv] panic_harness_run simp del: not_None_eq)
qed

subsection \<open>Answers\<close>

text \<open>Every answer on record was in a frame that arrived on that connection.\<close>

lemma answers_step:
  "(a, rid, b) \<in> answers (fst (server_apply fl e s)) \<Longrightarrow> (a, rid, b) \<notin> answers s \<Longrightarrow>
     \<exists>msg now f. e = EvMCPFrame a msg now \<and> decode_mcp_frame msg = Some f \<and>
       mf_type f = ''mcp_response'' \<and> mf_id f = rid \<and> mf_body f = b"
proof (cases e)
  case (EvMCPFrame c msg now)
  assume "(a, rid, b) \<in> answers (fst (server_apply fl e s))" "(a, rid, b) \<notin> answers s"
  then show ?thesis unfolding EvMCPFrame
    by (auto simp: handle_mcp_frame_def dispatch_mcp_inbound_def
        split: option.splits if_splits prod.splits)
qed (auto simp: handle_mcp_connect_def handle_mcp_close_def handle_harness_connect_def
      handle_harness_frame_def dispatch_harness_inbound_def handle_harness_close_def
      handle_harness_pick_def heartbeat_def forward_begin_def forward_end_def handle_harness_run_def
      Let_def split: option.splits prod.splits if_splits body_read.splits)

lemma answers_run:
  "(a, rid, b) \<in> answers (server_run fl es s) \<Longrightarrow> (a, rid, b) \<in> answers s \<or>
     (\<exists>msg now f. EvMCPFrame a msg now \<in> set es \<and> decode_mcp_frame msg = Some f \<and>
       mf_type f = ''mcp_response'' \<and> mf_id f = rid \<and> mf_body f = b)"
proof (induction es arbitrary: s)
  case (Cons e es)
  let ?s = "fst (server_apply fl e s)"
  have "(a, rid, b) \<in> answers ?s \<or>
     (\<exists>msg now f. EvMCPFrame a msg now \<in> set es \<and> decode_mcp_frame msg = Some f \<and>
       mf_type f = ''mcp_response'' \<and> mf_id f = rid \<and> mf_body f = b)"
    using Cons.IH [of ?s] Cons.prems by simp
  then show ?case using answers_step [of a rid b fl e s] by fastforce
qed simp

text \<open>
  C2. A forwarded request is never answered with another request's response. In every run, when a
  waiting forward returns status 200, the body it returns came in an \<open>mcp_response\<close> frame with its own
  request id, on the connection it was forwarded on.
\<close>

theorem forward_answer_correlates:
  assumes "s = server_run fl es (new_server cfg)"
    and "snd (forward_end a rid ch timer s) = [Respond 200 (RawBody body)]"
  shows "\<exists>msg now f. EvMCPFrame a msg now \<in> set es \<and> decode_mcp_frame msg = Some f \<and>
    mf_type f = ''mcp_response'' \<and> mf_id f = rid \<and> mf_body f = body"
proof -
  have inv: "server_inv s" using run_inv assms(1) by simp
  have w: "(a, rid, ch) \<in> set (waiters s)"
    using assms(2) by (auto simp: forward_end_def split: if_splits)
  obtain m1 where "mux_wait ch timer (mux_of (the_hub s) a) = Some (Some body, m1)"
    using assms(2) w by (auto simp: forward_end_def http_error_def split: option.splits)
  then have "buf (chans (mux_of (the_hub s) a) ch) = Some body" by (rule mux_wait_body)
  then have "(a, rid, body) \<in> answers s"
    using waiter_mux(2) [OF inv w] by (simp add: waiter_ok_def)
  moreover have "answers (new_server cfg) = {}" by (simp add: new_server_def)
  ultimately show ?thesis using answers_run [of a rid body fl es "new_server cfg"] assms(1) by auto
qed

definition demo_response :: "string \<Rightarrow> json \<Rightarrow> json option" where
  "demo_response rid b =
     Some (JObj [(''type'', JStr ''mcp_response''), (''id'', JStr rid), (''body'', b)])"

definition demo_forward :: "string \<Rightarrow> string \<Rightarrow> bool \<Rightarrow> server_event" where
  "demo_forward i rid sent =
     EvForward (demo_request ''POST'' (mcp_instance_prefix @ i) (\<lambda>_. ''''))
       (ReadBody (Some (JNum ''1''))) rid sent"

definition demo_events :: "server_event list" where
  "demo_events =
     [demo_connect ''i'' 7, demo_forward ''i'' ''r1'' True, demo_forward ''i'' ''r2'' True,
      EvMCPFrame 0 (demo_response ''r2'' (JStr ''two'')) 1,
      EvMCPFrame 0 (demo_response ''r1'' (JStr ''one'')) 1]"

theorem forward_answer_correlates_witness:
  "\<exists>msg now f. EvMCPFrame 0 msg now \<in> set demo_events \<and> decode_mcp_frame msg = Some f \<and>
     mf_type f = ''mcp_response'' \<and> mf_id f = ''r1'' \<and> mf_body f = Some (JStr ''one'')"
proof (rule forward_answer_correlates)
  show "snd (forward_end 0 ''r1'' 0 False (server_run (\<lambda>n. None) demo_events (new_server demo_config)))
      = [Respond 200 (RawBody (Some (JStr ''one'')))]"
    by code_simp
qed (rule refl)

subsection \<open>What leaves a waiting forward alone\<close>

text \<open>Most events touch no multiplexer of a connection that is there.\<close>

definition moves_no_channel :: "server_event \<Rightarrow> bool" where
  "moves_no_channel e \<longleftrightarrow>
     (case e of EvMCPFrame _ _ _ \<Rightarrow> False | EvForward _ _ _ _ \<Rightarrow> False | EvForwardEnd _ _ _ _ \<Rightarrow> False | _ \<Rightarrow> True)"

lemma mux_of_cong: "conn_mux (heap h a) = conn_mux (heap h' a) \<Longrightarrow> mux_of h a = mux_of h' a"
  by (simp add: mux_of_def)

lemma moves_no_channel_step:
  assumes "server_inv s" "moves_no_channel e" "a < next_conn (the_hub s)"
  shows "mux_of (the_hub (fst (server_apply fl e s))) a = mux_of (the_hub s) a \<and>
    waiters (fst (server_apply fl e s)) = waiters s \<and>
    (mcp_sessions s a \<noteq> None \<longrightarrow> e \<noteq> EvMCPClose a \<longrightarrow> mcp_sessions (fst (server_apply fl e s)) a \<noteq> None)"
proof -
  have "conn_mux (heap (the_hub (fst (server_apply fl e s))) a) = conn_mux (heap (the_hub s) a) \<and>
    waiters (fst (server_apply fl e s)) = waiters s \<and>
    (mcp_sessions s a \<noteq> None \<longrightarrow> e \<noteq> EvMCPClose a \<longrightarrow> mcp_sessions (fst (server_apply fl e s)) a \<noteq> None)"
  proof (cases e)
    case (EvMCPConnect r ws uuid now)
    with assms(3) show ?thesis
      by (auto simp: handle_mcp_connect_def alloc_conn_def register_mcp_conn_mux Let_def split: option.split)
  next
    case (EvHarnessConnect r ws w uuid now)
    have "conn_mux (heap h' b) = conn_mux (heap h b)" if "register_harness v (Some c) now h = (h', ev)" for v c h h' ev b
      using that register_harness_conn_mux by (metis fst_conv)
    with EvHarnessConnect assms(3) show ?thesis
      by (auto simp: handle_harness_connect_def alloc_conn_def Let_def split: option.splits prod.splits)
  next
    case (EvHeartbeat om oh pm ph now)
    then show ?thesis by (simp add: heartbeat_def sweep_stale_def Let_def)
  qed (use assms(2) in \<open>auto simp: moves_no_channel_def handle_mcp_close_def
      handle_harness_frame_def dispatch_harness_inbound_def handle_harness_close_def
      handle_harness_pick_def handle_harness_run_def
      Let_def split: option.splits prod.splits if_splits body_read.splits\<close>)
  then show ?thesis using mux_of_cong by blast
qed

text \<open>What a forward relies on while it waits, and once its answer is in the channel.\<close>

definition awaits :: "nat \<Rightarrow> string \<Rightarrow> nat \<Rightarrow> server \<Rightarrow> bool" where
  "awaits a rid ch s \<longleftrightarrow>
     (a, rid, ch) \<in> set (waiters s) \<and> mcp_sessions s a \<noteq> None \<and> pending (mux_of (the_hub s) a) rid = Some ch"

definition holds_answer :: "nat \<Rightarrow> json option \<Rightarrow> json option mux \<Rightarrow> bool" where
  "holds_answer ch b m \<longleftrightarrow> buf (chans m ch) = Some b \<and> ch \<notin> ran (pending m) \<and> ch < next_chan m"

lemma pending_kept:
  "rid' \<noteq> rid \<Longrightarrow> pending (snd (mux_register rid' m)) rid = pending m rid"
  "rid' \<noteq> rid \<Longrightarrow> mux_cancel rid' m = Some m' \<Longrightarrow> pending m' rid = pending m rid"
  "rid' \<noteq> rid \<Longrightarrow> mux_complete rid' body m = Some (z, m') \<Longrightarrow> pending m' rid = pending m rid"
  "mux_wait ch timer m = Some (x, m') \<Longrightarrow> pending m' rid = pending m rid"
  "mux_wait ch timer m = Some (x, m1) \<Longrightarrow> mux_cancel rid' m1 = Some m' \<Longrightarrow> rid' \<noteq> rid \<Longrightarrow> pending m' rid = pending m rid"
  by (auto simp: mux_defs split: option.splits if_splits)

lemma answer_kept:
  "holds_answer ch b m \<Longrightarrow> holds_answer ch b (snd (mux_register rid' m))"
  "holds_answer ch b m \<Longrightarrow> mux_cancel rid' m = Some m' \<Longrightarrow> holds_answer ch b m'"
  "holds_answer ch b m \<Longrightarrow> mux_complete rid' body m = Some (z, m') \<Longrightarrow> holds_answer ch b m'"
  "holds_answer ch b m \<Longrightarrow> mux_wait ch' timer m = Some (x, m') \<Longrightarrow> ch' \<noteq> ch \<Longrightarrow> holds_answer ch b m'"
  by (auto simp: holds_answer_def mux_defs ran_def split: option.splits if_splits)

text \<open>How the three events that use a multiplexer move the one of connection \<open>a\<close>.\<close>

lemma forward_begin_mux:
  fixes s :: server and a a' ch' :: nat and r :: request and b :: body_read and rid' :: string and sent timer :: bool and msg :: "json option" and now :: time
  defines "m \<equiv> mux_of (the_hub s) a" and "s' \<equiv> fst (forward_begin r b rid' sent s)"
  shows "set (waiters s) \<subseteq> set (waiters s') \<and> mcp_sessions s' = mcp_sessions s \<and>
    (mux_of (the_hub s') a = m \<or> mux_of (the_hub s') a = snd (mux_register rid' m) \<or>
     mux_cancel rid' (snd (mux_register rid' m)) = Some (mux_of (the_hub s') a))"
  unfolding s'_def m_def
  by (auto simp: forward_begin_def http_error_def write_json_def Let_def
      split: prod.splits body_read.splits option.splits)

lemma forward_end_mux:
  fixes s :: server and a a' ch' :: nat and r :: request and b :: body_read and rid' :: string and sent timer :: bool and msg :: "json option" and now :: time
  defines "m \<equiv> mux_of (the_hub s) a" and "s' \<equiv> fst (forward_end a' rid' ch' timer s)"
  shows "set (waiters s) - {(a', rid', ch')} \<subseteq> set (waiters s') \<and> mcp_sessions s' = mcp_sessions s \<and>
    (mux_of (the_hub s') a = m \<or>
     a' = a \<and> (\<exists>x m1. mux_wait ch' timer m = Some (x, m1) \<and>
       (mux_of (the_hub s') a = m1 \<or> mux_cancel rid' m1 = Some (mux_of (the_hub s') a))))"
proof -
  have "set ws - {x} \<subseteq> set (remove1 x ws)" for x and ws :: "(nat \<times> string \<times> nat) list"
    by (metis DiffE in_set_remove1 insertI1 subsetI)
  then show ?thesis
    unfolding s'_def m_def by (auto simp: forward_end_def http_error_def split: option.splits)
qed

lemma mcp_frame_mux:
  fixes s :: server and a a' ch' :: nat and r :: request and b :: body_read and rid' :: string and sent timer :: bool and msg :: "json option" and now :: time
  defines "m \<equiv> mux_of (the_hub s) a" and "s' \<equiv> fst (handle_mcp_frame a' msg now s)"
  shows "waiters s' = waiters s \<and> mcp_sessions s' = mcp_sessions s \<and>
    (mux_of (the_hub s') a = m \<or>
     a' = a \<and> (\<exists>f z. decode_mcp_frame msg = Some f \<and> mf_type f = ''mcp_response'' \<and>
       mux_complete (mf_id f) (mf_body f) m = Some (z, mux_of (the_hub s') a)))"
  unfolding s'_def m_def
  by (auto simp: handle_mcp_frame_def dispatch_mcp_inbound_def mux_of_def
      split: option.splits if_splits prod.splits)

text \<open>Events that neither answer nor end the forward, and do not close its session.\<close>

definition forward_undisturbed :: "nat \<Rightarrow> string \<Rightarrow> nat \<Rightarrow> server_event \<Rightarrow> bool" where
  "forward_undisturbed a rid ch e \<longleftrightarrow>
     (case e of
        EvMCPFrame a' msg now \<Rightarrow> a' = a \<longrightarrow>
          (case decode_mcp_frame msg of None \<Rightarrow> True | Some f \<Rightarrow> mf_type f = ''mcp_response'' \<longrightarrow> mf_id f \<noteq> rid)
      | EvMCPClose a' \<Rightarrow> a' \<noteq> a
      | EvForward r b rid' sent \<Rightarrow> rid' \<noteq> rid
      | EvForwardEnd a' rid' ch' timer \<Rightarrow> a' = a \<longrightarrow> rid' \<noteq> rid \<and> ch' \<noteq> ch
      | _ \<Rightarrow> True)"

definition ends_forward :: "nat \<Rightarrow> nat \<Rightarrow> server_event \<Rightarrow> bool" where
  "ends_forward a ch e \<longleftrightarrow> (case e of EvForwardEnd a' rid' ch' timer \<Rightarrow> a' = a \<and> ch' = ch | _ \<Rightarrow> False)"

lemma awaits_step:
  assumes "server_inv s" "awaits a rid ch s" "forward_undisturbed a rid ch e"
  shows "awaits a rid ch (fst (server_apply fl e s))"
proof -
  have w: "(a, rid, ch) \<in> set (waiters s)" using assms(2) by (simp add: awaits_def)
  show ?thesis
  proof (cases "moves_no_channel e")
    case True
    have "e \<noteq> EvMCPClose a" using assms(3) by (auto simp: forward_undisturbed_def)
    with moves_no_channel_step [OF assms(1) True waiter_mux(1) [OF assms(1) w], of fl] assms(2)
    show ?thesis by (simp add: awaits_def)
  next
    case False
    then consider (frame) c msg now where "e = EvMCPFrame c msg now" | (start) r b rid' sent where "e = EvForward r b rid' sent"
      | (finish) c rid' ch' timer where "e = EvForwardEnd c rid' ch' timer"
      by (cases e) (simp_all add: moves_no_channel_def)
    then show ?thesis
    proof cases
      case (frame c msg now)
      from mcp_frame_mux [where s = s and a = a and a' = c and msg = msg and now = now] assms(2,3) show ?thesis
        unfolding frame by (auto simp: awaits_def forward_undisturbed_def dest: pending_kept(3) [rotated])
    next
      case (start r b rid' sent)
      with assms(3) have ne: "rid' \<noteq> rid" by (simp add: forward_undisturbed_def)
      have "pending (mux_of (the_hub (fst (forward_begin r b rid' sent s))) a) rid = pending (mux_of (the_hub s) a) rid"
        using forward_begin_mux [where s = s and a = a and r = r and b = b and rid' = rid' and sent = sent]
        by (auto simp: pending_kept(1) [OF ne] dest: pending_kept(2) [OF ne])
      with forward_begin_mux [where s = s and a = a and r = r and b = b and rid' = rid' and sent = sent] assms(2) show ?thesis
        unfolding start by (auto simp: awaits_def)
    next
      case (finish c rid' ch' timer)
      have "pending (mux_of (the_hub (fst (forward_end c rid' ch' timer s))) a) rid = pending (mux_of (the_hub s) a) rid"
        using forward_end_mux [where s = s and a = a and a' = c and rid' = rid' and ch' = ch' and timer = timer] assms(3)
        unfolding finish forward_undisturbed_def
        by (auto intro: pending_kept(4,5))
      moreover have "(a, rid, ch) \<noteq> (c, rid', ch')" using assms(3) by (auto simp: finish forward_undisturbed_def)
      ultimately show ?thesis using forward_end_mux [where s = s and a = a and a' = c and rid' = rid' and ch' = ch' and timer = timer] assms(2)
        unfolding finish by (auto simp: awaits_def)
    qed
  qed
qed

lemma answer_step:
  assumes "server_inv s" "(a, rid, ch) \<in> set (waiters s)" "holds_answer ch b (mux_of (the_hub s) a)"
    and "\<not> ends_forward a ch e"
  shows "(a, rid, ch) \<in> set (waiters (fst (server_apply fl e s))) \<and>
    holds_answer ch b (mux_of (the_hub (fst (server_apply fl e s))) a)"
proof (cases "moves_no_channel e")
  case True
  with moves_no_channel_step [OF assms(1) True waiter_mux(1) [OF assms(1,2)], of fl] assms(2,3)
  show ?thesis by simp
next
  case False
  then consider (frame) c msg now where "e = EvMCPFrame c msg now" | (start) r body rid' sent where "e = EvForward r body rid' sent"
    | (finish) c rid' ch' timer where "e = EvForwardEnd c rid' ch' timer"
    by (cases e) (simp_all add: moves_no_channel_def)
  then show ?thesis
  proof cases
    case (frame c msg now)
    with mcp_frame_mux [where s = s and a = a and a' = c and msg = msg and now = now] assms(2,3) answer_kept(3) show ?thesis by auto
  next
    case (start r body rid' sent)
    have "holds_answer ch b (mux_of (the_hub (fst (forward_begin r body rid' sent s))) a)"
      using forward_begin_mux [where s = s and a = a and r = r and b = body and rid' = rid' and sent = sent] answer_kept(1) [OF assms(3)] assms(3)
      by (auto dest: answer_kept(2) [rotated])
    with forward_begin_mux [where s = s and a = a and r = r and b = body and rid' = rid' and sent = sent] assms(2) show ?thesis unfolding start by auto
  next
    case (finish c rid' ch' timer)
    have ne: "c = a \<Longrightarrow> ch' \<noteq> ch" using assms(4) by (auto simp: finish ends_forward_def)
    have "holds_answer ch b (mux_of (the_hub (fst (forward_end c rid' ch' timer s))) a)"
      using forward_end_mux [where s = s and a = a and a' = c and rid' = rid' and ch' = ch' and timer = timer] answer_kept(2,4) assms(3) ne by metis
    moreover have "(a, rid, ch) \<noteq> (c, rid', ch')" using ne by auto
    ultimately show ?thesis using forward_end_mux [where s = s and a = a and a' = c and rid' = rid' and ch' = ch' and timer = timer] assms(2)
      unfolding finish by auto
  qed
qed

lemma awaits_run:
  "server_inv s \<Longrightarrow> awaits a rid ch s \<Longrightarrow> \<forall>e \<in> set es. forward_undisturbed a rid ch e \<Longrightarrow>
     awaits a rid ch (server_run fl es s)"
  by (induction es arbitrary: s) (simp_all add: awaits_step server_inv_apply)

lemma answer_run:
  "server_inv s \<Longrightarrow> (a, rid, ch) \<in> set (waiters s) \<Longrightarrow> holds_answer ch b (mux_of (the_hub s) a) \<Longrightarrow>
     \<forall>e \<in> set es. \<not> ends_forward a ch e \<Longrightarrow>
     (a, rid, ch) \<in> set (waiters (server_run fl es s)) \<and> holds_answer ch b (mux_of (the_hub (server_run fl es s)) a)"
proof (induction es arbitrary: s)
  case (Cons e es)
  with answer_step [OF Cons.prems(1-3), of e fl] server_inv_apply show ?case by simp
qed simp

lemma answered_frame:
  assumes "server_inv s" "awaits a rid ch s" "rid \<noteq> ''''"
    and "decode_mcp_frame msg = Some \<lparr>mf_type = ''mcp_response'', mf_id = rid, mf_body = b, mf_status = st\<rparr>"
  obtains s' where "handle_mcp_frame a msg now s = (s', [])" "pending (mux_of (the_hub s') a) rid = None"
    "(a, rid, ch) \<in> set (waiters s')" "holds_answer ch b (mux_of (the_hub s') a)"
proof -
  let ?m = "mux_of (the_hub s) a"
  have w: "(a, rid, ch) \<in> set (waiters s)" and p: "pending ?m rid = Some ch"
    using assms(2) by (simp_all add: awaits_def)
  have ok: "mux_ok ?m" using mux_of_ok [OF server_invD(1) [OF assms(1)]] .
  obtain m' where m': "mux_complete rid b ?m = Some (True, m')" "mux_ok m'" "pending m' = (pending ?m)(rid := None)"
      "chans m' ch = \<lparr>buf = Some b, closed = True\<rparr>"
    by (rule mux_complete_ok [OF ok, of rid b]) (use p in auto)
  obtain m where c: "conn_mux (heap (the_hub s) a) = Some m"
    using server_invD(3) [OF assms(1)] w by (fastforce simp: waiters_ok_def)
  then have m: "?m = m" by (simp add: mux_of_def)
  let ?s' = "s\<lparr>the_hub := set_mux a m' (touch (Some a) now (the_hub s)), answers := insert (a, rid, b) (answers s)\<rparr>"
  have "\<exists>x. mcp_sessions s a = Some x" using assms(2) by (auto simp: awaits_def)
  then have f: "handle_mcp_frame a msg now s = (?s', [])"
    using assms(3,4) m'(1) c unfolding m by (auto simp: handle_mcp_frame_def dispatch_mcp_inbound_def)
  have "ch \<notin> ran (pending m')" using m'(2,4) by (auto simp: mux_ok_def ran_def open_chan_def)
  moreover have "next_chan m' = next_chan ?m"
    using m'(1) by (auto simp: mux_defs split: option.splits if_splits)
  ultimately have "holds_answer ch b m'"
    using m'(4) waiter_mux(2) [OF assms(1) w] by (simp add: holds_answer_def waiter_ok_def)
  with that [OF f] w m'(3) show ?thesis by simp
qed

lemma answered_end:
  "(a, rid, ch) \<in> set (waiters s) \<Longrightarrow> holds_answer ch b (mux_of (the_hub s) a) \<Longrightarrow>
     snd (forward_end a rid ch False s) = [Respond 200 (RawBody b)]"
  by (simp add: forward_end_def holds_answer_def mux_wait_def chan_recv_def)

lemma begun_awaits:
  assumes "server_inv s" "get_mcp (the_hub s) (instance_id_of_path (r_path r)) = Some a"
    and "r_method r = ''POST''" "\<not> is_async r" "instance_id_of_path (r_path r) \<noteq> ''''"
  obtains ch s1 where
    "forward_begin r (ReadBody (Some j)) rid True s =
      (s1, send_to (the_hub s) a
             (FMCPRequest rid j (r_header r ''Authorization'') (instance_id_of_path (r_path r))))"
    "awaits a rid ch s1"
proof -
  let ?m = "mux_of (the_hub s) a" and ?i = "instance_id_of_path (r_path r)"
  obtain ch m1 where reg: "mux_register rid ?m = (ch, m1)" by (cases "mux_register rid ?m")
  let ?s1 = "s\<lparr>the_hub := set_mux a m1 (the_hub s), waiters := (a, rid, ch) # waiters s\<rparr>"
  have f: "forward_begin r (ReadBody (Some j)) rid True s =
      (?s1, send_to (the_hub s) a (FMCPRequest rid j (r_header r ''Authorization'') ?i))"
    using assms reg by (simp add: forward_begin_def request_frame_def Let_def)
  have "pending m1 rid = Some ch" using reg by (auto simp: mux_register_def Let_def)
  moreover have "mcp_sessions s a \<noteq> None"
    using server_invD(2) [OF assms(1)] assms(2) unfolding sessions_ok_def get_mcp_def by (metis option.distinct(1))
  ultimately have "awaits a rid ch ?s1" by (simp add: awaits_def)
  with that f show ?thesis by blast
qed

text \<open>
  C9. A forward to a connected instance is delivered and answered. Let a synchronous POST with a valid JSON
  body arrive for an instance the hub lists, and let the write of its frame succeed. The frame carries the
  body, the caller's authorization and the instance id. Whatever happens then, the forward is undisturbed as
  long as the session is open, no reply with its id has come on it, its own wait does not end and its
  fresh id is not used again: other requests, replies, connects, disconnects and heartbeats are of no
  account, even one that takes the instance off the hub. When the instance then replies with the request's
  id, the id is no longer pending, and whatever happens after that, even the end of the session, the
  waiting forward returns status 200 with the body of the reply when it next looks at its channel. What it
  returns when its timer fires first is not part of this.
\<close>

theorem forward_delivers:
  assumes "s = server_run fl es (new_server cfg)" "get_mcp (the_hub s) (instance_id_of_path (r_path r)) = Some a"
    and "r_method r = ''POST''" "\<not> is_async r" "rid \<noteq> ''''" "instance_id_of_path (r_path r) \<noteq> ''''"
    and "decode_mcp_frame msg = Some \<lparr>mf_type = ''mcp_response'', mf_id = rid, mf_body = b, mf_status = st\<rparr>"
  shows "\<exists>ch s1.
    forward_begin r (ReadBody (Some j)) rid True s =
      (s1, send_to (the_hub s) a
             (FMCPRequest rid j (r_header r ''Authorization'') (instance_id_of_path (r_path r)))) \<and>
    (a, rid, ch) \<in> set (waiters s1) \<and>
    (\<forall>es1 es2. (\<forall>e \<in> set es1. forward_undisturbed a rid ch e) \<longrightarrow> (\<forall>e \<in> set es2. \<not> ends_forward a ch e) \<longrightarrow>
       (\<exists>s2. handle_mcp_frame a msg now (server_run fl es1 s1) = (s2, []) \<and>
          pending (mux_of (the_hub s2) a) rid = None \<and>
          snd (forward_end a rid ch False (server_run fl es2 s2)) = [Respond 200 (RawBody b)]))"
proof -
  have inv: "server_inv s" using run_inv assms(1) by simp
  obtain ch s1 where f: "forward_begin r (ReadBody (Some j)) rid True s =
      (s1, send_to (the_hub s) a (FMCPRequest rid j (r_header r ''Authorization'') (instance_id_of_path (r_path r))))"
    and w: "awaits a rid ch s1"
    by (rule begun_awaits [OF inv assms(2-4,6)])
  have inv1: "server_inv s1" using inv_forward_begin [OF inv] f by (metis fst_conv)
  have "\<exists>s2. handle_mcp_frame a msg now (server_run fl es1 s1) = (s2, []) \<and>
          pending (mux_of (the_hub s2) a) rid = None \<and>
          snd (forward_end a rid ch False (server_run fl es2 s2)) = [Respond 200 (RawBody b)]"
    if e: "\<forall>e \<in> set es1. forward_undisturbed a rid ch e" "\<forall>e \<in> set es2. \<not> ends_forward a ch e" for es1 es2
  proof -
    let ?t = "server_run fl es1 s1"
    have invt: "server_inv ?t" by (rule server_inv_run [OF inv1])
    obtain s2 where s2: "handle_mcp_frame a msg now ?t = (s2, [])" "pending (mux_of (the_hub s2) a) rid = None"
        "(a, rid, ch) \<in> set (waiters s2)" "holds_answer ch b (mux_of (the_hub s2) a)"
      by (rule answered_frame [OF invt awaits_run [OF inv1 w e(1)] assms(5,7)])
    have "server_inv s2" using inv_mcp_frame [OF invt] s2(1) by (metis fst_conv)
    from answer_run [OF this s2(3,4) e(2)] answered_end s2(1,2) show ?thesis by blast
  qed
  with f w show ?thesis unfolding awaits_def by blast
qed

definition demo_meanwhile :: "server_event list" where
  "demo_meanwhile =
     [demo_forward ''i'' ''r2'' True, EvMCPFrame 0 (demo_response ''r2'' (JStr ''two'')) 1,
      EvForwardEnd 0 ''r2'' 1 False, demo_worker_connect ''v'' ''t'' ''u'' 9, EvHarnessClose 1,
      EvHeartbeat [''i''] [''w'', ''v''] [] [] (91 * second)]"

theorem forward_delivers_witness:
  "\<exists>ch s1 s2.
    forward_begin (demo_request ''POST'' (mcp_instance_prefix @ ''i'') (\<lambda>_. ''''))
        (ReadBody (Some (JNum ''1''))) ''r'' True demo_two =
      (s1, [Send 7 (FMCPRequest ''r'' (JNum ''1'') ''Bearer tok'' ''i'')]) \<and>
    handle_mcp_frame 0 (demo_response ''r'' JNull) 0 (server_run (\<lambda>n. None) demo_meanwhile s1) = (s2, []) \<and>
    snd (forward_end 0 ''r'' ch False (server_run (\<lambda>n. None) [EvMCPClose 0] s2)) =
      [Respond 200 (RawBody (Some JNull))]"
proof -
  let ?r = "demo_request ''POST'' (mcp_instance_prefix @ ''i'') (\<lambda>_. '''')"
  let ?f = "FMCPRequest ''r'' (JNum ''1'') (r_header ?r ''Authorization'') (instance_id_of_path (r_path ?r))"
  have i: "instance_id_of_path (r_path ?r) = ''i''" "r_method ?r = ''POST''" "\<not> is_async ?r"
      "get_mcp (the_hub demo_two) ''i'' = Some 0" "sock (heap (the_hub demo_two) 0) = Some 7"
      "r_header ?r ''Authorization'' = ''Bearer tok''"
      "decode_mcp_frame (demo_response ''r'' JNull) =
         Some \<lparr>mf_type = ''mcp_response'', mf_id = ''r'', mf_body = Some JNull, mf_status = 0\<rparr>"
    by code_simp+
  have "waiters demo_two = []" "next_chan (mux_of (the_hub demo_two) 0) = 0" by code_simp+
  then have only: "ch = 0"
    if "forward_begin ?r (ReadBody (Some (JNum ''1''))) ''r'' True demo_two = (s1, fs)" "(0, ''r'', ch) \<in> set (waiters s1)"
    for ch s1 fs
    using that i(1-4) by (simp add: forward_begin_def mux_register_def Let_def split: prod.splits) auto
  have quiet: "list_all (forward_undisturbed 0 ''r'' 0) demo_meanwhile" by code_simp
  have "\<exists>ch s1.
    forward_begin ?r (ReadBody (Some (JNum ''1''))) ''r'' True demo_two = (s1, send_to (the_hub demo_two) 0 ?f) \<and>
    (0, ''r'', ch) \<in> set (waiters s1) \<and>
    (\<forall>es1 es2. (\<forall>e \<in> set es1. forward_undisturbed 0 ''r'' ch e) \<longrightarrow> (\<forall>e \<in> set es2. \<not> ends_forward 0 ch e) \<longrightarrow>
       (\<exists>s2. handle_mcp_frame 0 (demo_response ''r'' JNull) 0 (server_run (\<lambda>n. None) es1 s1) = (s2, []) \<and>
          pending (mux_of (the_hub s2) 0) ''r'' = None \<and>
          snd (forward_end 0 ''r'' ch False (server_run (\<lambda>n. None) es2 s2)) = [Respond 200 (RawBody (Some JNull))]))"
    by (rule forward_delivers [OF demo_two_def _ i(2,3) _ _ i(7)]) (simp_all add: i(1,4))
  then obtain ch s1 where f:
    "forward_begin ?r (ReadBody (Some (JNum ''1''))) ''r'' True demo_two = (s1, send_to (the_hub demo_two) 0 ?f)"
    "(0, ''r'', ch) \<in> set (waiters s1)"
    "\<And>es1 es2. \<forall>e \<in> set es1. forward_undisturbed 0 ''r'' ch e \<Longrightarrow> \<forall>e \<in> set es2. \<not> ends_forward 0 ch e \<Longrightarrow>
       \<exists>s2. handle_mcp_frame 0 (demo_response ''r'' JNull) 0 (server_run (\<lambda>n. None) es1 s1) = (s2, []) \<and>
          pending (mux_of (the_hub s2) 0) ''r'' = None \<and>
          snd (forward_end 0 ''r'' ch False (server_run (\<lambda>n. None) es2 s2)) = [Respond 200 (RawBody (Some JNull))]"
    by blast
  have "ch = 0" by (rule only [OF f(1,2)])
  then have "\<forall>e \<in> set demo_meanwhile. forward_undisturbed 0 ''r'' ch e" using quiet by (simp only: list_all_iff)
  moreover have "\<forall>e \<in> set [EvMCPClose 0]. \<not> ends_forward 0 ch e" by (simp add: ends_forward_def)
  ultimately obtain s2 where
    "handle_mcp_frame 0 (demo_response ''r'' JNull) 0 (server_run (\<lambda>n. None) demo_meanwhile s1) = (s2, [])"
    "snd (forward_end 0 ''r'' ch False (server_run (\<lambda>n. None) [EvMCPClose 0] s2)) = [Respond 200 (RawBody (Some JNull))]"
    using f(3) by blast
  moreover have "send_to (the_hub demo_two) 0 ?f = [Send 7 (FMCPRequest ''r'' (JNum ''1'') ''Bearer tok'' ''i'')]"
    unfolding send_to_def i(1,5,6) by simp
  ultimately show ?thesis using f(1) by metis
qed


subsection \<open>Forwards that are refused\<close>

text \<open>
  C18. A forward that is refused leaves no trace: with 405, 400 or 503 the server is as before, and with
  502, when the frame could not be written, the request is no longer pending and nothing waits for it.
  An instance that is not connected always gives 503.
\<close>

theorem forward_refused_leaves_no_trace:
  assumes "server_inv s" "forward_begin r b rid sent s = (s', fs @ [Respond code body])" "code \<noteq> 202"
  shows "(code \<in> {400, 405, 503} \<and> s' = s \<and> fs = []) \<or>
    (code = 502 \<and> \<not> sent \<and> waiters s' = waiters s \<and> answers s' = answers s \<and>
     (\<exists>a. get_mcp (the_hub s) (instance_id_of_path (r_path r)) = Some a \<and>
        pending (mux_of (the_hub s') a) = (pending (mux_of (the_hub s) a))(rid := None)))"
proof (cases "get_mcp (the_hub s) (instance_id_of_path (r_path r))")
  case None
  then show ?thesis using assms(2) by (auto simp: forward_begin_def http_error_def Let_def split: if_splits)
next
  case (Some a)
  let ?m = "mux_of (the_hub s) a"
  obtain ch m1 where reg: "mux_register rid ?m = (ch, m1)" by (cases "mux_register rid ?m")
  have ok1: "mux_ok m1"
    using mux_ok_register [OF mux_of_ok [OF server_invD(1) [OF assms(1)], of a], of rid] reg by simp
  obtain m2 where m2: "mux_cancel rid m1 = Some m2" "pending m2 = (pending m1)(rid := None)"
    using mux_cancel_ok [OF ok1] by blast
  have "pending m1 = (pending ?m)(rid \<mapsto> ch)" using reg by (auto simp: mux_register_def Let_def)
  with m2(2) have "pending m2 = (pending ?m)(rid := None)" by simp
  with assms(2,3) Some reg m2(1) show ?thesis
    by (cases b) (auto simp: forward_begin_def http_error_def write_json_def send_to_def Let_def
        split: if_splits option.splits)
qed

theorem forward_refused_leaves_no_trace_witness:
  "\<exists>s' fs. forward_begin (demo_request ''POST'' (mcp_instance_prefix @ ''i'') (\<lambda>_. ''''))
       (ReadBody (Some JNull)) ''r'' False demo_two = (s', fs @ [Respond 502 (TextBody ''forward failed'')]) \<and>
     waiters s' = waiters demo_two"
proof -
  let ?f = "forward_begin (demo_request ''POST'' (mcp_instance_prefix @ ''i'') (\<lambda>_. ''''))
       (ReadBody (Some JNull)) ''r'' False demo_two"
  have "snd ?f = [Send 7 (FMCPRequest ''r'' JNull ''Bearer tok'' ''i'')] @
      [Respond 502 (TextBody ''forward failed'')]"
    by code_simp
  then have e: "?f = (fst ?f, [Send 7 (FMCPRequest ''r'' JNull ''Bearer tok'' ''i'')] @
      [Respond 502 (TextBody ''forward failed'')])"
    by (metis prod.collapse)
  have "server_inv demo_two" unfolding demo_two_def by (rule run_inv)
  from forward_refused_leaves_no_trace [OF this e] have "waiters (fst ?f) = waiters demo_two" by simp
  with e show ?thesis by blast
qed

subsection \<open>Job counters\<close>

definition job_frame :: "gomap \<Rightarrow> string \<Rightarrow> string \<Rightarrow> gomap" where
  "job_frame job ru ju =
     fmupd ''id'' (GStr ju) (fmupd ''type'' (GStr ''harness_run'')
       (if get_str job ''run_id'' = '''' then fmupd ''run_id'' (GStr ru) job else job))"

lemma send_to_inc [simp]: "send_to (inc_harness_active_jobs w d h) a f = send_to h a f"
  by (simp add: send_to_def inc_harness_active_jobs_def Let_def split: option.split)

text \<open>The branches of the handler.\<close>

lemma harness_run_refused:
  assumes "r_method r \<noteq> ''POST'' \<or> worker_id_of_path (r_path r) = '''' \<or>
    get_harness (the_hub s) (worker_id_of_path (r_path r)) = None"
  obtains code msg where "handle_harness_run fl r b ru ju sent s = (s, http_error code msg)"
    "code \<in> {405, 400, 503}"
proof -
  let ?f = "handle_harness_run fl r b ru ju sent s"
  have "?f = (s, http_error 405 ''method not allowed'') \<or>
      ?f = (s, http_error 400 ''worker_id required'') \<or>
      ?f = (s, http_error 503 ''harness worker not connected'')"
    using assms by (auto simp: handle_harness_run_def worker_id_of_path_def Let_def)
  with that show thesis by blast
qed

lemma harness_run_body:
  assumes "r_method r = ''POST''" "worker_id_of_path (r_path r) \<noteq> ''''"
    "get_harness (the_hub s) (worker_id_of_path (r_path r)) = Some a"
  shows "handle_harness_run fl r ReadError ru ju sent s = (s, http_error 400 ''read body'')"
    "unmarshal_map fl j = None \<Longrightarrow>
       handle_harness_run fl r (ReadBody j) ru ju sent s = (s, http_error 400 ''invalid json'')"
    "unmarshal_map fl j = Some None \<Longrightarrow> handle_harness_run fl r (ReadBody j) ru ju sent s =
       (s, [Panic ''assignment to entry in nil map''])"
    "unmarshal_map fl j = Some (Some job) \<Longrightarrow> handle_harness_run fl r (ReadBody j) ru ju sent s =
       (let w = worker_id_of_path (r_path r);
            h1 = inc_harness_active_jobs w 1 (the_hub s);
            run = (if get_str job ''run_id'' = '''' then ru else get_str job ''run_id'');
            frame = send_to (the_hub s) a (FHarnessRun (job_frame job ru ju))
        in if sent then (s\<lparr>the_hub := h1\<rparr>,
                frame @ write_json 202 (strs [(''status'', ''dispatched''), (''run_id'', run)]))
           else (s\<lparr>the_hub := inc_harness_active_jobs w (-1) h1\<rparr>,
                frame @ http_error 502 ''forward failed''))"
  using assms by (simp_all add: handle_harness_run_def worker_id_of_path_def job_frame_def Let_def)

text \<open>
  C14. Dispatching a job is accounted exactly once. In every run, posting a job either is refused, and
  the server is as before, or it is sent to the worker as a \<open>harness_run\<close> frame with a run id and a job
  id, acknowledged with 202, and the worker's count of active jobs is one higher; a frame that cannot be
  sent takes its increment back.
\<close>

theorem harness_run_accounts_once:
  assumes "server_inv s" "handle_harness_run fl r b ru ju sent s = (s', es)"
  shows "(s' = s \<and> (\<forall>body. Respond 202 body \<notin> set es)) \<or>
    (\<exists>a j job run. sent \<and> get_harness (the_hub s) (worker_id_of_path (r_path r)) = Some a \<and>
       b = ReadBody j \<and> unmarshal_map fl j = Some (Some job) \<and>
       s' = s\<lparr>the_hub := inc_harness_active_jobs (worker_id_of_path (r_path r)) 1 (the_hub s)\<rparr> \<and>
       active_jobs (heap (the_hub s') a) = active_jobs (heap (the_hub s) a) + 1 \<and>
       es = send_to (the_hub s) a (FHarnessRun (job_frame job ru ju)) @
         write_json 202 (strs [(''status'', ''dispatched''), (''run_id'', run)]))"
proof (cases "r_method r \<noteq> ''POST'' \<or> worker_id_of_path (r_path r) = '''' \<or>
    get_harness (the_hub s) (worker_id_of_path (r_path r)) = None")
  case True
  then obtain code msg where "handle_harness_run fl r b ru ju sent s = (s, http_error code msg)"
      "code \<in> {405, 400, 503}"
    by (rule harness_run_refused)
  with assms(2) have "s' = s \<and> (\<forall>body. Respond 202 body \<notin> set es)" by (auto simp: http_error_def)
  then show ?thesis ..
next
  case False
  let ?w = "worker_id_of_path (r_path r)"
  from False obtain a where ok: "r_method r = ''POST''" "?w \<noteq> ''''" "get_harness (the_hub s) ?w = Some a"
    by auto
  note body = harness_run_body [OF ok, of fl]
  have restored: "s\<lparr>the_hub := inc_harness_active_jobs ?w (-1)
      (inc_harness_active_jobs ?w 1 (the_hub s))\<rparr> = s"
    using inc_dec_active_jobs [OF server_invD(1) [OF assms(1)]] by simp
  have one: "active_jobs (heap (inc_harness_active_jobs ?w 1 (the_hub s)) a)
      = active_jobs (heap (the_hub s) a) + 1"
    using server_invD(1) [OF assms(1)] ok(3) by (simp add: inc_active_jobs get_harness_def hub_wf_def)
  consider "b = ReadError"
    | j where "b = ReadBody j" "unmarshal_map fl j = None"
    | j where "b = ReadBody j" "unmarshal_map fl j = Some None"
    | j job where "b = ReadBody j" "unmarshal_map fl j = Some (Some job)"
    by (metis body_read.exhaust option.exhaust)
  then show ?thesis
  proof cases
    case (4 j job)
    show ?thesis
    proof (cases sent)
      case True
      with 4 assms(2) body(4) [OF 4(2)] ok(3) one show ?thesis by (auto simp: Let_def)
    next
      case False
      with 4 assms(2) body(4) [OF 4(2)] restored show ?thesis
        by (auto simp: Let_def http_error_def send_to_def split: option.splits)
    qed
  qed (use assms(2) body(1-3) in \<open>auto simp: http_error_def\<close>)
qed

theorem harness_run_accounts_once_witness:
  "\<exists>s'. fst (handle_harness_run (\<lambda>n. None) (demo_request ''POST'' (harness_worker_prefix @ ''w'') (\<lambda>_. ''''))
       (ReadBody (Some (JObj []))) ''run'' ''job'' True demo_two) = s' \<and>
     active_jobs (heap (the_hub s') 1) = active_jobs (heap (the_hub demo_two) 1) + 1"
proof -
  let ?r = "demo_request ''POST'' (harness_worker_prefix @ ''w'') (\<lambda>_. '''')"
  let ?f = "handle_harness_run (\<lambda>n. None) ?r (ReadBody (Some (JObj []))) ''run'' ''job'' True demo_two"
  have "server_inv demo_two" unfolding demo_two_def by (rule run_inv)
  moreover have "?f = (fst ?f, snd ?f)" by simp
  moreover have "\<exists>body. Respond 202 body \<in> set (snd ?f)"
  proof -
    have "list_ex (\<lambda>e. case e of Respond n _ \<Rightarrow> n = 202 | _ \<Rightarrow> False) (snd ?f)"
      by code_simp
    then obtain e where "e \<in> set (snd ?f)" "case e of Respond n _ \<Rightarrow> n = 202 | _ \<Rightarrow> False"
      by (auto simp only: list_ex_iff)
    moreover from this(2) have "\<exists>body. e = Respond 202 body" by (cases e) simp_all
    ultimately show ?thesis by metis
  qed
  moreover have "get_harness (the_hub demo_two) (worker_id_of_path (r_path ?r)) = Some 1"
    by code_simp
  ultimately show ?thesis
    using harness_run_accounts_once [of demo_two _ ?r _ "''run''" "''job''" True "fst ?f" "snd ?f"] by auto
qed


subsection \<open>Sessions the hub has dropped\<close>

text \<open>
  Which events list an address: only a connect, and it lists the address it has just allocated.
\<close>

lemma mcp_table_step:
  assumes "server_inv s"
  shows "mcp (the_hub (fst (server_apply fl e s))) i = Some a \<Longrightarrow>
    mcp (the_hub s) i = Some a \<or> a = next_conn (the_hub s)"
proof (cases e)
  case (EvHeartbeat om oh pm ph now)
  assume "mcp (the_hub (fst (server_apply fl e s))) i = Some a"
  then show ?thesis unfolding EvHeartbeat
    by (auto simp: heartbeat_def sweep_stale_def Let_def split: if_splits)
next
  case (EvMCPConnect r ws uuid now)
  assume "mcp (the_hub (fst (server_apply fl e s))) i = Some a"
  then show ?thesis unfolding EvMCPConnect
    by (auto simp: handle_mcp_connect_def alloc_conn_def Let_def split: if_splits option.splits)
next
  case (EvHarnessConnect r ws w uuid now)
  assume "mcp (the_hub (fst (server_apply fl e s))) i = Some a"
  then show ?thesis unfolding EvHarnessConnect
    by (auto simp: handle_harness_connect_def alloc_conn_def register_harness_def Let_def
        split: if_splits option.splits)
qed (auto simp: handle_mcp_close_def handle_mcp_frame_def dispatch_mcp_inbound_def
      handle_harness_frame_def dispatch_harness_inbound_def handle_harness_close_def
      handle_harness_pick_def forward_begin_def forward_end_def handle_harness_run_def
      Let_def split: option.splits prod.splits if_splits body_read.splits)


lemma harness_table_step:
  assumes "server_inv s"
  shows "harness (the_hub (fst (server_apply fl e s))) w = Some a \<Longrightarrow>
    harness (the_hub s) w = Some a \<or> a = next_conn (the_hub s)"
proof (cases e)
  case (EvHeartbeat om oh pm ph now)
  assume "harness (the_hub (fst (server_apply fl e s))) w = Some a"
  then show ?thesis unfolding EvHeartbeat
    by (auto simp: heartbeat_def sweep_stale_def Let_def split: if_splits)
next
  case (EvMCPConnect r ws uuid now)
  assume "harness (the_hub (fst (server_apply fl e s))) w = Some a"
  then show ?thesis unfolding EvMCPConnect
    by (auto simp: handle_mcp_connect_def alloc_conn_def Let_def split: if_splits option.splits)
next
  case (EvHarnessConnect r ws v uuid now)
  assume "harness (the_hub (fst (server_apply fl e s))) w = Some a"
  then show ?thesis unfolding EvHarnessConnect
    by (auto simp: handle_harness_connect_def alloc_conn_def register_harness_def Let_def
        split: if_splits option.splits)
qed (auto simp: handle_mcp_close_def handle_mcp_frame_def dispatch_mcp_inbound_def
      handle_harness_frame_def dispatch_harness_inbound_def handle_harness_close_def
      handle_harness_pick_def forward_begin_def forward_end_def handle_harness_run_def
      Let_def split: option.splits prod.splits if_splits body_read.splits)

lemma next_conn_step: "next_conn (the_hub s) \<le> next_conn (the_hub (fst (server_apply fl e s)))"
proof (cases e)
  case (EvMCPConnect r ws uuid now)
  then show ?thesis
    by (auto simp: handle_mcp_connect_def alloc_conn_def Let_def split: option.splits)
next
  case (EvHarnessConnect r ws v uuid now)
  have "next_conn (fst (register_harness w p now h)) = next_conn h" for w p h by simp
  then have "next_conn h' = next_conn h" if "register_harness w p now h = (h', ev)" for w p h h' ev
    using that by (metis fst_conv)
  with EvHarnessConnect show ?thesis
    by (auto simp: handle_harness_connect_def alloc_conn_def Let_def split: option.splits prod.splits)
next
  case (EvHeartbeat om oh pm ph now)
  then show ?thesis by (simp add: heartbeat_def sweep_stale_def Let_def)
qed (auto simp: handle_mcp_close_def handle_mcp_frame_def dispatch_mcp_inbound_def
      handle_harness_frame_def dispatch_harness_inbound_def handle_harness_close_def
      handle_harness_pick_def forward_begin_def forward_end_def handle_harness_run_def
      Let_def split: option.splits prod.splits if_splits body_read.splits)

definition dropped :: "nat \<Rightarrow> server \<Rightarrow> bool" where
  "dropped a s \<longleftrightarrow>
     a < next_conn (the_hub s) \<and> (\<forall>i. get_mcp (the_hub s) i \<noteq> Some a) \<and>
     (\<forall>w. get_harness (the_hub s) w \<noteq> Some a)"

lemma dropped_step: "server_inv s \<Longrightarrow> dropped a s \<Longrightarrow> dropped a (fst (server_apply fl e s))"
  using mcp_table_step [of s fl e _ a] harness_table_step [of s fl e _ a] next_conn_step [of s fl e]
  unfolding dropped_def get_mcp_def get_harness_def by (metis nat_less_le order_less_le_trans)

lemma dropped_run: "server_inv s \<Longrightarrow> dropped a s \<Longrightarrow> dropped a (server_run fl es s)"
  by (induction es arbitrary: s) (simp_all add: dropped_step server_inv_apply)

text \<open>
  C13. A session the hub has dropped is never listed again, whatever arrives on it: frames refresh its
  last-seen time, but neither they nor any other event puts it back. In particular a session evicted by
  the heartbeat that then resumes sending is read forever and reachable by nobody, until it reconnects.
\<close>

theorem dropped_session_stays_dropped:
  assumes "s = server_run fl es (new_server cfg)" "a < next_conn (the_hub s)"
    and "\<forall>i. get_mcp (the_hub s) i \<noteq> Some a" "\<forall>w. get_harness (the_hub s) w \<noteq> Some a"
  shows "get_mcp (the_hub (server_run fl es' s)) i \<noteq> Some a \<and>
    get_harness (the_hub (server_run fl es' s)) w \<noteq> Some a"
proof -
  have "dropped a s" using assms(2-4) by (simp add: dropped_def)
  moreover have "server_inv s" using run_inv assms(1) by simp
  ultimately have "dropped a (server_run fl es' s)" by (intro dropped_run)
  then show ?thesis by (simp add: dropped_def)
qed

definition demo_evicted :: "server_event list" where
  "demo_evicted = [demo_connect ''i'' 7, EvHeartbeat [''i''] [] [] [] (91 * second)]"

theorem dropped_session_stays_dropped_witness:
  "get_mcp (the_hub (server_run (\<lambda>n. None) [EvMCPFrame 0 (demo_response ''r'' JNull) (92 * second)]
     (server_run (\<lambda>n. None) demo_evicted (new_server demo_config)))) ''i'' \<noteq> Some 0 \<and>
   mcp_sessions (server_run (\<lambda>n. None) demo_evicted (new_server demo_config)) 0 = Some (''i'', ''t'')"
proof -
  let ?s = "server_run (\<lambda>n. None) demo_evicted (new_server demo_config)"
  have "get_mcp (the_hub ?s) ''i'' = None" "next_conn (the_hub ?s) = 1"
    "mcp_sessions ?s 0 = Some (''i'', ''t'')"
    by code_simp+
  moreover have inv: "server_inv ?s" by (rule run_inv)
  moreover have "mcp_sessions ?s 0 = Some (i, t) \<Longrightarrow> i = ''i''" for i t
    using calculation(3) by simp
  ultimately have "\<forall>i. get_mcp (the_hub ?s) i \<noteq> Some 0"
    using server_invD(2) [OF inv] unfolding sessions_ok_def get_mcp_def by (metis option.distinct(1))
  moreover have "harness_sessions ?s 0 = None" by code_simp
  then have "\<forall>w. get_harness (the_hub ?s) w \<noteq> Some 0"
    using server_invD(2) [OF inv] unfolding sessions_ok_def get_harness_def by (metis option.distinct(1))
  ultimately have "get_mcp (the_hub (server_run (\<lambda>n. None)
      [EvMCPFrame 0 (demo_response ''r'' JNull) (92 * second)] ?s)) ''i'' \<noteq> Some 0"
    using dropped_session_stays_dropped [OF refl, of 0 "\<lambda>n. None" demo_evicted demo_config]
      \<open>next_conn (the_hub ?s) = 1\<close> by (simp del: server_run.simps)
  then show ?thesis using \<open>mcp_sessions ?s 0 = Some (''i'', ''t'')\<close> by (rule conjI)
qed

lemma unlisted_mcp_run:
  "server_inv s \<Longrightarrow> b < next_conn (the_hub s) \<Longrightarrow> \<forall>i. mcp (the_hub s) i \<noteq> Some b \<Longrightarrow>
     mcp (the_hub (server_run fl es s)) j \<noteq> Some b"
proof (induction es arbitrary: s)
  case (Cons e es)
  let ?s = "fst (server_apply fl e s)"
  have "\<forall>i. mcp (the_hub ?s) i \<noteq> Some b"
    using mcp_table_step [OF Cons.prems(1), of fl e _ b] Cons.prems(2,3) by (metis less_irrefl_nat)
  moreover have "b < next_conn (the_hub ?s)"
    using Cons.prems(2) next_conn_step [of s fl e] by (rule order_less_le_trans)
  ultimately show ?case using Cons.IH server_inv_apply [OF Cons.prems(1)] by simp
qed simp

text \<open>
  C12. A reconnect can take an instance off the hub for good while its new socket lives: when the
  teardown of a superseded session runs, it deletes the entry of the session that replaced it, and no
  later event lists that session again. Here \<open>b\<close> is the session that serves instance \<open>i\<close> from the hub's
  point of view and \<open>a\<close> an older session for \<open>i\<close> that closes: \<open>i\<close> is offline, the socket of \<open>b\<close> is open.
\<close>

theorem stale_close_unlists_successor:
  assumes "s = server_run fl es (new_server cfg)" "mcp_sessions s a = Some (i, t)"
    and "get_mcp (the_hub s) i = Some b" "a \<noteq> b" "s' = fst (handle_mcp_close a s)"
  shows "get_mcp (the_hub s') i = None \<and> mcp_sessions s' b = mcp_sessions s b \<and>
    (\<exists>t. mcp_sessions s b = Some (i, t)) \<and>
    (\<forall>es' j. get_mcp (the_hub (server_run fl es' s')) j \<noteq> Some b)"
proof -
  have inv: "server_inv s" using run_inv assms(1) by simp
  have s': "s' = s\<lparr>the_hub := unregister_mcp i (the_hub s), mcp_sessions := (mcp_sessions s)(a := None)\<rparr>"
    using assms(2,5) by (simp add: handle_mcp_close_def)
  have none: "get_mcp (the_hub s') i = None" using mcp_table.get_del_same s' by simp
  obtain t' where t': "mcp_sessions s b = Some (i, t')"
    using server_invD(2) [OF inv] assms(3) by (auto simp: sessions_ok_def get_mcp_def dest!: spec)
  have only: "mcp (the_hub s) j = Some b \<Longrightarrow> j = i" for j
    using server_invD(2) [OF inv] t' unfolding sessions_ok_def by fastforce
  then have "\<forall>j. mcp (the_hub s') j \<noteq> Some b" by (auto simp: s')
  moreover have "b < next_conn (the_hub s')"
    using get_mcp_alloc [OF inv assms(3)] by (simp add: s')
  moreover have "server_inv s'" using inv_mcp_close [OF inv] assms(5) by simp
  ultimately have "\<forall>es' j. get_mcp (the_hub (server_run fl es' s')) j \<noteq> Some b"
    using unlisted_mcp_run unfolding get_mcp_def by blast
  with none t' assms(4) show ?thesis by (simp add: s')
qed

theorem stale_close_unlists_successor_witness:
  "let s = server_run (\<lambda>n. None) [demo_connect ''i'' 7, demo_connect ''i'' 8] (new_server demo_config)
   in get_mcp (the_hub (fst (handle_mcp_close 0 s))) ''i'' = None \<and>
      mcp_sessions (fst (handle_mcp_close 0 s)) 1 = Some (''i'', ''t'')"
proof -
  let ?s = "server_run (\<lambda>n. None) [demo_connect ''i'' 7, demo_connect ''i'' 8] (new_server demo_config)"
  have e: "mcp_sessions ?s 0 = Some (''i'', ''t'')" "get_mcp (the_hub ?s) ''i'' = Some 1"
    "mcp_sessions ?s 1 = Some (''i'', ''t'')"
    by code_simp+
  then show ?thesis
    using stale_close_unlists_successor [OF refl e(1,2) _ refl] unfolding Let_def by simp
qed

subsection \<open>Whose worker is it\<close>

text \<open>The user each event's worker belongs to: a worker id always connects with the same one.\<close>

fun keeps_owner :: "(string \<Rightarrow> string \<times> string) \<Rightarrow> server_event \<Rightarrow> bool" where
  "keeps_owner owner (EvHarnessConnect r ws wuuid uuid now) \<longleftrightarrow>
     (let w0 = trim_space (r_query r ''worker_id'')
      in owner (if w0 = '''' then wuuid else w0) =
           (trim_space (r_query r ''tenant_id''), trim_space (r_query r ''user_id'')))"
| "keeps_owner owner _ \<longleftrightarrow> True"

lemma owned_same:
  "owned owner h \<Longrightarrow> harness h' \<subseteq>\<^sub>m harness h \<Longrightarrow> harness_by_user h' \<subseteq>\<^sub>m harness_by_user h \<Longrightarrow>
     (\<And>a. tenant_id (heap h' a) = tenant_id (heap h a)) \<Longrightarrow>
     (\<And>a. user_id (heap h' a) = user_id (heap h a)) \<Longrightarrow> owned owner h'"
  unfolding owned_def map_le_def by (metis domI)

lemma owned_unchanged:
  assumes "owned owner h"
  shows "owned owner (touch p now h)" "owned owner (inc_harness_active_jobs w d h)"
    "owned owner (set_mux a m h)" "owned owner (unregister_mcp i h)"
    "owned owner (register_mcp i q now h)"
  using assms by (auto simp: touch_def inc_harness_active_jobs_def set_mux_def register_mcp_def Let_def
      owned_def unregister_mcp_def split: option.split)

lemma owned_update_capabilities:
  assumes "owned owner h" shows "owned owner (update_harness_capabilities w t p m h)"
proof (cases "harness h w")
  case None
  then show ?thesis using assms by (simp add: update_harness_capabilities_def)
next
  case (Some a)
  have ow: "owner w = (tenant_id (heap h a), user_id (heap h a))"
    using assms Some by (auto simp: owned_def)
  let ?h = "upd_conn a (\<lambda>c. c\<lparr>tier := to_lower (trim_space t), providers := p,
      max_concurrent := (if 0 < m then m else if max_concurrent c \<le> 0 then 1 else max_concurrent c)\<rparr>) h"
  have "owned owner ?h" by (rule owned_upd_conn [OF assms]) simp_all
  then have "owned owner (index_heavy w (heap ?h a) ?h)"
    by (rule owned_index_heavy) (simp add: ow)
  then show ?thesis using Some by (simp add: update_harness_capabilities_def Let_def)
qed

lemma owned_evict: "owned owner h \<Longrightarrow> owned owner (evict_harness es h)"
  by (induction es arbitrary: h) (auto simp: owned_unregister_harness)

lemma owned_sweep: "owned owner h \<Longrightarrow> owned owner (fst (sweep_stale om oh now h))"
  by (simp add: sweep_stale_def Let_def) (rule owned_evict, simp add: owned_def)

lemma owned_alloc:
  assumes "owned owner h" "hub_wf h" "alloc_conn c h = (a, h')" shows "owned owner h'"
proof -
  have h': "h' = h\<lparr>heap := (heap h)(next_conn h := c), next_conn := Suc (next_conn h)\<rparr>"
    using assms(3) by (auto simp: alloc_conn_def)
  have "harness h w = Some b \<Longrightarrow> b \<noteq> next_conn h" for w b
    using assms(2) by (auto simp: hub_wf_def)
  with assms(1) show ?thesis unfolding h' owned_def by auto
qed


lemma owned_harness_connect:
  assumes "owned owner (the_hub s)" "hub_wf (the_hub s)"
    and "keeps_owner owner (EvHarnessConnect r ws wuuid uuid now)"
  shows "owned owner (the_hub (fst (handle_harness_connect r ws wuuid uuid now s)))"
proof -
  let ?w0 = "trim_space (r_query r ''worker_id'')"
  let ?w = "if ?w0 = '''' then wuuid else ?w0"
  have "owned owner (fst (register_harness ?w (Some a) now h1))"
    if "alloc_conn (zero_conn\<lparr>conn_id := uuid, worker_id := ?w,
          tenant_id := trim_space (r_query r ''tenant_id''),
          user_id := trim_space (r_query r ''user_id''), provider := p, tier := tr,
          sock := Some k\<rparr>) (the_hub s) = (a, h1)" for p tr k a h1
  proof (rule owned_register_harness)
    show "owned owner h1" by (rule owned_alloc [OF assms(1,2) that])
    show "owner ?w = (tenant_id (heap h1 a), user_id (heap h1 a))"
      using that assms(3) by (auto simp: alloc_conn_def Let_def)
  qed
  then have "owned owner h2"
    if "alloc_conn (zero_conn\<lparr>conn_id := uuid, worker_id := ?w,
          tenant_id := trim_space (r_query r ''tenant_id''),
          user_id := trim_space (r_query r ''user_id''), provider := p, tier := tr,
          sock := Some k\<rparr>) (the_hub s) = (a, h1)"
      "register_harness ?w (Some a) now h1 = (h2, ev)" for p tr k a h1 h2 ev
    using that by (metis fst_conv)
  with assms(1) show ?thesis
    by (simp add: handle_harness_connect_def Let_def split: option.split prod.split)
qed

lemma owned_step:
  assumes "server_inv s" "owned owner (the_hub s)" "keeps_owner owner e"
  shows "owned owner (the_hub (fst (server_apply fl e s)))"
proof (cases e)
  case (EvHarnessConnect r ws w uuid now)
  with assms show ?thesis using owned_harness_connect server_invD(1) by simp
next
  case (EvMCPConnect r ws uuid now)
  have "owned owner (register_mcp i (Some a) now h1)" if "alloc_conn c (the_hub s) = (a, h1)" for c a h1 i
    using owned_alloc [OF assms(2) server_invD(1) [OF assms(1)] that] by (rule owned_unchanged)
  with assms EvMCPConnect show ?thesis
    by (simp add: handle_mcp_connect_def Let_def split: option.split prod.split)
next
  case (EvHeartbeat om oh pm ph now)
  then show ?thesis using owned_sweep [OF assms(2), of om oh now]
    by (cases "sweep_stale om oh now (the_hub s)") (simp add: heartbeat_def Let_def)
qed (use assms(2) in \<open>auto simp: handle_mcp_close_def handle_mcp_frame_def dispatch_mcp_inbound_def
      handle_harness_frame_def dispatch_harness_inbound_def handle_harness_close_def
      handle_harness_pick_def forward_begin_def forward_end_def handle_harness_run_def
      owned_unchanged owned_update_capabilities owned_unregister_harness
      Let_def split: option.split prod.split body_read.split\<close>)

lemma owned_run:
  "server_inv s \<Longrightarrow> owned owner (the_hub s) \<Longrightarrow> \<forall>e \<in> set es. keeps_owner owner e \<Longrightarrow>
     owned owner (the_hub (server_run fl es s))"
  by (induction es arbitrary: s) (simp_all add: owned_step server_inv_apply)

text \<open>
  C11. A lookup by user finds that user's worker, under two conditions the code does not enforce: every
  worker id keeps the tenant and user it connects for through the whole run, and neither the tenant id asked
  for nor the one of the connection found holds the separator \<open>#\<close> that the index key is built with. Then
  \<open>HarnessForUser\<close> returns a connection of the very tenant and user it was asked for.
\<close>

theorem harness_for_user_isolated:
  assumes "s = server_run fl es (new_server cfg)" "\<forall>e \<in> set es. keeps_owner owner e"
    and "harness_for_user (the_hub s) t u = Some a"
    and "CHR ''#'' \<notin> set t" "CHR ''#'' \<notin> set (tenant_id (heap (the_hub s) a))"
  shows "tenant_id (heap (the_hub s) a) = t \<and> user_id (heap (the_hub s) a) = u"
proof -
  have "owned owner (the_hub (new_server cfg))"
    by (simp add: new_server_def new_hub_def owned_def)
  then have "owned owner (the_hub s)"
    using owned_run [OF server_inv_new _ assms(2)] assms(1) by simp
  then have "user_key t u = conn_user_key (heap (the_hub s) a)"
    using assms(3) by (rule owned_harness_for_user)
  then show ?thesis using user_key_inj assms(4,5) unfolding conn_user_key_def by metis
qed

theorem harness_for_user_isolated_witness:
  "let s = server_run (\<lambda>n. None) [demo_worker_connect ''w1'' ''t1'' ''u1'' 7,
       demo_worker_connect ''w2'' ''t2'' ''u2'' 8] (new_server demo_config)
   in harness_for_user (the_hub s) ''t2'' ''u2'' = Some 1 \<and> tenant_id (heap (the_hub s) 1) = ''t2''"
proof -
  let ?es = "[demo_worker_connect ''w1'' ''t1'' ''u1'' 7, demo_worker_connect ''w2'' ''t2'' ''u2'' 8]"
  let ?s = "server_run (\<lambda>n. None) ?es (new_server demo_config)"
  let ?o = "\<lambda>w. if w = ''w1'' then (''t1'', ''u1'') else (''t2'', ''u2'')"
  have "list_all (keeps_owner ?o) ?es" by code_simp
  then have o: "\<forall>e \<in> set ?es. keeps_owner ?o e" by (simp only: list_all_iff)
  have h: "harness_for_user (the_hub ?s) ''t2'' ''u2'' = Some 1" by code_simp
  have "CHR ''#'' \<notin> set (tenant_id (heap (the_hub ?s) 1))" by code_simp
  with harness_for_user_isolated [OF refl o h] h show ?thesis by simp
qed

text \<open>
  The first condition is needed: a worker id that connects for one user and then for another leaves the
  first user's index entry behind, and \<open>HarnessForUser\<close> for the first user then returns the second
  tenant's connection.
\<close>

lemma harness_for_user_crosses_tenants:
  "\<exists>es cfg a. let s = server_run (\<lambda>n. None) es (new_server cfg) in
     harness_for_user (the_hub s) ''t1'' ''u1'' = Some a \<and>
     harness_sessions s a \<noteq> None \<and> tenant_id (heap (the_hub s) a) = ''t2''"
proof -
  let ?s = "server_run (\<lambda>n. None) [demo_worker_connect ''w'' ''t1'' ''u1'' 7,
      demo_worker_connect ''w'' ''t2'' ''u2'' 8] (new_server demo_config)"
  have "harness_for_user (the_hub ?s) ''t1'' ''u1'' = Some 1" "harness_sessions ?s 1 = Some ''w''"
    "tenant_id (heap (the_hub ?s) 1) = ''t2''"
    by code_simp+
  then have "let s = ?s in harness_for_user (the_hub s) ''t1'' ''u1'' = Some 1 \<and>
     harness_sessions s 1 \<noteq> None \<and> tenant_id (heap (the_hub s) 1) = ''t2''"
    unfolding Let_def by simp
  then show ?thesis by blast
qed

end
