(* ===== verification/MuxSpec.thy ===== *)
theory MuxSpec
  imports Multiplexer
begin

section \<open>The multiplexer as a mailbox (what relay/multiplexer.go promises)\<close>

text \<open>
  The contract of the multiplexer without channels, locks and goroutines: an office with a numbered box per
  registration. A completion puts its body into the box of the id and takes the id off the list in one
  step, a cancellation empties the box for good, and a body is fetched from a box once. The interleaved
  multiplexer of \<open>Multiplexer\<close> implements it: a completion counts from its mutex section on, though the
  channel gets the body later.
\<close>

datatype 'b box = Waiting | Mail 'b | Gone

record 'b office =
  waiting :: "string \<rightharpoonup> nat"
  boxes :: "nat \<Rightarrow> 'b box"
  next_box :: nat
  fetched :: "(nat \<times> 'b) list"

definition office_start :: "'b office \<Rightarrow> bool" where
  "office_start a \<longleftrightarrow> a = \<lparr>waiting = Map.empty, boxes = (\<lambda>_. Waiting), next_box = 0, fetched = []\<rparr>"

inductive office_step :: "'b office \<Rightarrow> 'b office \<Rightarrow> bool" where
  office_register:
    "office_step a (a\<lparr>waiting := (waiting a)(rid \<mapsto> next_box a), boxes := (boxes a)(next_box a := Waiting),
                      next_box := Suc (next_box a)\<rparr>)"
| office_complete:
    "waiting a rid = Some n \<Longrightarrow>
     office_step a (a\<lparr>waiting := (waiting a)(rid := None), boxes := (boxes a)(n := Mail b)\<rparr>)"
| office_cancel:
    "waiting a rid = Some n \<Longrightarrow>
     office_step a (a\<lparr>waiting := (waiting a)(rid := None), boxes := (boxes a)(n := Gone)\<rparr>)"
| office_fetch:
    "boxes a n = Mail b \<Longrightarrow>
     office_step a (a\<lparr>boxes := (boxes a)(n := Gone), fetched := (n, b) # fetched a\<rparr>)"

subsection \<open>How the states correspond\<close>

definition body_in :: "'b mux_sys \<Rightarrow> nat \<Rightarrow> 'b \<Rightarrow> bool" where
  \<comment> \<open>the body is in the channel's buffer, or a goroutine is about to put it there\<close>
  "body_in s ch b \<longleftrightarrow> buf (chans (the_mux s) ch) = Some b \<or> (\<exists>g. pcs s g = Offering ch b)"

definition shut :: "'b mux_sys \<Rightarrow> nat \<Rightarrow> bool" where
  "shut s ch \<longleftrightarrow> closed (chans (the_mux s) ch) \<or> (\<exists>g. pcs s g = Closing ch)"

definition office_of :: "'b mux_sys \<Rightarrow> 'b office \<Rightarrow> bool" where
  "office_of s a \<longleftrightarrow>
     waiting a = pending (the_mux s) \<and> next_box a = next_chan (the_mux s) \<and> fetched a = received s \<and>
     (\<forall>ch b. boxes a ch = Mail b \<longleftrightarrow> body_in s ch b) \<and>
     (\<forall>ch. boxes a ch = Gone \<longleftrightarrow> buf (chans (the_mux s) ch) = None \<and> shut s ch) \<and>
     (\<forall>ch. buf (chans (the_mux s) ch) \<noteq> None \<longrightarrow> shut s ch)"

lemma office_ofI:
  assumes "waiting a = pending (the_mux s)" "next_box a = next_chan (the_mux s)" "fetched a = received s"
    and "\<And>ch b. boxes a ch = Mail b \<longleftrightarrow> body_in s ch b"
    and "\<And>ch. boxes a ch = Gone \<longleftrightarrow> buf (chans (the_mux s) ch) = None \<and> shut s ch"
    and "\<And>ch b. buf (chans (the_mux s) ch) = Some b \<Longrightarrow> shut s ch"
  shows "office_of s a"
  using assms by (auto simp: office_of_def)

lemma office_ofD:
  assumes "office_of s a"
  shows "waiting a = pending (the_mux s)" "next_box a = next_chan (the_mux s)" "fetched a = received s"
    "boxes a ch = Mail b \<longleftrightarrow> body_in s ch b"
    "boxes a ch = Gone \<longleftrightarrow> buf (chans (the_mux s) ch) = None \<and> shut s ch"
    "buf (chans (the_mux s) ch) = Some b \<Longrightarrow> shut s ch"
  using assms by (auto simp: office_of_def)

lemma office_of_start: "mux_start s \<Longrightarrow> \<exists>a. office_start a \<and> office_of s a"
  by (auto simp: mux_start_def office_start_def office_of_def body_in_def shut_def new_mux_def open_chan_def)

text \<open>One lemma per kind of step: what it does to the bodies and to the closing of channels.\<close>

lemma ex_other: "f g \<noteq> y \<Longrightarrow> (\<exists>g'. (f(g := x)) g' = y) \<longleftrightarrow> x = y \<or> (\<exists>g'. f g' = y)"
  by (metis fun_upd_other fun_upd_same)

lemma shut_moved:
  "pcs t = (pcs s)(g := p) \<Longrightarrow> pcs s g \<noteq> Closing c \<Longrightarrow>
     shut t c \<longleftrightarrow> closed (chans (the_mux t) c) \<or> p = Closing c \<or> (\<exists>g. pcs s g = Closing c)"
  by (simp add: shut_def ex_other del: fun_upd_apply)

lemma body_moved:
  "pcs t = (pcs s)(g := p) \<Longrightarrow> pcs s g \<noteq> Offering c b \<Longrightarrow>
     body_in t c b \<longleftrightarrow> buf (chans (the_mux t) c) = Some b \<or> p = Offering c b \<or> (\<exists>g. pcs s g = Offering c b)"
  by (simp add: body_in_def ex_other del: fun_upd_apply)

lemma office_of_register:
  assumes "mux_inv s" "office_of s a" "mux_register rid (the_mux s) = (ch, m')"
  shows "office_of (s\<lparr>the_mux := m', reg := (reg s)(ch \<mapsto> rid)\<rparr>)
    (a\<lparr>waiting := (waiting a)(rid \<mapsto> next_box a), boxes := (boxes a)(next_box a := Waiting),
       next_box := Suc (next_box a)\<rparr>)" (is "office_of ?t ?b")
proof -
  note D = mux_registerD [OF assms(3)]
  then have n: "ch = next_chan (the_mux s)" by blast
  have f: "pcs s g \<noteq> Offering ch b" "pcs s g \<noteq> Closing ch" for g b
    using mux_inv_fresh(1) [OF assms(1) n, of g] by auto
  have "body_in ?t c b \<longleftrightarrow> c \<noteq> ch \<and> body_in s c b" "shut ?t c \<longleftrightarrow> c \<noteq> ch \<and> shut s c" for c b
    using D f by (auto simp: body_in_def shut_def open_chan_def)
  with D office_ofD [OF assms(2)] show ?thesis by (intro office_ofI) (auto simp: open_chan_def split: if_splits)
qed

lemma office_of_take:
  assumes "mux_inv s" "office_of s a" "pcs s g = Idle" "mux_take rid (the_mux s) = (Some ch, m')"
    and p: "p = Closing ch \<and> x = Gone \<or> p = Offering ch b \<and> x = Mail b"
  shows "office_of (s\<lparr>the_mux := m', pcs := (pcs s)(g := p), calls := C\<rparr>)
    (a\<lparr>waiting := (waiting a)(rid := None), boxes := (boxes a)(ch := x)\<rparr>)" (is "office_of ?t ?b")
proof -
  note D = mux_takeD [OF assms(4)]
  have "chans (the_mux s) ch = open_chan" and h: "\<not> holds (pcs s g') ch" for g'
    using assms(1) D unfolding mux_inv_def inv_table_def unanswered_def by blast+
  then have o: "buf (chans (the_mux s) ch) = None" "\<not> closed (chans (the_mux s) ch)"
    by (simp_all add: open_chan_def)
  have f: "pcs s g' \<noteq> Offering ch b'" "pcs s g' \<noteq> Closing ch" for g' b'
    using h [of g'] by auto
  have none: "\<not> body_in s ch b'" "\<not> shut s ch" for b'
    using o f by (auto simp: body_in_def shut_def)
  have "body_in ?t c b' \<longleftrightarrow> body_in s c b' \<or> p = Offering c b'" "shut ?t c \<longleftrightarrow> shut s c \<or> p = Closing c" for c b'
    using D assms(3) body_moved [of ?t s g p c b'] shut_moved [of ?t s g p c] by (auto simp: body_in_def shut_def)
  with D office_ofD [OF assms(2)] none o p show ?thesis by (intro office_ofI) auto
qed

lemma office_of_offer:
  assumes "mux_inv s" "office_of s a" "pcs s g = Offering ch b" "chan_offer ch b (the_mux s) = Some m'"
  shows "office_of (s\<lparr>the_mux := m', pcs := (pcs s)(g := Closing ch)\<rparr>) a" (is "office_of ?t a")
proof -
  have "holds (pcs s g) ch" using assms(3) by simp
  note H = mux_inv_holder [OF assms(1) this] and O = mux_inv_offering [OF assms(1,3)]
  note D = chan_offerD [OF assms(4) O(3)]
  have f: "pcs s g' = Offering ch b' \<longleftrightarrow> g' = g \<and> b' = b" "pcs s g' \<noteq> Closing ch" for g' b'
    using H(4) [of g'] assms(3) by (cases "g' = g"; auto)+
  have "shut ?t c \<longleftrightarrow> shut s c \<or> c = ch" for c
    using D assms(3) shut_moved [of ?t s g "Closing ch" c] by (auto simp: shut_def)
  moreover have "body_in ?t c b' \<longleftrightarrow> body_in s c b'" for c b'
  proof (cases "c = ch")
    case True
    then show ?thesis using D f O(3) by (auto simp: body_in_def)
  next
    case False
    then have "pcs s g \<noteq> Offering c b'" using assms(3) by simp
    from body_moved [of ?t s g "Closing ch", OF _ this] False D show ?thesis by (simp add: body_in_def)
  qed
  moreover have "\<not> shut s ch" using f(2) H(2) by (simp add: shut_def)
  ultimately show ?thesis using D office_ofD [OF assms(2)] O(3) by (intro office_ofI) (auto split: if_splits)
qed

lemma office_of_close:
  assumes "office_of s a" "pcs s g = Closing ch" "chan_close ch (the_mux s) = Some m'"
  shows "office_of (s\<lparr>the_mux := m', pcs := (pcs s)(g := Idle)\<rparr>) a" (is "office_of ?t a")
proof -
  note D = chan_closeD [OF assms(3)]
  have "shut ?t c \<longleftrightarrow> shut s c" for c
    using D assms(2) shut_moved [of ?t s g Idle c] by (cases "c = ch") (auto simp: shut_def)
  moreover have "body_in ?t c b \<longleftrightarrow> body_in s c b" for c b
    using D assms(2) body_moved [of ?t s g Idle c b] by (auto simp: body_in_def)
  ultimately show ?thesis using D office_ofD [OF assms(1)] by (intro office_ofI) (auto split: if_splits)
qed

lemma office_of_recv:
  assumes "mux_inv s" "office_of s a" "chan_recv ch (the_mux s) = (Received b, m')"
  shows "office_of (s\<lparr>the_mux := m', received := (ch, b) # received s\<rparr>)
    (a\<lparr>boxes := (boxes a)(ch := Gone), fetched := (ch, b) # fetched a\<rparr>)" (is "office_of ?t ?b")
proof -
  note D = chan_recvD [OF assms(3)]
  have f: "pcs s g \<noteq> Offering ch b'" for g b'
    using mux_inv_offering(3) [OF assms(1), of g ch b'] D by auto
  have "shut ?t c \<longleftrightarrow> shut s c" "body_in ?t c b' \<longleftrightarrow> c \<noteq> ch \<and> body_in s c b'" for c b'
    using D f by (auto simp: shut_def body_in_def)
  with D office_ofD [OF assms(2)] show ?thesis by (intro office_ofI) (auto split: if_splits)
qed

lemma office_of_step:
  assumes "mux_step s t" "mux_inv s" "office_of s a"
  shows "office_of t a \<or> (\<exists>b. office_step a b \<and> office_of t b)"
  using assms
proof (cases rule: mux_step.cases)
  case (step_register rid ch m')
  show ?thesis
    unfolding step_register(1)
    by (intro disjI2 exI conjI, rule office_register, rule office_of_register [OF assms(2,3) step_register(2)])
next
  case (step_complete_take g rid ch m' b)
  then have "waiting a rid = Some ch" using mux_takeD office_ofD(1) [OF assms(3)] by metis
  moreover have "office_of t (a\<lparr>waiting := (waiting a)(rid := None), boxes := (boxes a)(ch := Mail b)\<rparr>)"
    unfolding step_complete_take(1) using assms(2,3) step_complete_take(2,3) by (blast intro: office_of_take)
  ultimately show ?thesis by (blast intro: office_complete)
next
  case (step_cancel_take g rid ch m')
  then have "waiting a rid = Some ch" using mux_takeD office_ofD(1) [OF assms(3)] by metis
  moreover have "office_of t (a\<lparr>waiting := (waiting a)(rid := None), boxes := (boxes a)(ch := Gone)\<rparr>)"
    using office_of_take [OF assms(2,3) step_cancel_take(2,3), of "Closing ch" Gone _ "calls s"]
    by (simp add: step_cancel_take(1))
  ultimately show ?thesis by (blast intro: office_cancel)
next
  case (step_take_miss g rid m')
  then have "t = s" using mux_take_NoneD by fastforce
  with assms(3) show ?thesis by simp
next
  case (step_recv ch b m')
  then have "boxes a ch = Mail b"
    using chan_recvD [OF step_recv(2)] office_ofD(4) [OF assms(3)] by (auto simp: body_in_def)
  then have "office_step a (a\<lparr>boxes := (boxes a)(ch := Gone), fetched := (ch, b) # fetched a\<rparr>)"
    by (rule office_fetch)
  with office_of_recv [OF assms(2,3) step_recv(2)] show ?thesis unfolding step_recv(1) by blast
next
  case (step_offer g ch b m')
  then show ?thesis using office_of_offer [OF assms(2,3)] by simp
next
  case (step_close g ch m')
  then show ?thesis using office_of_close [OF assms(3)] by simp
qed (use mux_inv_no_panic [OF assms(2)] in simp_all)

interpretation mailbox: simulation mux_start mux_step office_start office_step office_of
  by (unfold_locales, erule office_of_start, rule office_of_step [OF _ mux_system.reachable_inv])

text \<open>
  C3. The interleaved multiplexer implements the office: whatever the schedule of its mutex sections and
  channel operations, the responses received so far, in their order, are the bodies an office can have handed
  out, with the same ids waiting; and on a channel that no goroutine is working on, a receive blocks, yields
  its body or reports the end exactly as the box of the office is waiting, full or emptied.
\<close>

theorem mux_refines_office:
  assumes "reach mux_start mux_step s"
  shows "\<exists>a. reach office_start office_step a \<and> waiting a = pending (the_mux s) \<and> fetched a = received s \<and>
    (\<forall>ch. (\<forall>g. \<not> holds (pcs s g) ch) \<longrightarrow>
       fst (chan_recv ch (the_mux s)) =
         (case boxes a ch of Waiting \<Rightarrow> Blocked | Mail b \<Rightarrow> Received b | Gone \<Rightarrow> Drained))"
proof -
  obtain a where a: "reach office_start office_step a" "office_of s a"
    using mailbox.simulated [OF assms] by blast
  have "fst (chan_recv ch (the_mux s)) =
      (case boxes a ch of Waiting \<Rightarrow> Blocked | Mail b \<Rightarrow> Received b | Gone \<Rightarrow> Drained)"
    if "\<forall>g. \<not> holds (pcs s g) ch" for ch
  proof -
    have f: "pcs s g \<noteq> Offering ch b" "pcs s g \<noteq> Closing ch" for g b
      using that by (auto simp: holds_def)
    then have m: "boxes a ch = Mail b \<longleftrightarrow> buf (chans (the_mux s) ch) = Some b" for b
      using office_ofD(4) [OF a(2)] by (simp add: body_in_def)
    have g: "boxes a ch = Gone \<longleftrightarrow> buf (chans (the_mux s) ch) = None \<and> closed (chans (the_mux s) ch)"
      using office_ofD(5) [OF a(2)] f(2) by (simp add: shut_def)
    show ?thesis
    proof (cases "buf (chans (the_mux s) ch)")
      case None
      with m have "boxes a ch \<noteq> Mail b" for b by simp
      with g None show ?thesis by (cases "boxes a ch") (auto simp: chan_recv_def)
    next
      case (Some b)
      with m [of b] show ?thesis by (simp add: chan_recv_def)
    qed
  qed
  with a(1) office_ofD(1,3) [OF a(2)] show ?thesis by (intro exI [of _ a]) blast
qed

theorem mux_refines_office_witness:
  "\<exists>a. reach office_start office_step a \<and> fetched a = [(0, 7 :: nat)] \<and> waiting a ''a'' = None"
  using mux_refines_office [OF demo_run] by (auto simp: demo_end_def demo_sys_def demo_mux_def)

end
