(* ===== verification/ToolOrg.thy ===== *)
theory ToolOrg
  imports GoValues
begin

section \<open>Tool organization (toolorg/toolorg.go, toolorg/merge.go)\<close>

text \<open>
  Groups, tags and display names of tools: inferred from the wire name when a connector publishes them,
  parsed back from the stored JSON, and merged with a tenant's overlay.
\<close>

record metadata =
  display_name :: string
  suggested_group :: string
  suggested_tags :: "string list"
  suggested_rank_key :: string

definition no_metadata :: metadata where
  "no_metadata = \<lparr>display_name = '''', suggested_group = '''', suggested_tags = [], suggested_rank_key = ''''\<rparr>"

definition default_group_labels :: "(string \<times> string) list" where
  "default_group_labels =
     [(''hierarchy'', ''Hierarchy''), (''tasks'', ''Tasks''), (''search_members'', ''Search & members''),
      (''comments'', ''Comments''), (''time'', ''Time tracking''), (''docs'', ''Docs''), (''chat'', ''Chat''),
      (''uncategorized'', ''Other'')]"

subsection \<open>Inference from the wire name\<close>

definition infer_group_id :: "string \<Rightarrow> string" where
  "infer_group_id body =
     (if contains body ''chat'' then ''chat''
      else if contains body ''doc'' then ''docs''
      else if contains body ''comment'' then ''comments''
      else if contains body ''time'' then ''time''
      else if body = ''search'' \<or> contains body ''member'' \<or> contains body ''assignee'' \<or>
              contains body ''filtered_team'' then ''search_members''
      else if contains body ''workspace'' \<or> contains body ''space'' \<or> contains body ''folder'' \<or>
              contains body ''hierarchy'' \<or> body = ''get_list'' \<or> has_prefix body ''get_lists'' \<or>
              has_prefix body ''create_list'' \<or> has_prefix body ''update_list'' \<or>
              has_prefix body ''create_folder'' \<or> has_prefix body ''update_folder'' then ''hierarchy''
      else ''tasks'')"

definition is_read_only_verb :: "string \<Rightarrow> bool" where
  "is_read_only_verb body \<longleftrightarrow>
     list_ex (\<lambda>p. has_prefix body p \<or> body = trim_suffix p ''_'')
       [''get_'', ''list_'', ''find_'', ''resolve_'', ''search'']"

definition normalize_tags :: "string list \<Rightarrow> string list" where
  "normalize_tags tags =
     sort (dedup_from [] (filter (\<lambda>t. t \<noteq> '''') (map (\<lambda>t. to_lower (trim_space t)) tags)))"

definition infer_tags :: "string \<Rightarrow> string \<Rightarrow> string list" where
  "infer_tags body group_id =
     normalize_tags
       [group_id, if is_read_only_verb body then ''read_only'' else ''mutating'',
        if contains body ''chat'' \<or> contains body ''doc'' then ''v3'' else ''v2'']"

definition suggest_from_wire_name :: "string \<Rightarrow> string \<times> string list" where
  "suggest_from_wire_name tool_name =
     (let name = to_lower (trim_space tool_name); parts = split_on CHR ''_'' name in
      if length parts < 2 then (''uncategorized'', [''mutating''])
      else (let body = join ''_'' (tl parts); g = infer_group_id body in (g, infer_tags body g)))"

definition upper_first :: "string \<Rightarrow> string" where
  \<comment> \<open>\<open>strings.ToUpper(s[:1]) + s[1:]\<close>\<close>
  "upper_first s = (case s of [] \<Rightarrow> [] | c # cs \<Rightarrow> upper_byte c @ cs)"

definition format_display_name :: "string \<Rightarrow> string" where
  "format_display_name tool_name =
     (let parts = split_on CHR ''_'' (trim_space tool_name) in
      if length parts \<le> 1 then tool_name
      else (let body = join '' '' (tl parts) in if body = '''' then tool_name else upper_first body))"

definition group_label :: "string \<Rightarrow> string" where
  "group_label g =
     (let gid = to_lower (trim_space g) in
      case map_of default_group_labels gid of
        Some l \<Rightarrow> l
      | None \<Rightarrow> join '' '' (map upper_first (split_on CHR ''_'' gid)))"

subsection \<open>Publishing\<close>

definition publisher_metadata :: "string \<Rightarrow> metadata \<Rightarrow> gomap" where
  "publisher_metadata tool_name ov =
     (let display0 = trim_space (display_name ov);
          display = (if display0 = '''' then format_display_name tool_name else display0);
          group0 = to_lower (trim_space (suggested_group ov));
          grp = (if group0 = '''' then fst (suggest_from_wire_name tool_name) else group0);
          tags = (if suggested_tags ov = [] then snd (suggest_from_wire_name tool_name) else suggested_tags ov);
          rk = trim_space (suggested_rank_key ov);
          m1 = (if display \<noteq> '''' then fmupd ''display_name'' (GStr display) fmempty else fmempty);
          m2 = (if grp \<noteq> '''' then fmupd ''suggested_group'' (GStr grp) m1 else m1);
          m3 = (if tags \<noteq> [] then fmupd ''suggested_tags'' (GStrs tags) m2 else m2)
      in if rk \<noteq> '''' then fmupd ''suggested_rank_key'' (GStr rk) m3 else m3)"

definition default_publisher_metadata :: "string \<Rightarrow> gomap" where
  "default_publisher_metadata tool_name = publisher_metadata tool_name no_metadata"

subsection \<open>Reading and merging\<close>

definition normalize_group_id :: "string \<Rightarrow> string" where
  "normalize_group_id g = replace_byte (to_lower (trim_space g)) CHR '' '' CHR ''_''"

text \<open>
  \<open>ParseMetadata\<close> ignores the error of \<open>Unmarshal\<close>. A field of the wrong type is then skipped and the
  others are still read, so each field is decoded on its own.
\<close>

definition lenient_field ::
    "('a \<Rightarrow> json \<Rightarrow> 'a option) \<Rightarrow> string \<Rightarrow> 'a \<Rightarrow> (string \<times> json) list \<Rightarrow> 'a" where
  "lenient_field dec name zero ms =
     fold (\<lambda>(k, v) acc. if equal_fold k name then (case dec acc v of None \<Rightarrow> acc | Some a \<Rightarrow> a) else acc)
       ms zero"

text \<open>In a string slice, elements of the wrong type are left empty.\<close>

definition dec_tags :: "string list \<Rightarrow> json \<Rightarrow> string list option" where
  "dec_tags old v =
     (case v of
        JArr vs \<Rightarrow> Some (map (\<lambda>x. case x of JStr s \<Rightarrow> s | _ \<Rightarrow> '''') vs)
      | JNull \<Rightarrow> Some []
      | _ \<Rightarrow> None)"

definition parse_metadata :: "json option \<Rightarrow> metadata" where
  \<comment> \<open>\<open>None\<close> is an empty or invalid text\<close>
  "parse_metadata raw =
     (let ms = (case raw of Some (JObj ms) \<Rightarrow> ms | _ \<Rightarrow> []) in
      \<lparr>display_name = lenient_field dec_string ''display_name'' '''' ms,
       suggested_group = normalize_group_id (lenient_field dec_string ''suggested_group'' '''' ms),
       suggested_tags = normalize_tags (lenient_field dec_tags ''suggested_tags'' [] ms),
       suggested_rank_key = lenient_field dec_string ''suggested_rank_key'' '''' ms\<rparr>)"

definition metadata_entry_empty :: "string \<Rightarrow> goval \<Rightarrow> bool" where
  "metadata_entry_empty k v \<longleftrightarrow>
     (if v = GNil then True
      else if k = ''suggested_tags'' then
        (case v of GArr vs \<Rightarrow> vs = [] | GStrs ss \<Rightarrow> ss = [] | _ \<Rightarrow> True)
      else (case v of GStr s \<Rightarrow> trim_space s = '''' | _ \<Rightarrow> True))"

definition metadata_is_empty :: "gomap \<Rightarrow> bool" where
  "metadata_is_empty m \<longleftrightarrow>
     list_all (\<lambda>k. metadata_entry_empty k (get_any m k)) (sorted_list_of_fset (fmdom m))"

record effective_organization =
  eo_group_id :: string
  eo_group_label :: string
  eo_rank_key :: string
  eo_tags :: "string list"

definition merge_effective ::
    "metadata \<Rightarrow> string option \<Rightarrow> string option \<Rightarrow> effective_organization" where
  "merge_effective published overlay_group overlay_rank =
     (let g0 = trim_space (suggested_group published);
          g = (case overlay_group of
                 Some og \<Rightarrow> if normalize_group_id og \<noteq> '''' then normalize_group_id og else g0
               | None \<Rightarrow> g0);
          rk0 = trim_space (suggested_rank_key published);
          rk = (case overlay_rank of
                  Some r \<Rightarrow> if trim_space r \<noteq> '''' then trim_space r else rk0
                | None \<Rightarrow> rk0)
      in \<lparr>eo_group_id = g, eo_group_label = group_label g, eo_rank_key = rk,
          eo_tags = suggested_tags published\<rparr>)"

subsection \<open>Tags\<close>

lemma set_normalize_tags:
  "set (normalize_tags tags) = {t. \<exists>x \<in> set tags. t = to_lower (trim_space x)} - {''''}"
  by (auto simp: normalize_tags_def)

lemma sorted_normalize_tags: "sorted (normalize_tags tags)" "distinct (normalize_tags tags)"
  by (simp_all add: normalize_tags_def)

lemma normalize_tags_noop:
  assumes "sorted tags" "distinct tags" "\<And>t. t \<in> set tags \<Longrightarrow> t \<noteq> '''' \<and> to_lower (trim_space t) = t"
  shows "normalize_tags tags = tags"
proof -
  have "map (\<lambda>t. to_lower (trim_space t)) tags = tags" using assms(3) by (simp add: map_idI)
  moreover have "filter (\<lambda>t. t \<noteq> '''') tags = tags" using assms(3) by (simp add: filter_id_conv)
  ultimately show ?thesis using assms(1,2)
    by (simp add: normalize_tags_def dedup_from_distinct sorted_sort_id)
qed


subsection \<open>What the inference gives\<close>

lemma infer_group_known: "infer_group_id body \<in> set (map fst default_group_labels)"
  by (simp add: infer_group_id_def default_group_labels_def)

definition plain_tags :: "string list" where
  "plain_tags = [''hierarchy'', ''tasks'', ''search_members'', ''comments'', ''time'', ''docs'', ''chat'',
     ''uncategorized'', ''read_only'', ''mutating'', ''v2'', ''v3'']"

lemma plain_tags_normal: "list_all (\<lambda>t. to_lower (trim_space t) = t \<and> t \<noteq> '''') plain_tags"
  by code_simp

lemma set_infer_tags:
  "set (infer_tags body (infer_group_id body)) =
     {infer_group_id body, if is_read_only_verb body then ''read_only'' else ''mutating'',
      if contains body ''chat'' \<or> contains body ''doc'' then ''v3'' else ''v2''}"
proof -
  have n: "to_lower (trim_space t) = t \<and> t \<noteq> ''''" if "t \<in> set plain_tags" for t
    using plain_tags_normal that unfolding list_all_iff by blast
  have "infer_group_id body \<in> set plain_tags"
    using infer_group_known [of body] by (auto simp: default_group_labels_def plain_tags_def)
  moreover have "''read_only'' \<in> set plain_tags" "''mutating'' \<in> set plain_tags"
    "''v2'' \<in> set plain_tags" "''v3'' \<in> set plain_tags" by (simp_all add: plain_tags_def)
  moreover have "[] \<notin> set plain_tags" using n by blast
  ultimately show ?thesis
    unfolding infer_tags_def set_normalize_tags by (auto simp: n split: if_splits)
qed

lemma read_only_verb_iff:
  "is_read_only_verb body \<longleftrightarrow>
     (\<exists>p \<in> {''get_'', ''list_'', ''find_'', ''resolve_'', ''search''}. has_prefix body p) \<or>
     body \<in> {''get'', ''list'', ''find'', ''resolve''}"
proof -
  have "trim_suffix ''get_'' ''_'' = ''get''" "trim_suffix ''list_'' ''_'' = ''list''"
    "trim_suffix ''find_'' ''_'' = ''find''" "trim_suffix ''resolve_'' ''_'' = ''resolve''"
    "trim_suffix ''search'' ''_'' = ''search''" by code_simp+
  note names = this
  have "has_prefix ''search'' ''search''" by code_simp
  then have search: "has_prefix body ''search'' \<or> body = ''search'' \<longleftrightarrow> has_prefix body ''search''" by blast
  show ?thesis
    by (simp only: is_read_only_verb_def list_ex_iff list.set Set.bex_simps names search insert_iff empty_iff simp_thms)
      (simp only: disj_ac)
qed

text \<open>
  C28. The inference from a wire name always gives a group that has a label, and tags that are sorted,
  without duplicates, and say exactly one of \<open>read_only\<close> and \<open>mutating\<close>; no tag is any other word than
  the group, these two, \<open>v2\<close> and \<open>v3\<close>. A name without a vendor prefix is uncategorized and mutating; any
  other is tagged with its group, with \<open>read_only\<close> exactly when its body is a read-only verb, and with
  \<open>v3\<close> exactly when its body mentions chat or docs, else \<open>v2\<close>, and with nothing else.
\<close>

theorem suggestion_well_formed:
  "fst (suggest_from_wire_name n) \<in> set (map fst default_group_labels) \<and>
   sorted (snd (suggest_from_wire_name n)) \<and> distinct (snd (suggest_from_wire_name n)) \<and>
   (''read_only'' \<in> set (snd (suggest_from_wire_name n))) \<noteq> (''mutating'' \<in> set (snd (suggest_from_wire_name n))) \<and>
   set (snd (suggest_from_wire_name n)) \<subseteq>
     {fst (suggest_from_wire_name n), ''read_only'', ''mutating'', ''v2'', ''v3''} \<and>
   (if length (split_on CHR ''_'' (to_lower (trim_space n))) < 2
    then suggest_from_wire_name n = (''uncategorized'', [''mutating''])
    else fst (suggest_from_wire_name n) \<in> set (snd (suggest_from_wire_name n)) \<and>
      (''v2'' \<in> set (snd (suggest_from_wire_name n))) \<noteq> (''v3'' \<in> set (snd (suggest_from_wire_name n))) \<and>
      (let body = join ''_'' (tl (split_on CHR ''_'' (to_lower (trim_space n)))) in
       (''read_only'' \<in> set (snd (suggest_from_wire_name n)) \<longleftrightarrow>
          (\<exists>p \<in> {''get_'', ''list_'', ''find_'', ''resolve_'', ''search''}. has_prefix body p) \<or>
          body \<in> {''get'', ''list'', ''find'', ''resolve''}) \<and>
       (''v3'' \<in> set (snd (suggest_from_wire_name n)) \<longleftrightarrow> contains body ''chat'' \<or> contains body ''doc'')))"
proof (cases "length (split_on CHR ''_'' (to_lower (trim_space n))) < 2")
  case True
  then show ?thesis by (simp add: suggest_from_wire_name_def Let_def default_group_labels_def)
next
  case False
  let ?b = "join ''_'' (tl (split_on CHR ''_'' (to_lower (trim_space n))))"
  let ?g = "infer_group_id ?b"
  have s: "suggest_from_wire_name n = (?g, infer_tags ?b ?g)"
    using False by (simp add: suggest_from_wire_name_def Let_def)
  have g: "?g \<in> {''hierarchy'', ''tasks'', ''search_members'', ''comments'', ''time'', ''docs'', ''chat'', ''uncategorized''}"
    using infer_group_known [of ?b] by (simp add: default_group_labels_def)
  then have ne: "?g \<noteq> ''read_only''" "?g \<noteq> ''mutating''" "?g \<noteq> ''v2''" "?g \<noteq> ''v3''"
    by auto
  have "sorted (infer_tags ?b ?g)" "distinct (infer_tags ?b ?g)"
    by (simp_all add: infer_tags_def sorted_normalize_tags)
  with False ne infer_group_known [of ?b] show ?thesis
    unfolding s fst_conv snd_conv set_infer_tags Let_def read_only_verb_iff [symmetric] by auto
qed

subsection \<open>Publishing and reading back\<close>

lemma lenient_field_skip:
  "\<forall>k \<in> fst ` set ms. \<not> equal_fold k name \<Longrightarrow> lenient_field dec name z ms = z"
  unfolding lenient_field_def by (induction ms arbitrary: z) auto

lemma lenient_field_unique:
  assumes "distinct (map fst ms)" "\<And>k. k \<in> fst ` set ms \<Longrightarrow> equal_fold k name \<longleftrightarrow> k = name"
  shows "lenient_field dec name z ms =
    (case map_of ms name of None \<Rightarrow> z | Some v \<Rightarrow> (case dec z v of None \<Rightarrow> z | Some a \<Rightarrow> a))"
  using assms
proof (induction ms arbitrary: z)
  case Nil
  then show ?case by (simp add: lenient_field_def)
next
  case (Cons kv ms)
  obtain k v where kv: "kv = (k, v)" by (cases kv)
  have step: "lenient_field dec name z (kv # ms) = lenient_field dec name
      (if equal_fold k name then (case dec z v of None \<Rightarrow> z | Some a \<Rightarrow> a) else z) ms"
    by (simp add: lenient_field_def kv)
  show ?case
  proof (cases "k = name")
    case True
    with Cons.prems kv have "\<forall>j \<in> fst ` set ms. \<not> equal_fold j name" by auto
    with True kv show ?thesis unfolding step by (simp add: lenient_field_skip)
  next
    case False
    with Cons.prems kv have "\<not> equal_fold k name" by auto
    then have "lenient_field dec name z (kv # ms) = lenient_field dec name z ms" unfolding step by simp
    with Cons False kv show ?thesis by simp
  qed
qed

definition metadata_fields :: "string list" where
  "metadata_fields = [''display_name'', ''suggested_group'', ''suggested_tags'', ''suggested_rank_key'']"

lemma metadata_fields_fold:
  "list_all (\<lambda>a. list_all (\<lambda>b. equal_fold a b \<longleftrightarrow> a = b) metadata_fields) metadata_fields"
  by code_simp

lemma publisher_metadata_fields: "fmdom' (publisher_metadata n ov) \<subseteq> set metadata_fields"
  by (auto simp: publisher_metadata_def metadata_fields_def Let_def split: if_splits)

lemma read_back_field:
  assumes "name \<in> set metadata_fields"
  shows "lenient_field dec name z (map_members (fmmap to_json (publisher_metadata n ov))) =
    (case fmlookup (publisher_metadata n ov) name of
       None \<Rightarrow> z | Some v \<Rightarrow> (case dec z (to_json v) of None \<Rightarrow> z | Some a \<Rightarrow> a))"
proof -
  let ?m = "publisher_metadata n ov" and ?ms = "map_members (fmmap to_json (publisher_metadata n ov))"
  have k: "equal_fold k name \<longleftrightarrow> k = name" if "k \<in> fst ` set ?ms" for k
  proof -
    have "k \<in> fmdom' ?m" using that by (auto simp: set_map_members intro: fmdom'I)
    then have "k \<in> set metadata_fields" using publisher_metadata_fields by blast
    with assms show ?thesis using metadata_fields_fold by (simp only: list_all_iff)
  qed
  have "map_of ?ms name = fmlookup (fmmap to_json ?m) name"
  proof (cases "fmlookup (fmmap to_json ?m) name")
    case None
    then show ?thesis by (auto simp: map_of_eq_None_iff set_map_members)
  next
    case (Some v)
    then have "(name, v) \<in> set ?ms" by (simp only: set_map_members)
    then have "map_of ?ms name = Some v" by (simp add: map_of_is_SomeI)
    with Some show ?thesis by (simp only:)
  qed
  with lenient_field_unique [of ?ms name dec z] k show ?thesis
    by (simp add: option.case_eq_if option.map_sel)
qed

lemma publisher_metadata_lookup:
  "fmlookup (publisher_metadata n ov) ''display_name'' =
     (let d = (if trim_space (display_name ov) = '''' then format_display_name n else trim_space (display_name ov))
      in if d = '''' then None else Some (GStr d))"
  "fmlookup (publisher_metadata n ov) ''suggested_group'' =
     (let g = (if to_lower (trim_space (suggested_group ov)) = '''' then fst (suggest_from_wire_name n)
               else to_lower (trim_space (suggested_group ov)))
      in if g = '''' then None else Some (GStr g))"
  "fmlookup (publisher_metadata n ov) ''suggested_tags'' =
     (let t = (if suggested_tags ov = [] then snd (suggest_from_wire_name n) else suggested_tags ov)
      in if t = [] then None else Some (GStrs t))"
  "fmlookup (publisher_metadata n ov) ''suggested_rank_key'' =
     (if trim_space (suggested_rank_key ov) = '''' then None
      else Some (GStr (trim_space (suggested_rank_key ov))))"
  by (simp_all add: publisher_metadata_def Let_def)

lemma read_back_string:
  assumes "name \<in> set metadata_fields"
    and "fmlookup (publisher_metadata n ov) name = (if s = [] then None else Some (GStr s))"
  shows "lenient_field dec_string name [] (map_members (fmmap to_json (publisher_metadata n ov))) = s"
  unfolding read_back_field [OF assms(1)] assms(2) by simp

text \<open>What is suggested is in normal form already.\<close>

lemma suggestion_normal:
  "normalize_group_id (fst (suggest_from_wire_name n)) = fst (suggest_from_wire_name n)"
  "normalize_tags (snd (suggest_from_wire_name n)) = snd (suggest_from_wire_name n)"
proof -
  let ?parts = "split_on CHR ''_'' (to_lower (trim_space n))"
  let ?b = "join ''_'' (tl ?parts)"
  have labels: "list_all (\<lambda>g. normalize_group_id g = g) (map fst default_group_labels)" by code_simp
  have known: "fst (suggest_from_wire_name n) \<in> set (map fst default_group_labels)"
    using infer_group_known by (simp add: suggest_from_wire_name_def Let_def) (simp add: default_group_labels_def)
  from labels known show "normalize_group_id (fst (suggest_from_wire_name n)) = fst (suggest_from_wire_name n)"
    unfolding list_all_iff by blast
  have tags: "set (snd (suggest_from_wire_name n)) \<subseteq> set plain_tags"
  proof (cases "length ?parts < 2")
    case True
    then show ?thesis by (simp add: suggest_from_wire_name_def plain_tags_def Let_def)
  next
    case False
    then have "snd (suggest_from_wire_name n) = infer_tags ?b (infer_group_id ?b)"
      by (simp add: suggest_from_wire_name_def Let_def)
    moreover have "infer_group_id ?b \<in> set plain_tags"
      using infer_group_known [of ?b] by (auto simp: default_group_labels_def plain_tags_def)
    ultimately show ?thesis by (simp add: set_infer_tags) (simp add: plain_tags_def)
  qed
  have "sorted (snd (suggest_from_wire_name n)) \<and> distinct (snd (suggest_from_wire_name n))"
    by (simp add: suggest_from_wire_name_def Let_def infer_tags_def sorted_normalize_tags)
  with tags plain_tags_normal show "normalize_tags (snd (suggest_from_wire_name n)) = snd (suggest_from_wire_name n)"
    by (intro normalize_tags_noop) (auto simp: list_all_iff)
qed

lemma normalize_tags_set:
  "normalize_tags tags = sorted_list_of_set ({t. \<exists>x \<in> set tags. t = to_lower (trim_space x)} - {''''})"
  unfolding set_normalize_tags [symmetric]
  by (metis sorted_list_of_set.idem_if_sorted_distinct sorted_normalize_tags)

text \<open>
  C29. What is read back of what is published, through the stored JSON of a tool's publish metadata. The
  display name and the rank key are the trimmed ones the connector gives, and without a display name the one
  made of the wire name. The group and the tags come back in normal form: a group the connector gives is
  trimmed and in lower case, with its spaces replaced by underscores, so \<open>Foo bar\<close> is read as \<open>foo_bar\<close>, and
  the tags it gives are the sorted distinct words they are when trimmed and in lower case, without blank ones.
  A group or tags it does not give are exactly those that the wire name suggests.
\<close>

theorem publish_parse_roundtrip:
  "parse_metadata (Some (to_json (GMap (publisher_metadata n ov)))) =
     \<lparr>display_name = (if trim_space (display_name ov) = '''' then format_display_name n
                      else trim_space (display_name ov)),
      suggested_group =
        (if trim_space (suggested_group ov) = '''' then fst (suggest_from_wire_name n)
         else map (\<lambda>c. if c = CHR '' '' then CHR ''_'' else c)
           (to_lower (trim_space (to_lower (trim_space (suggested_group ov)))))),
      suggested_tags =
        (if suggested_tags ov = [] then snd (suggest_from_wire_name n)
         else sorted_list_of_set ({t. \<exists>x \<in> set (suggested_tags ov). t = to_lower (trim_space x)} - {''''})),
      suggested_rank_key = trim_space (suggested_rank_key ov)\<rparr>"
proof -
  have f: "''display_name'' \<in> set metadata_fields" "''suggested_group'' \<in> set metadata_fields"
    "''suggested_tags'' \<in> set metadata_fields" "''suggested_rank_key'' \<in> set metadata_fields"
    by (simp_all add: metadata_fields_def)
  let ?ms = "map_members (fmmap to_json (publisher_metadata n ov))"
  have "lenient_field dec_string ''display_name'' [] ?ms =
      (if trim_space (display_name ov) = [] then format_display_name n else trim_space (display_name ov))"
    by (rule read_back_string [OF f(1)]) (simp only: publisher_metadata_lookup Let_def)
  moreover have "lenient_field dec_string ''suggested_group'' [] ?ms =
      (if to_lower (trim_space (suggested_group ov)) = [] then fst (suggest_from_wire_name n)
       else to_lower (trim_space (suggested_group ov)))"
    by (rule read_back_string [OF f(2)]) (simp only: publisher_metadata_lookup Let_def)
  moreover have "lenient_field dec_string ''suggested_rank_key'' [] ?ms = trim_space (suggested_rank_key ov)"
    by (rule read_back_string [OF f(4)]) (simp only: publisher_metadata_lookup Let_def)
  moreover have "lenient_field dec_tags ''suggested_tags'' [] ?ms =
      (if suggested_tags ov = [] then snd (suggest_from_wire_name n) else suggested_tags ov)"
    unfolding read_back_field [OF f(3)] publisher_metadata_lookup Let_def
    by (simp add: dec_tags_def o_def)
  ultimately have "parse_metadata (Some (to_json (GMap (publisher_metadata n ov)))) =
     \<lparr>display_name = (if trim_space (display_name ov) = '''' then format_display_name n
                      else trim_space (display_name ov)),
      suggested_group = normalize_group_id
        (if to_lower (trim_space (suggested_group ov)) = '''' then fst (suggest_from_wire_name n)
         else to_lower (trim_space (suggested_group ov))),
      suggested_tags = normalize_tags
        (if suggested_tags ov = [] then snd (suggest_from_wire_name n) else suggested_tags ov),
      suggested_rank_key = trim_space (suggested_rank_key ov)\<rparr>"
    by (simp only: parse_metadata_def to_json.simps option.case json.case Let_def)
  then show ?thesis
    unfolding if_distrib [of normalize_group_id] if_distrib [of normalize_tags] suggestion_normal
    by (simp only: normalize_group_id_def replace_byte_def normalize_tags_set to_lower_eq_Nil)
qed

end
