(* ===== verification/Sha256.thy ===== *)
theory Sha256
  imports GoValues "HOL-Library.Word"
begin

section \<open>SHA-256 and HMAC\<close>

text \<open>
  The two digests of the Go standard library that the source calls: \<open>sha256.Sum256\<close> (cache keys) and
  \<open>hmac.New(sha256.New, key)\<close> (signed ingress), over byte strings, with the 32-bit arithmetic of the
  standard (FIPS 180-4, RFC 2104) on \<open>32 word\<close>. \<open>hex.EncodeToString\<close> and its inverse are here too.
\<close>

unbundle bit_operations_syntax

type_synonym w32 = "32 word"

subsection \<open>Bytes and words\<close>

definition word_of_bytes :: "char \<Rightarrow> char \<Rightarrow> char \<Rightarrow> char \<Rightarrow> w32" where
  "word_of_bytes a b c d =
     word_of_nat (((of_char a * 256 + of_char b) * 256 + of_char c) * 256 + of_char d)"

fun words_of_bytes :: "string \<Rightarrow> w32 list" where
  "words_of_bytes (a # b # c # d # bs) = word_of_bytes a b c d # words_of_bytes bs"
| "words_of_bytes _ = []"

text \<open>The last \<open>k\<close> bytes of a number, most significant first.\<close>

fun big_endian_bytes :: "nat \<Rightarrow> nat \<Rightarrow> string" where
  "big_endian_bytes 0 n = []"
| "big_endian_bytes (Suc k) n = big_endian_bytes k (n div 256) @ [char_of n]"

definition bytes_of_word :: "w32 \<Rightarrow> string" where
  "bytes_of_word w = big_endian_bytes 4 (unat w)"

subsection \<open>The compression function\<close>

definition rotr :: "nat \<Rightarrow> w32 \<Rightarrow> w32" where
  "rotr n w = (drop_bit n w) OR (push_bit (32 - n) w)"

definition round_constants :: "w32 list" where
  "round_constants = [
    1116352408, 1899447441, 3049323471, 3921009573, 961987163, 1508970993,
    2453635748, 2870763221, 3624381080, 310598401, 607225278, 1426881987,
    1925078388, 2162078206, 2614888103, 3248222580, 3835390401, 4022224774,
    264347078, 604807628, 770255983, 1249150122, 1555081692, 1996064986,
    2554220882, 2821834349, 2952996808, 3210313671, 3336571891, 3584528711,
    113926993, 338241895, 666307205, 773529912, 1294757372, 1396182291,
    1695183700, 1986661051, 2177026350, 2456956037, 2730485921, 2820302411,
    3259730800, 3345764771, 3516065817, 3600352804, 4094571909, 275423344,
    430227734, 506948616, 659060556, 883997877, 958139571, 1322822218,
    1537002063, 1747873779, 1955562222, 2024104815, 2227730452, 2361852424,
    2428436474, 2756734187, 3204031479, 3329325298]"

definition initial_hash :: "w32 list" where
  "initial_hash = [1779033703, 3144134277, 1013904242, 2773480762, 1359893119, 2600822924, 528734635, 1541459225]"

text \<open>
  The message schedule, kept as the last sixteen words with the newest first: word \<open>t\<close> is made of the
  words 2, 7, 15 and 16 places before it.
\<close>

definition schedule_word :: "w32 list \<Rightarrow> w32" where
  "schedule_word ws =
     (let w2 = ws ! 1; w7 = ws ! 6; w15 = ws ! 14; w16 = ws ! 15;
          s0 = rotr 7 w15 XOR rotr 18 w15 XOR drop_bit 3 w15;
          s1 = rotr 17 w2 XOR rotr 19 w2 XOR drop_bit 10 w2
      in w16 + s0 + w7 + s1)"

fun schedule :: "nat \<Rightarrow> w32 list \<Rightarrow> w32 list" where
  \<comment> \<open>the argument is the schedule so far, newest word first\<close>
  "schedule 0 ws = rev ws"
| "schedule (Suc n) ws = schedule n (schedule_word ws # ws)"

type_synonym hash_state = "w32 \<times> w32 \<times> w32 \<times> w32 \<times> w32 \<times> w32 \<times> w32 \<times> w32"

definition sha_round :: "w32 \<Rightarrow> w32 \<Rightarrow> hash_state \<Rightarrow> hash_state" where
  "sha_round k w st =
     (case st of (a, b, c, d, e, f, g, h) \<Rightarrow>
        let s1 = rotr 6 e XOR rotr 11 e XOR rotr 25 e;
            ch = (e AND f) XOR (NOT e AND g);
            t1 = h + s1 + ch + k + w;
            s0 = rotr 2 a XOR rotr 13 a XOR rotr 22 a;
            maj = (a AND b) XOR (a AND c) XOR (b AND c);
            t2 = s0 + maj
        in (t1 + t2, a, b, c, d + t1, e, f, g))"

fun sha_rounds :: "w32 list \<Rightarrow> w32 list \<Rightarrow> hash_state \<Rightarrow> hash_state" where
  "sha_rounds (k # ks) (w # ws) st = sha_rounds ks ws (sha_round k w st)"
| "sha_rounds _ _ st = st"

definition compress :: "w32 list \<Rightarrow> w32 list \<Rightarrow> w32 list" where
  \<comment> \<open>a block of sixteen words into the running hash of eight\<close>
  "compress block hash =
     (let st = (hash ! 0, hash ! 1, hash ! 2, hash ! 3, hash ! 4, hash ! 5, hash ! 6, hash ! 7) in
      case sha_rounds round_constants (schedule 48 (rev block)) st of
        (a, b, c, d, e, f, g, h) \<Rightarrow> map2 (+) hash [a, b, c, d, e, f, g, h])"

subsection \<open>Padding and the digest\<close>

definition sha_pad :: "string \<Rightarrow> string" where
  "sha_pad msg =
     msg @ [CHR 0x80] @ replicate ((119 - length msg mod 64) mod 64) (char_of (0 :: nat))
       @ big_endian_bytes 8 (8 * length msg)"

function sha_blocks :: "w32 list \<Rightarrow> w32 list \<Rightarrow> w32 list" where
  "sha_blocks hash ws =
     (if length ws < 16 then hash else sha_blocks (compress (take 16 ws) hash) (drop 16 ws))"
  by pat_completeness auto

termination
  by (relation "measure (length \<circ> snd)") auto

declare sha_blocks.simps [simp del]

definition sum256 :: "string \<Rightarrow> string" where
  "sum256 msg = concat (map bytes_of_word (sha_blocks initial_hash (words_of_bytes (sha_pad msg))))"

definition xor_byte :: "nat \<Rightarrow> char \<Rightarrow> char" where
  "xor_byte n c = char_of (of_char c XOR n)"

definition hmac_sha256 :: "string \<Rightarrow> string \<Rightarrow> string" where
  "hmac_sha256 key msg =
     (let k0 = (if 64 < length key then sum256 key else key);
          k = k0 @ replicate (64 - length k0) (char_of (0 :: nat))
      in sum256 (map (xor_byte 0x5c) k @ sum256 (map (xor_byte 0x36) k @ msg)))"

subsection \<open>Their lengths\<close>

lemma length_big_endian_bytes [simp]: "length (big_endian_bytes k n) = k"
  by (induction k arbitrary: n) auto

lemma length_bytes_of_word [simp]: "length (bytes_of_word w) = 4"
  by (simp add: bytes_of_word_def)

lemma length_compress: "length hash = 8 \<Longrightarrow> length (compress block hash) = 8"
  by (simp add: compress_def Let_def split: prod.splits)

lemma length_sha_blocks: "length hash = 8 \<Longrightarrow> length (sha_blocks hash ws) = 8"
proof (induction hash ws rule: sha_blocks.induct)
  case (1 hash ws)
  then show ?case
    by (cases "length ws < 16") (simp_all add: sha_blocks.simps [of hash ws] length_compress)
qed

lemma length_sum256 [simp]: "length (sum256 msg) = 32"
proof -
  have "length (concat (map bytes_of_word ws)) = 4 * length ws" for ws
    by (induction ws) auto
  then show ?thesis
    by (simp add: sum256_def length_sha_blocks initial_hash_def)
qed

lemma length_hmac_sha256 [simp]: "length (hmac_sha256 key msg) = 32"
  by (simp add: hmac_sha256_def Let_def)

text \<open>The padding fills whole blocks of 64 bytes.\<close>

lemma sha_pad_blocks: "64 dvd length (sha_pad msg)"
proof -
  let ?n = "length msg"
  define r where "r = ?n mod 64"
  have r: "r < 64" "?n = 64 * (?n div 64) + r" by (simp_all add: r_def)
  have "64 dvd r + 1 + (119 - r) mod 64 + 8"
  proof (cases "r \<le> 55")
    case True
    then have "119 - r = (55 - r) + 64" by simp
    then have "(119 - r) mod 64 = 55 - r" by (simp only: mod_add_self2) simp
    moreover have "r + 1 + (55 - r) + 8 = 64" using True by simp
    ultimately show ?thesis by (simp only: dvd_refl)
  next
    case False
    with r(1) have "(119 - r) mod 64 = 119 - r" by (intro mod_less) simp
    moreover have "r + 1 + (119 - r) + 8 = 64 * 2" using r(1) by simp
    ultimately show ?thesis by (simp only: dvd_triv_left)
  qed
  then have "64 dvd 64 * (?n div 64) + (r + 1 + (119 - r) mod 64 + 8)" by simp
  with r(2) have "64 dvd ?n + 1 + (119 - r) mod 64 + 8" by (metis add.assoc)
  then show ?thesis by (simp add: sha_pad_def r_def ac_simps)
qed

subsection \<open>Hexadecimal\<close>

definition hex_digit :: "nat \<Rightarrow> char" where
  "hex_digit n = ''0123456789abcdef'' ! (n mod 16)"

definition hex_encode :: "string \<Rightarrow> string" where
  "hex_encode s = concat (map (\<lambda>c. let n = (of_char c :: nat) in [hex_digit (n div 16), hex_digit n]) s)"

fun hex_value :: "char \<Rightarrow> nat option" where
  "hex_value c = (let n = (of_char c :: nat) in
     if 48 \<le> n \<and> n \<le> 57 then Some (n - 48)
     else if 97 \<le> n \<and> n \<le> 102 then Some (n - 87)
     else if 65 \<le> n \<and> n \<le> 70 then Some (n - 55) else None)"

fun hex_decode :: "string \<Rightarrow> string option" where
  "hex_decode [] = Some []"
| "hex_decode (a # b # s) =
     (case (hex_value a, hex_value b) of
        (Some x, Some y) \<Rightarrow> map_option (Cons (char_of (16 * x + y))) (hex_decode s)
      | _ \<Rightarrow> None)"
| "hex_decode _ = None"

lemma hex_digit_values:
  "map (\<lambda>n. hex_value (hex_digit n)) [0..<16] = map Some [0..<16]"
  by code_simp

lemma hex_value_digit [simp]: "hex_value (hex_digit n) = Some (n mod 16)"
proof -
  have "hex_value (hex_digit m) = Some m" if "m < 16" for m
    using arg_cong [OF hex_digit_values, of "\<lambda>xs. xs ! m"] that by simp
  from this [of "n mod 16"] show ?thesis by (simp add: hex_digit_def)
qed

lemma hex_encode_simps [simp]:
  "hex_encode [] = []"
  "hex_encode (c # s) = hex_digit (of_char c div 16) # hex_digit (of_char c) # hex_encode s"
  by (simp_all add: hex_encode_def Let_def)

lemma length_hex_encode [simp]: "length (hex_encode s) = 2 * length s"
  by (induction s) auto

lemma hex_decode_encode [simp]: "hex_decode (hex_encode s) = Some s"
proof (induction s)
  case (Cons c s)
  have "(of_char c :: nat) < 256" by simp
  then have "(of_char c :: nat) div 16 < 16" by linarith
  then have "(of_char c :: nat) div 16 mod 16 * 16 + of_char c mod 16 = of_char c"
    by (simp only: mod_less div_mult_mod_eq)
  with Cons show ?case by (simp add: mult.commute del: hex_value.simps)
qed simp

lemma hex_encode_inj: "hex_encode s = hex_encode t \<longleftrightarrow> s = t"
  by (metis hex_decode_encode option.inject)

lemma set_hex_encode: "c \<in> set (hex_encode s) \<Longrightarrow> hex_value c \<noteq> None"
  by (induction s) (auto simp del: hex_value.simps)


end
