(* ===== verification/GoUrl.thy ===== *)
theory GoUrl
  imports Sha256
begin

section \<open>Percent-encoding and quoting\<close>

text \<open>
  \<open>url.PathEscape\<close>, \<open>url.QueryEscape\<close> and \<open>url.Values.Encode\<close> of the Go standard library on byte strings, with the
  inverse of the path form. A byte is kept when the mode allows it and written as \<open>%XX\<close> with capital
  hexadecimal digits otherwise; the query form writes a space as a plus sign.
\<close>

definition unreserved :: "char \<Rightarrow> bool" where
  "unreserved c =
     (let n = (of_char c :: nat) in
      48 \<le> n \<and> n \<le> 57 \<or> 65 \<le> n \<and> n \<le> 90 \<or> 97 \<le> n \<and> n \<le> 122 \<or> c \<in> set ''-_.~'')"

definition upper_hex_digit :: "nat \<Rightarrow> char" where
  "upper_hex_digit n = ''0123456789ABCDEF'' ! (n mod 16)"

definition percent :: "char \<Rightarrow> string" where
  "percent c = [CHR ''%'', upper_hex_digit (of_char c div 16), upper_hex_digit (of_char c)]"

definition path_escape :: "string \<Rightarrow> string" where
  "path_escape s = concat (map (\<lambda>c. if unreserved c \<or> c \<in> set ''$&+:=@'' then [c] else percent c) s)"

definition query_escape :: "string \<Rightarrow> string" where
  "query_escape s =
     concat (map (\<lambda>c. if unreserved c then [c] else if c = CHR '' '' then ''+'' else percent c) s)"

definition values_encode :: "(string, string) fmap \<Rightarrow> string" where
  \<comment> \<open>one value per key, in the order of the keys\<close>
  "values_encode q =
     join ''&'' (map (\<lambda>k. query_escape k @ ''='' @
       query_escape (case fmlookup q k of None \<Rightarrow> '''' | Some v \<Rightarrow> v)) (sorted_list_of_fset (fmdom q)))"

fun path_unescape :: "string \<Rightarrow> string option" where
  "path_unescape [] = Some []"
| "path_unescape (c # s) =
     (if c = CHR ''%'' then
        (case s of
           a # b # t \<Rightarrow>
             (case (hex_value a, hex_value b) of
                (Some x, Some y) \<Rightarrow> map_option (Cons (char_of (16 * x + y))) (path_unescape t)
              | _ \<Rightarrow> None)
         | _ \<Rightarrow> None)
      else map_option (Cons c) (path_unescape s))"

lemma upper_hex_values:
  "map (\<lambda>n. hex_value (upper_hex_digit n)) [0..<16] = map Some [0..<16]"
  by code_simp

lemma hex_value_upper [simp]: "hex_value (upper_hex_digit n) = Some (n mod 16)"
proof -
  have "hex_value (upper_hex_digit m) = Some m" if "m < 16" for m
    using arg_cong [OF upper_hex_values, of "\<lambda>xs. xs ! m"] that by simp
  from this [of "n mod 16"] show ?thesis by (simp add: upper_hex_digit_def)
qed

lemma path_unescape_percent [simp]:
  "path_unescape (percent c @ s) = map_option (Cons c) (path_unescape s)"
proof -
  have "(of_char c :: nat) < 256" by simp
  then have "(of_char c :: nat) div 16 < 16" by linarith
  then have "16 * ((of_char c :: nat) div 16 mod 16) + of_char c mod 16 = of_char c"
    by (simp only: mod_less mult_div_mod_eq)
  then show ?thesis by (simp add: percent_def del: hex_value.simps)
qed

lemma path_escape_simps [simp]:
  "path_escape [] = []"
  "path_escape (c # s) = (if unreserved c \<or> c \<in> set ''$&+:=@'' then [c] else percent c) @ path_escape s"
  by (simp_all add: path_escape_def)

lemma percent_not_kept: "\<not> unreserved CHR ''%''" "CHR ''%'' \<notin> set ''$&+:=@''"
  by (simp_all add: unreserved_def)

lemma path_unescape_escape [simp]: "path_unescape (path_escape s) = Some s"
proof (induction s)
  case (Cons c s)
  show ?case
  proof (cases "unreserved c \<or> c \<in> set ''$&+:=@''")
    case True
    then have "c \<noteq> CHR ''%''" using percent_not_kept by metis
    with True Cons show ?thesis by simp
  next
    case False
    with Cons show ?thesis by (simp only: path_escape_simps if_False path_unescape_percent) simp
  qed
qed simp

lemma path_escape_inj: "path_escape s = path_escape t \<longleftrightarrow> s = t"
  by (metis path_unescape_escape option.inject)

text \<open>An escaped text stays one path segment: it holds no separator of paths, queries or fragments.\<close>

lemma upper_hex_plain: "upper_hex_digit n \<in> set ''0123456789ABCDEF''"
proof -
  have "length ''0123456789ABCDEF'' = (16 :: nat)" by simp
  then have "n mod 16 < length ''0123456789ABCDEF''" by simp
  then show ?thesis unfolding upper_hex_digit_def by (rule nth_mem)
qed

lemma set_path_escape:
  "c \<in> set (path_escape s) \<Longrightarrow> unreserved c \<or> c \<in> set ''$&+:=@%''"
proof (induction s)
  case (Cons d s)
  have hex: "unreserved (upper_hex_digit n)" for n
    using upper_hex_plain [of n] by (auto simp: unreserved_def)
  with Cons show ?case by (auto simp: percent_def split: if_splits)
qed simp

lemma path_escape_one_segment:
  "CHR ''/'' \<notin> set (path_escape s) \<and> CHR ''?'' \<notin> set (path_escape s) \<and> CHR ''#'' \<notin> set (path_escape s)"
proof -
  have "\<not> (unreserved c \<or> c \<in> set ''$&+:=@%'')" if "c \<in> set ''/?#''" for c
    using that by (auto simp: unreserved_def)
  then show ?thesis using set_path_escape by fastforce
qed

subsection \<open>Quoting\<close>

text \<open>The verb \<open>%q\<close> on a text of printable characters and ASCII controls.\<close>

definition quote_byte :: "char \<Rightarrow> string" where
  "quote_byte c =
     (let n = (of_char c :: nat) in
      if n = 34 \<or> n = 92 then [CHR 0x5C, c]
      else if 7 \<le> n \<and> n \<le> 13 then [CHR 0x5C, ''abtnvfr'' ! (n - 7)]
      else if n < 32 \<or> n = 127 then [CHR 0x5C, CHR ''x'', hex_digit (n div 16), hex_digit n]
      else [c])"

definition quoted :: "string \<Rightarrow> string" where
  "quoted s = [CHR 0x22] @ concat (map quote_byte s) @ [CHR 0x22]"

end
