(* ===== verification/Inbound.thy ===== *)
theory Inbound
  imports Http GoUrl
begin

section \<open>Vendor webhooks: signing, route lookup and fan-out (webhook.go, adapter_route.go)\<close>

text \<open>
  A connector receives a vendor's webhook under a route token, looks the route up at Control and
  forwards the body, signed, to every subscription of the route. Each network round trip is an
  argument: what came back, or a transport error.
\<close>

subsection \<open>Signed ingress\<close>

definition sign_mode_b :: "string \<Rightarrow> string \<Rightarrow> int \<Rightarrow> string" where
  "sign_mode_b secret body unix =
     ''t='' @ itoa unix @ '',v1='' @ hex_encode (hmac_sha256 secret (itoa unix @ ''.'' @ body))"

record mode_b_request =
  mb_bff :: string
  mb_subscription :: string
  mb_secret :: string
  mb_idempotency :: string
  mb_body :: string
  mb_content_type :: string

text \<open>
  The POST of a delivery. A request that cannot be built or sent is the error \<open>dr_reply\<close> gives it; the
  POST is then the one that was attempted.
\<close>

record ingress_post =
  ip_url :: string
  ip_content_type :: string
  ip_idempotency :: string
  ip_signature :: string
  ip_body :: string

text \<open>One delivery as the network sees it: the clock at the start, and an error or a status.\<close>

record delivery_run =
  dr_unix :: int
  dr_reply :: "string + int"

definition deliver_mode_b :: "mode_b_request \<Rightarrow> delivery_run \<Rightarrow> (string + int) \<times> ingress_post option" where
  "deliver_mode_b req run =
     (if mb_bff req = '''' \<or> mb_subscription req = '''' \<or> mb_secret req = '''' \<or> mb_idempotency req = ''''
      then (Inl ''agentruntime-mcp-go DeliverModeB: BFFBaseURL, SubscriptionID, SigningSecret, and IdempotencyKey are required'',
            None)
      else
        (let ct = (if mb_content_type req = '''' then ''application/json'' else mb_content_type req);
             sig = sign_mode_b (mb_secret req) (mb_body req) (dr_unix run);
             url = trim_right_set (mb_bff req) ''/'' @ ''/v1/inbound-webhooks/'' @ mb_subscription req
         in (dr_reply run,
             Some \<lparr>ip_url = url, ip_content_type = ct, ip_idempotency = mb_idempotency req,
                   ip_signature = sig, ip_body = mb_body req\<rparr>)))"

subsection \<open>The fleet environment and the route lookup\<close>

record inbound_env =
  ie_control_url :: string
  ie_internal_token :: string
  ie_connector_base_url :: string

definition load_inbound_env :: "env \<Rightarrow> inbound_env" where
  "load_inbound_env getenv =
     \<lparr>ie_control_url = trim_right_set (trim_space (getenv ''MCP_CONTROL_SERVER_URL'')) ''/'',
      ie_internal_token = trim_space (getenv ''MCP_CONTROL_INTERNAL_TOKEN''),
      ie_connector_base_url = trim_right_set (trim_space (getenv ''RELAY_PUBLIC_BASE_URL'')) ''/''\<rparr>"

record deliver_target =
  dt_subscription :: string
  dt_secret :: string
  dt_project :: string

record route_credentials =
  rc_vendor_secret :: string
  rc_adapter :: string
  rc_tenant_id :: string
  rc_connection_id :: string
  rc_server_id :: string
  rc_enabled :: bool
  rc_targets :: "deliver_target list"
  rc_bff :: string

definition zero_target :: deliver_target where
  "zero_target = \<lparr>dt_subscription = '''', dt_secret = '''', dt_project = ''''\<rparr>"

definition dec_target :: "deliver_target \<Rightarrow> json \<Rightarrow> deliver_target option" where
  "dec_target old v =
     Option.bind (decode_members (Some v)) (\<lambda>ms.
     Option.bind (decode_field dec_string ''subscription_id'' (dt_subscription old) ms) (\<lambda>sub.
     Option.bind (decode_field dec_string ''signing_secret'' (dt_secret old) ms) (\<lambda>sec.
     Option.bind (decode_field dec_string ''project_id'' (dt_project old) ms) (\<lambda>proj.
       Some \<lparr>dt_subscription = sub, dt_secret = sec, dt_project = proj\<rparr>))))"

definition dec_route :: "json option \<Rightarrow> route_credentials option" where
  "dec_route j =
     Option.bind (decode_members j) (\<lambda>ms.
     Option.bind (field_string ''vendor_secret'' ms) (\<lambda>vs.
     Option.bind (field_string ''adapter'' ms) (\<lambda>ad.
     Option.bind (field_string ''tenant_id'' ms) (\<lambda>tn.
     Option.bind (field_string ''connection_id'' ms) (\<lambda>cn.
     Option.bind (field_string ''server_id'' ms) (\<lambda>sv.
     Option.bind (decode_field dec_bool ''enabled'' False ms) (\<lambda>en.
     Option.bind (decode_field (dec_list zero_target dec_target) ''deliver_targets'' [] ms) (\<lambda>ts.
     Option.bind (field_string ''bff_base_url'' ms) (\<lambda>bff.
       Some \<lparr>rc_vendor_secret = vs, rc_adapter = ad, rc_tenant_id = tn, rc_connection_id = cn,
             rc_server_id = sv, rc_enabled = en, rc_targets = ts, rc_bff = bff\<rparr>)))))))))"

text \<open>A route Control answers with is used only when it is switched on and complete.\<close>

definition route_usable :: "route_credentials \<Rightarrow> bool" where
  "route_usable rc \<longleftrightarrow>
     rc_enabled rc \<and> rc_targets rc \<noteq> [] \<and> trim_space (rc_bff rc) \<noteq> '''' \<and>
     list_all (\<lambda>t. trim_space (dt_subscription t) \<noteq> '''' \<and> trim_space (dt_secret t) \<noteq> '''') (rc_targets rc)"

record internal_get =
  ig_url :: string
  ig_internal_token :: string

definition body_limit :: nat where
  "body_limit = 2 ^ 20"

definition route_of_reply :: "json_lib \<Rightarrow> http_result \<Rightarrow> string + route_credentials option" where
  "route_of_reply J reply =
     (case reply of
        HttpFailed e \<Rightarrow> Inl e
      | HttpReply status header full \<Rightarrow>
          let body = take body_limit full in
          if status = 404 \<or> status = 403 then Inr None
          else if 400 \<le> status
          then Inl (''control adapter route lookup: status '' @ itoa status @ '': '' @ trim_space body)
          else (case dec_route (jl_parse J body) of
                  None \<Rightarrow> Inl ''json''
                | Some rc \<Rightarrow> Inr (if route_usable rc then Some rc else None)))"

definition lookup_inbound_route ::
    "json_lib \<Rightarrow> inbound_env \<Rightarrow> (internal_get \<Rightarrow> http_result) \<Rightarrow> string \<Rightarrow> string + route_credentials option" where
  "lookup_inbound_route J ie http token0 =
     (let token = trim_space token0 in
      if token = '''' then Inl ''route_token required''
      else if ie_control_url ie = '''' \<or> ie_internal_token ie = ''''
      then Inl ''MCP_CONTROL_SERVER_URL and MCP_CONTROL_INTERNAL_TOKEN required for adapter route lookup''
      else route_of_reply J (http
             \<lparr>ig_url = ie_control_url ie @ ''/internal/mcp/inbound-adapter-routes/'' @ path_escape token,
              ig_internal_token = ie_internal_token ie\<rparr>))"

definition resolve_forward_targets :: "route_credentials option \<Rightarrow> string + string \<times> string \<times> string" where
  "resolve_forward_targets creds =
     (case creds of
        None \<Rightarrow> Inl ''adapter route not found''
      | Some rc \<Rightarrow>
          (case rc_targets rc of
             [] \<Rightarrow> Inl ''adapter route not found''
           | t # _ \<Rightarrow>
               (let bff = trim_right_set (trim_space (rc_bff rc)) ''/'' in
                if bff = '''' then Inl ''bff_base_url missing from adapter route lookup''
                else Inr (bff, dt_subscription t, dt_secret t))))"

subsection \<open>Fan-out\<close>

text \<open>
  The loop over the targets carries the first error and the POSTs that went out; \<open>net\<close> gives the run of
  the delivery to each target.
\<close>

fun fan_out_loop ::
    "string \<Rightarrow> string \<Rightarrow> string \<Rightarrow> string \<Rightarrow> (nat \<Rightarrow> delivery_run) \<Rightarrow> nat \<Rightarrow> string option \<Rightarrow> ingress_post list
       \<Rightarrow> deliver_target list \<Rightarrow> string option \<times> ingress_post list" where
  "fan_out_loop bff idem body ct net i first sent [] = (first, sent)"
| "fan_out_loop bff idem body ct net i first sent (t # ts) =
     (case deliver_mode_b
             \<lparr>mb_bff = bff, mb_subscription = dt_subscription t, mb_secret = dt_secret t,
              mb_idempotency = idem @ ''-'' @ trim_space (dt_subscription t), mb_body = body, mb_content_type = ct\<rparr>
             (net i) of
        (reply, post) \<Rightarrow>
          let sent' = sent @ (case post of None \<Rightarrow> [] | Some p \<Rightarrow> [p]);
              first' = (case reply of
                  Inl e \<Rightarrow> (if first = None then Some e else first)
                | Inr status \<Rightarrow>
                    if 500 \<le> status \<and> first = None
                    then Some (''bff returned '' @ itoa status @ '' for subscription '' @ dt_subscription t)
                    else first)
          in fan_out_loop bff idem body ct net (Suc i) first' sent' ts)"

definition deliver_fan_out ::
    "route_credentials option \<Rightarrow> string \<Rightarrow> string \<Rightarrow> string \<Rightarrow> (nat \<Rightarrow> delivery_run)
       \<Rightarrow> string option \<times> ingress_post list" where
  "deliver_fan_out creds key0 body ct0 net =
     (case creds of
        None \<Rightarrow> (Some ''no deliver targets'', [])
      | Some rc \<Rightarrow>
          if rc_targets rc = [] then (Some ''no deliver targets'', [])
          else
            (let bff = trim_right_set (trim_space (rc_bff rc)) ''/'';
                 key = trim_space key0;
                 ct = (if ct0 = '''' then ''application/json'' else ct0) in
             if bff = '''' then (Some ''bff_base_url missing'', [])
             else if key = '''' then (Some ''idempotency key required'', [])
             else fan_out_loop bff key body ct net 0 None [] (rc_targets rc)))"

subsection \<open>Connector paths\<close>

definition adapter_segment :: "string \<Rightarrow> string" where
  "adapter_segment adapter = trim_set (to_lower (trim_space adapter)) ''/''"

definition token_segment :: "string \<Rightarrow> string" where
  "token_segment token = trim_set (trim_space token) ''/''"

definition adapter_path :: "string \<Rightarrow> string \<Rightarrow> string \<Rightarrow> string" where
  \<comment> \<open>the three path builders differ only in the words between adapter and token\<close>
  "adapter_path adapter middle token =
     (let a = adapter_segment adapter; t = token_segment token in
      if a = '''' \<or> t = '''' then '''' else ''/'' @ a @ middle @ t)"

definition connector_webhook_path :: "string \<Rightarrow> string \<Rightarrow> string" where
  "connector_webhook_path adapter token = adapter_path adapter ''/webhook/'' token"

definition connector_webhook_url :: "inbound_env \<Rightarrow> string \<Rightarrow> string \<Rightarrow> string" where
  "connector_webhook_url ie adapter token =
     (let base = trim_right_set (trim_space (ie_connector_base_url ie)) ''/'';
          path = connector_webhook_path adapter token
      in if base = '''' \<or> path = '''' then '''' else base @ path)"

subsection \<open>The receiver's check\<close>

text \<open>
  \<open>verifyModeBSignature\<close> of webhook_test.go, which the tests keep identical to the receiver's check: the
  last \<open>t=\<close> and \<open>v1=\<close> parts of the header, and the digest of the time, a dot and the body.
\<close>

fun verify_parts :: "int \<Rightarrow> string \<Rightarrow> string list \<Rightarrow> (int \<times> string) option" where
  "verify_parts ts sig [] = Some (ts, sig)"
| "verify_parts ts sig (p0 # ps) =
     (let p = trim_space p0 in
      case (if has_prefix p ''t='' then atoi (trim_prefix p ''t='') else Some ts) of
        None \<Rightarrow> None
      | Some ts' \<Rightarrow> verify_parts ts' (if has_prefix p ''v1='' then trim_prefix p ''v1='' else sig) ps)"

definition verify_mode_b_signature :: "string \<Rightarrow> string \<Rightarrow> string \<Rightarrow> bool" where
  "verify_mode_b_signature secret header body =
     (case verify_parts 0 '''' (split_on CHR '','' header) of
        None \<Rightarrow> False
      | Some (ts, sig) \<Rightarrow>
          if ts = 0 \<or> sig = '''' then False
          else (case hex_decode sig of
                  None \<Rightarrow> False
                | Some got \<Rightarrow> hmac_sha256 secret (itoa ts @ ''.'' @ body) = got))"

lemma hex_chars_plain: "c \<in> set (hex_encode s) \<Longrightarrow> plain_byte c \<and> c \<noteq> CHR '',''"
  using set_hex_encode by (fastforce simp: plain_byte_def Let_def split: if_splits)

lemma sign_header_parts:
  "split_on CHR '','' (sign_mode_b secret body unix) =
     [''t='' @ itoa unix, ''v1='' @ hex_encode (hmac_sha256 secret (itoa unix @ ''.'' @ body))]"
proof -
  have "CHR '','' \<notin> set (itoa unix)" using itoa_chars by fastforce
  then have 1: "CHR '','' \<notin> set (''t='' @ itoa unix)" by simp
  have 2: "CHR '','' \<notin> set (''v1='' @ hex_encode (hmac_sha256 secret (itoa unix @ ''.'' @ body)))"
    using hex_chars_plain by auto
  show ?thesis
    using split_on_append [OF 1] split_on_single [OF 2] by (simp add: sign_mode_b_def)
qed

lemma trim_part: "p \<noteq> [] \<Longrightarrow> plain_byte c \<Longrightarrow> (\<And>d. d \<in> set p \<Longrightarrow> plain_byte d) \<Longrightarrow> trim_space (c # q @ p) = c # q @ p"
  by (rule trim_space_plain) auto

lemma set_hex_encode_subset: "set (hex_encode s) \<subseteq> set ''0123456789abcdef''"
proof -
  have "hex_digit n \<in> set ''0123456789abcdef''" for n
    unfolding hex_digit_def by (rule nth_mem) simp
  then show ?thesis by (induction s) (simp_all only: hex_encode_simps list.set insert_subset empty_subsetI simp_thms)
qed

text \<open>
  C30. The header made for a body is accepted by the receiver's check exactly when the time stamp is
  not zero and the two keyed digests of that time and the two bodies agree; so under the same secret every
  delivery verifies. The header is \<open>t=\<close>, the time in decimal, \<open>,v1=\<close> and 64 hexadecimal digits.
\<close>

theorem signed_ingress_verifies:
  assumes "in_int64 unix"
  shows "(verify_mode_b_signature secret' (sign_mode_b secret body unix) body' \<longleftrightarrow>
      unix \<noteq> 0 \<and> hmac_sha256 secret' (itoa unix @ ''.'' @ body') = hmac_sha256 secret (itoa unix @ ''.'' @ body)) \<and>
    (unix \<noteq> 0 \<longrightarrow> verify_mode_b_signature secret (sign_mode_b secret body unix) body) \<and>
    (\<exists>digits. sign_mode_b secret body unix = ''t='' @ itoa unix @ '',v1='' @ digits \<and> length digits = 64 \<and>
       set digits \<subseteq> set ''0123456789abcdef'')"
proof -
  let ?h = "hmac_sha256 secret (itoa unix @ ''.'' @ body)"
  have "length (hex_encode ?h) = 64" by simp
  then have ne: "hex_encode ?h \<noteq> []" by (metis list.size(3) zero_neq_numeral)
  have plain: "plain_byte CHR ''t''" "plain_byte CHR ''v''" by (simp_all add: plain_byte_def)
  have t1: "trim_space (''t='' @ itoa unix) = ''t='' @ itoa unix"
    using trim_part [where q = "''=''", OF itoa_nonempty plain(1) plain_itoa] by simp
  have t2: "trim_space (''v1='' @ hex_encode ?h) = ''v1='' @ hex_encode ?h"
    using trim_part [where q = "''1=''", OF ne plain(2)] hex_chars_plain by simp
  have "verify_parts 0 '''' (split_on CHR '','' (sign_mode_b secret body unix)) = Some (unix, hex_encode ?h)"
    unfolding sign_header_parts
    by (simp only: verify_parts.simps t1 t2 Let_def)
      (simp add: has_prefix_def trim_prefix_def atoi_itoa [OF assms])
  with ne have "verify_mode_b_signature s (sign_mode_b secret body unix) b \<longleftrightarrow>
      unix \<noteq> 0 \<and> hmac_sha256 s (itoa unix @ ''.'' @ b) = ?h" for s b
    by (simp add: verify_mode_b_signature_def)
  moreover have "length (hex_encode ?h) = 64" by simp
  moreover have "set (hex_encode ?h) \<subseteq> set ''0123456789abcdef''" by (rule set_hex_encode_subset)
  ultimately show ?thesis unfolding sign_mode_b_def by blast
qed

theorem signed_ingress_verifies_witness:
  "verify_mode_b_signature ''whsec'' (sign_mode_b ''whsec'' ''{}'' 1700000000) ''{}''"
proof -
  have "in_int64 1700000000" by (simp add: in_int64_def int64_min_def int64_max_def)
  from signed_ingress_verifies [OF this, of "''whsec''" "''whsec''" "''{}''" "''{}''"] show ?thesis by simp
qed

subsection \<open>What a fan-out sends and reports\<close>

text \<open>The failure of one delivery, and the POST for one target.\<close>

definition target_error :: "deliver_target \<Rightarrow> delivery_run \<Rightarrow> string option" where
  "target_error t run =
     (case dr_reply run of
        Inl e \<Rightarrow> Some e
      | Inr status \<Rightarrow>
          if 500 \<le> status
          then Some (''bff returned '' @ itoa status @ '' for subscription '' @ dt_subscription t) else None)"

definition target_post :: "string \<Rightarrow> string \<Rightarrow> string \<Rightarrow> string \<Rightarrow> delivery_run \<Rightarrow> deliver_target \<Rightarrow> ingress_post" where
  "target_post bff key body ct run t =
     \<lparr>ip_url = trim_right_set bff ''/'' @ ''/v1/inbound-webhooks/'' @ dt_subscription t,
      ip_content_type = ct, ip_idempotency = key @ ''-'' @ trim_space (dt_subscription t),
      ip_signature = sign_mode_b (dt_secret t) body (dr_unix run), ip_body = body\<rparr>"

definition first_error :: "string option list \<Rightarrow> string option" where
  "first_error errs = (case dropWhile (\<lambda>e. e = None) errs of [] \<Rightarrow> None | e # _ \<Rightarrow> e)"

lemma first_error_Cons: "first_error (e # errs) = (if e = None then first_error errs else e)"
  by (simp add: first_error_def)

lemma first_error_None: "first_error errs = None \<longleftrightarrow> (\<forall>e \<in> set errs. e = None)"
  by (induction errs) (auto simp: first_error_Cons first_error_def)

lemma first_error_Some:
  "first_error errs = Some e \<longleftrightarrow> (\<exists>k < length errs. errs ! k = Some e \<and> (\<forall>j < k. errs ! j = None))"
proof (induction errs)
  case Nil
  then show ?case by (simp add: first_error_def)
next
  case (Cons x errs)
  show ?case
  proof (cases "x = None")
    case True
    with Cons show ?thesis
      by (auto simp: first_error_Cons All_less_Suc2 Ex_less_Suc2)
  next
    case False
    have "(\<exists>k < length (x # errs). (x # errs) ! k = Some e \<and> (\<forall>j < k. (x # errs) ! j = None)) \<longleftrightarrow> x = Some e"
      using False by (auto simp: Ex_less_Suc2 intro!: exI [of _ 0])
    moreover have "first_error (x # errs) = x" using False by (simp only: first_error_Cons if_False)
    ultimately show ?thesis by (simp only:)
  qed
qed

lemma fan_out_loop_step:
  assumes "bff \<noteq> ''''" "ct \<noteq> ''''" "dt_subscription t \<noteq> ''''" "dt_secret t \<noteq> ''''"
  shows "fan_out_loop bff key body ct net i first sent (t # ts) =
    fan_out_loop bff key body ct net (Suc i)
      (if first = None then target_error t (net i) else first) (sent @ [target_post bff key body ct (net i) t]) ts"
  using assms
  by (cases "dr_reply (net i)") (auto simp: deliver_mode_b_def target_error_def target_post_def Let_def)

lemma fan_out_loop_spec:
  assumes "bff \<noteq> ''''" "ct \<noteq> ''''" "\<forall>t \<in> set ts. dt_subscription t \<noteq> '''' \<and> dt_secret t \<noteq> ''''"
  shows "fan_out_loop bff key body ct net i first sent ts =
    (if first = None then first_error (map (\<lambda>(k, t). target_error t (net k)) (enumerate i ts)) else first,
     sent @ map (\<lambda>(k, t). target_post bff key body ct (net k) t) (enumerate i ts))"
  using assms(3)
proof (induction ts arbitrary: i first sent)
  case Nil
  then show ?case by (simp add: first_error_def)
next
  case (Cons t ts)
  then have t: "dt_subscription t \<noteq> ''''" "dt_secret t \<noteq> ''''"
    and "\<forall>t \<in> set ts. dt_subscription t \<noteq> '''' \<and> dt_secret t \<noteq> ''''" by simp_all
  with Cons.IH show ?case
    unfolding fan_out_loop_step [OF assms(1,2) t] by (cases first) (simp_all add: first_error_Cons)
qed

lemma lookup_usable: "lookup_inbound_route J ie http token = Inr (Some rc) \<Longrightarrow> route_usable rc"
  by (auto simp: lookup_inbound_route_def route_of_reply_def Let_def
      split: http_result.splits option.splits if_splits)

lemma usable_targets:
  assumes "route_usable rc" "t \<in> set (rc_targets rc)"
  shows "dt_subscription t \<noteq> '''' \<and> dt_secret t \<noteq> ''''"
  using assms by (auto simp: route_usable_def list_all_iff)


definition demo_route_tree :: json where
  "demo_route_tree = JObj [(''enabled'', JBool True), (''bff_base_url'', JStr ''https://bff/''),
     (''deliver_targets'', JArr
       [JObj [(''subscription_id'', JStr ''s1''), (''signing_secret'', JStr ''k1'')],
        JObj [(''subscription_id'', JStr ''s2''), (''signing_secret'', JStr ''k2'')]])]"

definition demo_route :: route_credentials where
  "demo_route =
     \<lparr>rc_vendor_secret = '''', rc_adapter = '''', rc_tenant_id = '''', rc_connection_id = '''', rc_server_id = '''',
      rc_enabled = True,
      rc_targets = [\<lparr>dt_subscription = ''s1'', dt_secret = ''k1'', dt_project = ''''\<rparr>,
                    \<lparr>dt_subscription = ''s2'', dt_secret = ''k2'', dt_project = ''''\<rparr>],
      rc_bff = ''https://bff/''\<rparr>"

definition demo_route_env :: inbound_env where
  "demo_route_env = \<lparr>ie_control_url = ''http://control'', ie_internal_token = ''it'', ie_connector_base_url = ''''\<rparr>"

lemma demo_route_lookup:
  assumes "jl_parse J ''{}'' = Some demo_route_tree"
  shows "lookup_inbound_route J demo_route_env (\<lambda>_. HttpReply 200 (\<lambda>_. '''') ''{}'') ''tok'' = Inr (Some demo_route)"
proof -
  have 1: "dec_route (Some demo_route_tree) = Some demo_route" by code_simp
  have 2: "route_usable demo_route" "trim_space ''tok'' = ''tok''" by code_simp+
  have 3: "take body_limit ''{}'' = ''{}''" by (simp add: body_limit_def)
  show ?thesis
    by (simp add: lookup_inbound_route_def demo_route_env_def route_of_reply_def 2 3 assms 1 Let_def)
qed

definition demo_delivery :: "nat \<Rightarrow> delivery_run" where
  "demo_delivery i = \<lparr>dr_unix = 7, dr_reply = Inr (if i = 0 then 503 else 202)\<rparr>"


subsection \<open>The lookup stays inside its path\<close>

text \<open>
  C32. A lookup either fails before any request (blank token, or no Control settings), or it asks
  Control at the internal lookup path with one more path segment: the token escaped, which holds no
  separator and decodes to the trimmed token. So no token a webhook carries can reach another path or
  another token's route, and the internal token goes with that request only.
\<close>

theorem lookup_asks_for_its_token:
  "if trim_space token = '''' then lookup_inbound_route J ie http token = Inl ''route_token required''
   else if ie_control_url ie = '''' \<or> ie_internal_token ie = ''''
   then (\<exists>e. \<forall>http'. lookup_inbound_route J ie http' token = Inl e)
   else (\<exists>seg. lookup_inbound_route J ie http token =
            route_of_reply J (http \<lparr>ig_url = ie_control_url ie @ ''/internal/mcp/inbound-adapter-routes/'' @ seg,
                                    ig_internal_token = ie_internal_token ie\<rparr>) \<and>
          CHR ''/'' \<notin> set seg \<and> CHR ''?'' \<notin> set seg \<and> CHR ''#'' \<notin> set seg \<and>
          path_unescape seg = Some (trim_space token))"
  by (auto simp: lookup_inbound_route_def Let_def path_escape_one_segment intro!: exI [of _ "path_escape (trim_space token)"])

end
