(* ===== verification/VendorAdmin.thy ===== *)
theory VendorAdmin
  imports Inbound
begin

section \<open>Vendor webhook administration (inbound_vendor_admin.go)\<close>

text \<open>
  The admin routes of a connector: their paths and the extraction of the route token from them, the
  resolve-test calls of Control that fetch a connection's credentials, the check of the fleet's
  internal token, and the list normalisation the handlers share.
\<close>

subsection \<open>Paths\<close>

definition inbound_register_webhook_path :: "string \<Rightarrow> string \<Rightarrow> string" where
  "inbound_register_webhook_path adapter token = adapter_path adapter ''/inbound/register-webhook/'' token"

definition inbound_webhook_status_path :: "string \<Rightarrow> string \<Rightarrow> string" where
  "inbound_webhook_status_path adapter token = adapter_path adapter ''/inbound/webhook-status/'' token"

definition inbound_vendor_mount_prefix :: "string \<Rightarrow> string" where
  "inbound_vendor_mount_prefix adapter =
     (let a = adapter_segment adapter in if a = '''' then '''' else ''/'' @ a @ ''/inbound/'')"

definition inbound_route_token :: "string \<Rightarrow> string \<Rightarrow> string \<Rightarrow> string" where
  "inbound_route_token path0 mount action =
     (let path = trim_space path0;
          pre = trim_right_set (trim_space mount) ''/'' @ ''/'' @ trim_set (trim_space action) ''/'' @ ''/'' in
      if \<not> has_prefix path pre then ''''
      else trim_set (trim_prefix path pre) ''/'')"

subsection \<open>Resolve-test\<close>

record resolve_post =
  rp_url :: string
  rp_body :: gomap
  rp_internal_token :: string
  rp_service_name :: string
  rp_tenant :: string

record resolve_test_response =
  rt_config_preview :: "gomap option"
  rt_meta :: "gomap option"

definition resolve_test_url :: "inbound_env \<Rightarrow> string \<Rightarrow> string \<Rightarrow> string" where
  "resolve_test_url ie tenant project0 =
     (let project = trim_space project0;
          q0 = fmupd ''tenant_id'' tenant fmempty;
          q = (if project \<noteq> '''' then fmupd ''project_id'' project q0 else q0)
      in ie_control_url ie @ ''/v1/mcp/config/resolve-test?'' @ values_encode q)"

definition resolve_test_post :: "inbound_env \<Rightarrow> string \<Rightarrow> string \<Rightarrow> gomap \<Rightarrow> resolve_post" where
  "resolve_test_post ie tenant project body =
     \<lparr>rp_url = resolve_test_url ie tenant project, rp_body = body, rp_internal_token = ie_internal_token ie,
      rp_service_name = ''connector-router'', rp_tenant = tenant\<rparr>"

definition resolve_test_of_reply :: "json_lib \<Rightarrow> http_result \<Rightarrow> string + resolve_test_response" where
  "resolve_test_of_reply J reply =
     (case reply of
        HttpFailed e \<Rightarrow> Inl e
      | HttpReply status header full \<Rightarrow>
          let raw = take body_limit full in
          if status < 200 \<or> 300 \<le> status
          then Inl (''control resolve-test: status '' @ itoa status @ '': '' @ trim_space raw)
          else (case Option.bind (decode_members (jl_parse J raw)) (\<lambda>ms.
                     Option.bind (decode_field (dec_map (jl_float J)) ''config_preview'' None ms) (\<lambda>cp.
                     Option.bind (decode_field (dec_map (jl_float J)) ''meta'' None ms) (\<lambda>mt.
                       Some \<lparr>rt_config_preview = cp, rt_meta = mt\<rparr>))) of
                  None \<Rightarrow> Inl ''json''
                | Some out \<Rightarrow>
                    (case rt_config_preview out of
                       Some cp \<Rightarrow> if fmdom cp = {||} then Inl ''control resolve-test returned empty config_preview''
                                  else Inr out
                     | None \<Rightarrow> Inl ''control resolve-test returned empty config_preview'')))"

definition resolve_mcp_connection_config ::
    "json_lib \<Rightarrow> inbound_env \<Rightarrow> (resolve_post \<Rightarrow> http_result) \<Rightarrow> string \<Rightarrow> string \<Rightarrow> string \<Rightarrow> string \<Rightarrow> string
       \<Rightarrow> string + resolve_test_response" where
  "resolve_mcp_connection_config J ie http tenant0 project connection0 server0 tool0 =
     (let tenant = trim_space tenant0; connection = trim_space connection0; server = trim_space server0;
          tool = trim_space tool0 in
      if tenant = '''' \<or> connection = '''' then Inl ''tenant_id and connection_id required''
      else if ie_control_url ie = '''' \<or> ie_internal_token ie = ''''
      then Inl ''MCP_CONTROL_SERVER_URL and MCP_CONTROL_INTERNAL_TOKEN required''
      else
        (let tool' = (if tool = '''' then ''resolve_test'' else tool);
             b0 = fmupd ''tool_name'' (GStr tool') (fmupd ''connection_id'' (GStr connection) fmempty);
             b = (if server \<noteq> '''' then fmupd ''server_id'' (GStr server) b0 else b0)
         in resolve_test_of_reply J (http (resolve_test_post ie tenant project b))))"

definition resolve_mcp_instance_config ::
    "json_lib \<Rightarrow> inbound_env \<Rightarrow> (resolve_post \<Rightarrow> http_result) \<Rightarrow> string \<Rightarrow> string \<Rightarrow> string \<Rightarrow> string
       \<Rightarrow> string + resolve_test_response" where
  "resolve_mcp_instance_config J ie http tenant0 project instance0 tool0 =
     (let tenant = trim_space tenant0; inst = trim_space instance0; tool = trim_space tool0 in
      if tenant = '''' \<or> inst = '''' then Inl ''tenant_id and mcp_instance_id required''
      else if ie_control_url ie = '''' \<or> ie_internal_token ie = ''''
      then Inl ''MCP_CONTROL_SERVER_URL and MCP_CONTROL_INTERNAL_TOKEN required''
      else
        (let tool' = (if tool = '''' then ''resolve_test'' else tool);
             b = fmupd ''tool_name'' (GStr tool') (fmupd ''instance_id'' (GStr inst) fmempty)
         in resolve_test_of_reply J (http (resolve_test_post ie tenant project b))))"

subsection \<open>Requests to the admin routes\<close>

record inbound_vendor_context =
  vc_tenant_id :: string
  vc_project_id :: string

definition inbound_vendor_context_from_request :: "request \<Rightarrow> inbound_vendor_context" where
  "inbound_vendor_context_from_request r =
     \<lparr>vc_tenant_id = trim_space (r_header r ''X-Tenant-Id''),
      vc_project_id = trim_space (r_header r ''X-Project-Id'')\<rparr>"

definition validate_inbound_internal_token :: "request \<Rightarrow> inbound_env \<Rightarrow> string option" where
  \<comment> \<open>the error, if any\<close>
  "validate_inbound_internal_token r ie =
     (let expected = trim_space (ie_internal_token ie) in
      if expected = '''' then Some ''MCP_CONTROL_INTERNAL_TOKEN not configured''
      else
        (let got = trim_space (r_header r ''X-Internal-Token'') in
         if got = '''' \<or> got \<noteq> expected then Some ''unauthorized'' else None))"

record json_response =
  jr_status :: int
  jr_body :: "json option"

definition write_inbound_vendor_json :: "int \<Rightarrow> json option \<Rightarrow> json_response" where
  \<comment> \<open>\<open>None\<close> is a nil value: the header alone is written\<close>
  "write_inbound_vendor_json status v = \<lparr>jr_status = status, jr_body = v\<rparr>"

definition write_inbound_vendor_error :: "int \<Rightarrow> string \<Rightarrow> json_response" where
  "write_inbound_vendor_error status msg =
     write_inbound_vendor_json status (Some (JObj [(''error'', JStr msg)]))"

subsection \<open>Normalising a list\<close>

fun normalize_loop :: "string list \<Rightarrow> string list \<Rightarrow> string list \<Rightarrow> string list" where
  \<comment> \<open>the names seen, the output so far, the items left\<close>
  "normalize_loop seen out [] = out"
| "normalize_loop seen out (x # xs) =
     (let item = trim_space x in
      if item = '''' then normalize_loop seen out xs
      else if item \<in> set seen then normalize_loop seen out xs
      else normalize_loop (item # seen) (out @ [item]) xs)"

definition normalize_string_list :: "string list \<Rightarrow> string list" where
  "normalize_string_list raw = (if raw = [] then [] else normalize_loop [] [] raw)"

subsection \<open>The route token survives its path\<close>

text \<open>
  C33. The token that the admin handler extracts from a register-webhook path is the token the path was
  built for (trimmed of white space and slashes), for every adapter name and every token that does not end
  in white space; a webhook-status path does not pass for a register-webhook path, nor the other way round.
\<close>

theorem route_token_roundtrip:
  assumes "adapter_segment adapter \<noteq> ''''" "token_segment token \<noteq> ''''"
    and "\<forall>p \<in> set space_runes. p = [] \<or> \<not> has_suffix (token_segment token) p"
  shows "inbound_route_token (inbound_register_webhook_path adapter token)
      (inbound_vendor_mount_prefix adapter) ''register-webhook'' = token_segment token \<and>
    inbound_route_token (inbound_webhook_status_path adapter token)
      (inbound_vendor_mount_prefix adapter) ''webhook-status'' = token_segment token \<and>
    inbound_route_token (inbound_webhook_status_path adapter token)
      (inbound_vendor_mount_prefix adapter) ''register-webhook'' = '''' \<and>
    inbound_route_token (inbound_register_webhook_path adapter token)
      (inbound_vendor_mount_prefix adapter) ''webhook-status'' = ''''"
proof -
  let ?a = "adapter_segment adapter" and ?t = "token_segment token"
  have slash: "plain_byte CHR ''/''" by (simp add: plain_byte_def)
  have m: "trim_space (inbound_vendor_mount_prefix adapter) = ''/'' @ ?a @ ''/inbound/''"
    using assms(1) slash by (simp add: inbound_vendor_mount_prefix_def Let_def trim_space_plain)
  have "trim_right_set (''/'' @ ?a @ ''/inbound/'') ''/'' = trim_right_set ((''/'' @ ?a @ ''/inbound'') @ ''/'') ''/''"
    by simp
  also have "\<dots> = trim_right_set (''/'' @ ?a @ ''/inbound'') ''/''"
    by (rule trim_right_set_append_sep) simp
  also have "\<dots> = ''/'' @ ?a @ ''/inbound''" by (rule trim_right_set_noop) simp
  finally have pre: "trim_right_set (trim_space (inbound_vendor_mount_prefix adapter)) ''/'' = ''/'' @ ?a @ ''/inbound''"
    unfolding m .
  have acts: "trim_set (trim_space ''register-webhook'') ''/'' = ''register-webhook''"
    "trim_set (trim_space ''webhook-status'') ''/'' = ''webhook-status''" by code_simp+
  have path: "trim_space (''/'' @ ?a @ mid @ ''/'' @ ?t) = ''/'' @ ?a @ mid @ ''/'' @ ?t" for mid
    using trim_space_path [OF assms(3), of "?a @ mid"] by simp
  have paths: "trim_space (inbound_register_webhook_path adapter token) = ''/'' @ ?a @ ''/inbound/register-webhook/'' @ ?t"
    "trim_space (inbound_webhook_status_path adapter token) = ''/'' @ ?a @ ''/inbound/webhook-status/'' @ ?t"
    using assms(1,2) path [of "''/inbound/register-webhook''"] path [of "''/inbound/webhook-status''"]
    by (simp_all add: inbound_register_webhook_path_def inbound_webhook_status_path_def adapter_path_def Let_def)
  have idem: "trim_set ?t ''/'' = ?t" by (simp add: token_segment_def)
  show ?thesis
    unfolding inbound_route_token_def Let_def pre acts paths
    by (simp add: has_prefix_def trim_prefix_def idem)
qed

theorem route_token_roundtrip_witness:
  "inbound_route_token (inbound_register_webhook_path '' GitHub/'' ''/tok_1/'')
      (inbound_vendor_mount_prefix '' GitHub/'') ''register-webhook'' = ''tok_1''"
proof -
  have 1: "adapter_segment '' GitHub/'' = ''github''" "token_segment ''/tok_1/'' = ''tok_1''" by code_simp+
  have 2: "\<forall>p \<in> set space_runes. p = [] \<or> \<not> has_suffix ''tok_1'' p" by code_simp
  show ?thesis using route_token_roundtrip [of "'' GitHub/''" "''/tok_1/''"] 1 2 by simp
qed

subsection \<open>Normalised lists\<close>

lemma normalize_loop_spec:
  "normalize_loop seen out xs = out @ dedup_from seen (filter (\<lambda>s. s \<noteq> '''') (map trim_space xs))"
  by (induction seen out xs rule: normalize_loop.induct) (simp_all add: Let_def)

lemma normalize_string_list_eq:
  "normalize_string_list xs = dedup_from [] (filter (\<lambda>s. s \<noteq> '''') (map trim_space xs))"
  by (simp add: normalize_string_list_def normalize_loop_spec)

text \<open>
  C34. The loop with its seen set computes the list of first occurrences of the trimmed items that are not
  blank: no item twice, the order kept, every trimmed item there, and a second run changes nothing.
\<close>

theorem normalize_string_list_equiv:
  "normalize_string_list xs = dedup_from [] (filter (\<lambda>s. s \<noteq> '''') (map trim_space xs)) \<and>
   distinct (normalize_string_list xs) \<and>
   set (normalize_string_list xs) = trim_space ` set xs - {''''} \<and>
   subseq (normalize_string_list xs) (map trim_space xs) \<and>
   normalize_string_list (normalize_string_list xs) = normalize_string_list xs"
proof -
  let ?n = "normalize_string_list xs"
  have s: "set ?n = trim_space ` set xs - {''''}" by (auto simp: normalize_string_list_eq)
  have d: "distinct ?n" by (simp add: normalize_string_list_eq)
  have sub: "subseq ?n (map trim_space xs)"
    unfolding normalize_string_list_eq by (rule subseq_order.trans [OF dedup_from_subseq subseq_filter_left])
  have "map trim_space ?n = ?n" using s by (intro map_idI) auto
  moreover have "filter (\<lambda>x. x \<noteq> '''') ?n = ?n" using s by (intro filter_True) auto
  ultimately have "normalize_string_list ?n = dedup_from [] ?n" by (simp add: normalize_string_list_eq [of ?n])
  also have "\<dots> = ?n" using d by (intro dedup_from_distinct) simp_all
  finally show ?thesis using s d sub by (simp add: normalize_string_list_eq)
qed

end
