(* ===== verification/ToolSchema.thy ===== *)
theory ToolSchema
  imports GoValues GoUrl
begin

section \<open>Input schemas with field constraints (toolschema/schema.go)\<close>

text \<open>
  The schema of a tool's input type comes from a third-party library (an argument: the schema it builds, or
  its error); the \<open>agentschema\<close> tags of the struct's fields then add constraints to its properties. What
  \<open>strconv.ParseFloat\<close> and \<open>regexp.Compile\<close> say of a text is an argument too.
\<close>

subsection \<open>Parsing a tag\<close>

record literal_lib =
  ll_float :: "string \<Rightarrow> string option"    \<comment> \<open>the shortest text of the float, \<open>None\<close> on an error\<close>
  ll_regexp :: "string \<Rightarrow> string option"   \<comment> \<open>the error of a pattern, if any\<close>

record field_constraints =
  fc_min_length :: "int option"
  fc_max_length :: "int option"
  fc_minimum :: "string option"
  fc_maximum :: "string option"
  fc_pattern :: string
  fc_format :: string
  fc_enum :: "goval list"
  fc_default :: json
  fc_has_default :: bool

definition no_constraints :: field_constraints where
  "no_constraints =
     \<lparr>fc_min_length = None, fc_max_length = None, fc_minimum = None, fc_maximum = None, fc_pattern = '''',
      fc_format = '''', fc_enum = [], fc_default = JNull, fc_has_default = False\<rparr>"

fun merge_loop :: "string list \<Rightarrow> string list \<Rightarrow> string list" where
  "merge_loop merged [] = merged"
| "merge_loop merged (part0 # parts) =
     (let part = trim_space part0 in
      if part = '''' then merge_loop merged parts
      else if contains part ''='' then merge_loop (merged @ [part]) parts
      else if merged = [] then [part]
      else if has_prefix (last merged) ''enum='' then merge_loop (butlast merged @ [last merged @ '','' @ part]) parts
      else [part])"

definition merge_agentschema_segments :: "string \<Rightarrow> string list" where
  "merge_agentschema_segments tag = merge_loop [] (split_on CHR '','' tag)"

definition parse_enum_literal :: "string \<Rightarrow> string + goval list" where
  "parse_enum_literal val =
     (let out = filter (\<lambda>p. p \<noteq> '''') (map trim_space (split_on CHR '','' val)) in
      if out = [] then Inl ''requires at least one value'' else Inr (map GStr out))"

definition parse_constraint ::
    "literal_lib \<Rightarrow> string \<Rightarrow> string \<Rightarrow> field_constraints \<Rightarrow> string + field_constraints" where
  \<comment> \<open>the switch on the key\<close>
  "parse_constraint L key val out =
     (if key = ''minLength'' \<or> key = ''maxLength'' then
        (case atoi val of
           None \<Rightarrow> Inl (''agentschema: '' @ key @ '' must be an integer, got '' @ quoted val)
         | Some n \<Rightarrow> Inr (if key = ''minLength'' then out\<lparr>fc_min_length := Some n\<rparr> else out\<lparr>fc_max_length := Some n\<rparr>))
      else if key = ''minimum'' \<or> key = ''maximum'' then
        (case ll_float L val of
           None \<Rightarrow> Inl (''agentschema: '' @ key @ '' must be a number, got '' @ quoted val)
         | Some f \<Rightarrow> Inr (if key = ''minimum'' then out\<lparr>fc_minimum := Some f\<rparr> else out\<lparr>fc_maximum := Some f\<rparr>))
      else if key = ''pattern'' then
        (case ll_regexp L val of
           Some e \<Rightarrow> Inl (''agentschema: pattern: '' @ e)
         | None \<Rightarrow> Inr (out\<lparr>fc_pattern := val\<rparr>))
      else if key = ''format'' then Inr (out\<lparr>fc_format := val\<rparr>)
      else if key = ''enum'' then
        (case parse_enum_literal val of
           Inl e \<Rightarrow> Inl (''agentschema: enum: '' @ e)
         | Inr vs \<Rightarrow> Inr (out\<lparr>fc_enum := vs\<rparr>))
      else if key = ''default'' then Inr (out\<lparr>fc_default := JStr val, fc_has_default := True\<rparr>)
      else Inl (''agentschema: unsupported key '' @ quoted key @
        '' (supported: minLength, maxLength, minimum, maximum, pattern, format, enum, default)''))"

fun parse_segments :: "literal_lib \<Rightarrow> field_constraints \<Rightarrow> string list \<Rightarrow> string + field_constraints" where
  "parse_segments L out [] = Inr out"
| "parse_segments L out (part # parts) =
     (case string_cut part CHR ''='' of
        (key0, val0, ok) \<Rightarrow>
          if \<not> ok then Inl (''agentschema: invalid segment '' @ quoted part @ '' (expected key=value)'')
          else
            (let key = trim_space key0; val = trim_space val0 in
             if val = '''' then Inl (''agentschema: '' @ key @ '' requires a value'')
             else (case parse_constraint L key val out of
                     Inl e \<Rightarrow> Inl e
                   | Inr out' \<Rightarrow> parse_segments L out' parts)))"

definition parse_agentschema :: "literal_lib \<Rightarrow> string \<Rightarrow> string + field_constraints" where
  "parse_agentschema L tag0 =
     (let tag = trim_space tag0 in
      if tag = '''' then Inr no_constraints
      else parse_segments L no_constraints (merge_agentschema_segments tag))"

subsection \<open>Literals of a field's type\<close>

text \<open>The types the reflection looks at; widths are kept where Go has them.\<close>

datatype go_type =
    TString | TBool | TInt nat | TUint nat | TFloat nat | TOther
  | TPtr go_type
  | TStruct string "go_field list"
and go_field =
    GoField (gf_name: string) (gf_exported: bool) (gf_agentschema: "string option") (gf_json: "string option")
      (gf_type: go_type)

fun dereference_type :: "go_type \<Rightarrow> go_type" where
  "dereference_type (TPtr t) = dereference_type t"
| "dereference_type t = t"

definition parse_bool :: "string \<Rightarrow> bool option" where
  "parse_bool s =
     (if s \<in> set [''1'', ''t'', ''T'', ''TRUE'', ''true'', ''True''] then Some True
      else if s \<in> set [''0'', ''f'', ''F'', ''FALSE'', ''false'', ''False''] then Some False else None)"

definition parse_uint :: "string \<Rightarrow> int option" where
  "parse_uint s = (case parse_nat s of None \<Rightarrow> None | Some n \<Rightarrow> if n < 2 ^ 64 then Some n else None)"

fun coerce_scalar_literal :: "literal_lib \<Rightarrow> string \<Rightarrow> go_type \<Rightarrow> string + goval" where
  "coerce_scalar_literal L lit TString = Inr (GStr lit)"
| "coerce_scalar_literal L lit TBool =
     (case parse_bool lit of
        None \<Rightarrow> Inl (''invalid bool default/enum value '' @ quoted lit) | Some b \<Rightarrow> Inr (GBool b))"
| "coerce_scalar_literal L lit (TInt _) =
     (case atoi lit of
        None \<Rightarrow> Inl (''invalid integer default/enum value '' @ quoted lit) | Some n \<Rightarrow> Inr (GNum (itoa n)))"
| "coerce_scalar_literal L lit (TUint _) =
     (case parse_uint lit of
        None \<Rightarrow> Inl (''invalid unsigned default/enum value '' @ quoted lit) | Some n \<Rightarrow> Inr (GNum (itoa n)))"
| "coerce_scalar_literal L lit (TFloat _) =
     (case ll_float L lit of
        None \<Rightarrow> Inl (''invalid float default/enum value '' @ quoted lit) | Some f \<Rightarrow> Inr (GNum f))"
| "coerce_scalar_literal L lit _ = Inr (GStr lit)"

fun coerce_enum_from :: "literal_lib \<Rightarrow> go_type \<Rightarrow> goval list \<Rightarrow> string + goval list" where
  "coerce_enum_from L t [] = Inr []"
| "coerce_enum_from L t (v # vs) =
     (case as_string v of
        None \<Rightarrow> Inl ''enum values must be strings in agentschema tag''
      | Some s \<Rightarrow>
          (case coerce_scalar_literal L s t of
             Inl e \<Rightarrow> Inl e
           | Inr typed \<Rightarrow> map_sum id (Cons typed) (coerce_enum_from L t vs)))"

definition coerce_enum_values :: "literal_lib \<Rightarrow> goval list \<Rightarrow> go_type \<Rightarrow> string + goval list" where
  "coerce_enum_values L vs t = coerce_enum_from L (dereference_type t) vs"

definition marshal_scalar :: "goval \<Rightarrow> string + json" where
  \<comment> \<open>JSON has no text for these floats\<close>
  "marshal_scalar v =
     (if v \<in> set (map GNum [''NaN'', ''+Inf'', ''-Inf'']) then Inl (''json: unsupported value: '' @ sprint v)
      else Inr (to_json v))"

definition coerce_default_value :: "literal_lib \<Rightarrow> json \<Rightarrow> go_type \<Rightarrow> string + json" where
  "coerce_default_value L raw t =
     (case dec_string '''' raw of
        None \<Rightarrow> Inl ''json''
      | Some lit \<Rightarrow>
          (case coerce_scalar_literal L lit (dereference_type t) of
             Inl e \<Rightarrow> Inl e | Inr typed \<Rightarrow> marshal_scalar typed))"

subsection \<open>Applying the tags\<close>

record schema_prop =
  sp_type :: string
  sp_description :: string
  sp_min_length :: "int option"
  sp_max_length :: "int option"
  sp_minimum :: "string option"
  sp_maximum :: "string option"
  sp_pattern :: string
  sp_format :: string
  sp_enum :: "goval list"
  sp_default :: "json option"

record tool_schema =
  ts_properties :: "(string, schema_prop) fmap"
  ts_required :: "string list"

definition apply_constraints_to_prop ::
    "literal_lib \<Rightarrow> schema_prop \<Rightarrow> field_constraints \<Rightarrow> go_type \<Rightarrow> string + schema_prop" where
  "apply_constraints_to_prop L prop c t =
     (let p1 = prop\<lparr>sp_min_length := (if fc_min_length c \<noteq> None then fc_min_length c else sp_min_length prop),
                   sp_max_length := (if fc_max_length c \<noteq> None then fc_max_length c else sp_max_length prop),
                   sp_minimum := (if fc_minimum c \<noteq> None then fc_minimum c else sp_minimum prop),
                   sp_maximum := (if fc_maximum c \<noteq> None then fc_maximum c else sp_maximum prop),
                   sp_pattern := (if fc_pattern c \<noteq> '''' then fc_pattern c else sp_pattern prop),
                   sp_format := (if fc_format c \<noteq> '''' then fc_format c else sp_format prop)\<rparr> in
      case (if fc_enum c = [] then Inr (sp_enum prop) else coerce_enum_values L (fc_enum c) t) of
        Inl e \<Rightarrow> Inl e
      | Inr enum \<Rightarrow>
          (let p2 = p1\<lparr>sp_enum := enum\<rparr> in
           if \<not> fc_has_default c then Inr p2
           else (case coerce_default_value L (fc_default c) t of
                   Inl e \<Rightarrow> Inl e
                 | Inr d \<Rightarrow> Inr (p2\<lparr>sp_default := Some d\<rparr>))))"

definition json_field_name :: "go_field \<Rightarrow> string option" where
  "json_field_name f =
     (case gf_json f of
        None \<Rightarrow> None
      | Some tag \<Rightarrow>
          if tag = ''-'' then None
          else
            (let name = trim_space (fst (string_cut tag CHR '','')) in
             Some (if name = '''' then gf_name f else name)))"

fun apply_field_tags :: "literal_lib \<Rightarrow> string \<Rightarrow> tool_schema \<Rightarrow> go_field list \<Rightarrow> string + tool_schema" where
  "apply_field_tags L tname sch [] = Inr sch"
| "apply_field_tags L tname sch (f # fs) =
     (if \<not> gf_exported f then apply_field_tags L tname sch fs
      else case gf_agentschema f of
        None \<Rightarrow> apply_field_tags L tname sch fs
      | Some tag \<Rightarrow>
          (let err = (\<lambda>e. Inl (tname @ ''.'' @ gf_name f @ '': '' @ e)) in
           case parse_agentschema L tag of
             Inl e \<Rightarrow> err e
           | Inr c \<Rightarrow>
               (case json_field_name f of
                  None \<Rightarrow> apply_field_tags L tname sch fs
                | Some name \<Rightarrow>
                    (case fmlookup (ts_properties sch) name of
                       None \<Rightarrow> err (''agentschema on unknown json field '' @ quoted name)
                     | Some prop \<Rightarrow>
                         (case apply_constraints_to_prop L prop c (gf_type f) of
                            Inl e \<Rightarrow> err e
                          | Inr prop' \<Rightarrow>
                              apply_field_tags L tname
                                (sch\<lparr>ts_properties := fmupd name prop' (ts_properties sch)\<rparr>) fs)))))"

definition apply_agentschema_tags :: "literal_lib \<Rightarrow> tool_schema \<Rightarrow> go_type \<Rightarrow> string + tool_schema" where
  "apply_agentschema_tags L sch t =
     (case dereference_type t of
        TStruct tname fs \<Rightarrow> apply_field_tags L tname sch fs
      | _ \<Rightarrow> Inr sch)"

definition schema_for :: "literal_lib \<Rightarrow> (string + tool_schema) \<Rightarrow> go_type \<Rightarrow> string + tool_schema" where
  \<comment> \<open>\<open>base\<close> is what \<open>jsonschema.For\<close> builds for the type\<close>
  "schema_for L base t =
     (case base of Inl e \<Rightarrow> Inl e | Inr sch \<Rightarrow> apply_agentschema_tags L sch t)"

subsection \<open>Which properties a struct's tags change\<close>

definition tagged_property :: "go_field \<Rightarrow> (string \<times> string) option" where
  \<comment> \<open>the property a field's tag is for, and the tag\<close>
  "tagged_property f =
     (if \<not> gf_exported f then None
      else case (gf_agentschema f, json_field_name f) of
        (Some tag, Some name) \<Rightarrow> Some (name, tag) | _ \<Rightarrow> None)"

lemma apply_field_tags_Cons_skip:
  "tagged_property f = None \<Longrightarrow> apply_field_tags L tname sch (f # fs) = Inr sch' \<Longrightarrow>
     apply_field_tags L tname sch fs = Inr sch'"
  by (auto simp: tagged_property_def Let_def split: option.splits sum.splits if_splits)

lemma apply_field_tags_Cons:
  assumes "tagged_property f = Some (name, tag)" "apply_field_tags L tname sch (f # fs) = Inr sch'"
  obtains c pr pr' where "parse_agentschema L tag = Inr c"
    "fmlookup (ts_properties sch) name = Some pr"
    "apply_constraints_to_prop L pr c (gf_type f) = Inr pr'"
    "apply_field_tags L tname (sch\<lparr>ts_properties := fmupd name pr' (ts_properties sch)\<rparr>) fs = Inr sch'"
  using assms by (auto simp: tagged_property_def Let_def split: option.splits sum.splits if_splits)

definition property_of :: "go_field \<Rightarrow> string option" where
  "property_of f = map_option fst (tagged_property f)"

lemma apply_field_tags_frame:
  "apply_field_tags L tname sch fs = Inr sch' \<Longrightarrow> Some n \<notin> property_of ` set fs \<Longrightarrow>
     fmlookup (ts_properties sch') n = fmlookup (ts_properties sch) n \<and> ts_required sch' = ts_required sch \<and>
     fmdom (ts_properties sch') = fmdom (ts_properties sch)"
proof (induction fs arbitrary: sch)
  case (Cons f fs)
  show ?case
  proof (cases "tagged_property f")
    case None
    with apply_field_tags_Cons_skip [OF None Cons.prems(1)] Cons show ?thesis by simp
  next
    case (Some nt)
    obtain name tag where nt: "nt = (name, tag)" by (cases nt)
    from apply_field_tags_Cons [OF Some [unfolded nt] Cons.prems(1)]
    obtain c pr pr' where s: "fmlookup (ts_properties sch) name = Some pr"
      "apply_field_tags L tname (sch\<lparr>ts_properties := fmupd name pr' (ts_properties sch)\<rparr>) fs = Inr sch'"
      by metis
    have "n \<noteq> name" using Cons.prems(2) Some nt by (auto simp: property_of_def)
    moreover have "finsert name (fmdom (ts_properties sch)) = fmdom (ts_properties sch)"
      using s(1) by (auto simp: fmlookup_dom_iff)
    ultimately show ?thesis using Cons.IH [OF s(2)] Cons.prems(2) by simp
  qed
qed simp

lemma apply_field_tags_sets:
  assumes "apply_field_tags L tname sch fs = Inr sch'" "f \<in> set fs" "tagged_property f = Some (n, tag)"
    and "distinct (List.map_filter property_of fs)"
  shows "\<exists>c pr pr'. parse_agentschema L tag = Inr c \<and> fmlookup (ts_properties sch) n = Some pr \<and>
    apply_constraints_to_prop L pr c (gf_type f) = Inr pr' \<and> fmlookup (ts_properties sch') n = Some pr'"
  using assms
proof (induction fs arbitrary: sch)
  case (Cons g fs)
  have dist: "distinct (List.map_filter property_of fs)"
    using Cons.prems(4) by (auto simp: List.map_filter_simps split: option.splits)
  have in_filter: "m \<in> set (List.map_filter property_of fs) \<longleftrightarrow> Some m \<in> property_of ` set fs" for m
    by (auto simp: List.map_filter_def image_iff) (metis option.sel)+
  show ?case
  proof (cases "tagged_property g")
    case None
    with Cons.prems(3) have "f \<noteq> g" by auto
    with Cons.prems(2) have "f \<in> set fs" by simp
    from Cons.IH [OF apply_field_tags_Cons_skip [OF None Cons.prems(1)] this Cons.prems(3) dist] show ?thesis .
  next
    case (Some nt)
    obtain name tg where nt: "nt = (name, tg)" by (cases nt)
    from apply_field_tags_Cons [OF Some [unfolded nt] Cons.prems(1)]
    obtain c pr pr' where s: "parse_agentschema L tg = Inr c" "fmlookup (ts_properties sch) name = Some pr"
      "apply_constraints_to_prop L pr c (gf_type g) = Inr pr'"
      "apply_field_tags L tname (sch\<lparr>ts_properties := fmupd name pr' (ts_properties sch)\<rparr>) fs = Inr sch'"
      by metis
    have "property_of g = Some name" by (simp add: property_of_def Some nt)
    then have fresh: "Some name \<notin> property_of ` set fs"
      using Cons.prems(4) in_filter [of name] by (simp add: List.map_filter_simps)
    show ?thesis
    proof (cases "f \<in> set fs")
      case True
      then have "Some n \<in> property_of ` set fs" using Cons.prems(3) by (force simp: property_of_def)
      with fresh have "n \<noteq> name" by auto
      with Cons.IH [OF s(4) True Cons.prems(3) dist] show ?thesis by simp
    next
      case False
      with Cons.prems(2) have "f = g" by simp
      with Cons.prems(3) Some nt have "n = name" "tag = tg" by simp_all
      with apply_field_tags_frame [OF s(4) fresh] s(1-3) \<open>f = g\<close> show ?thesis by simp
    qed
  qed
qed simp

text \<open>What a property's constraints become, member by member.\<close>

lemma coerce_scalar_Inr:
  "coerce_scalar_literal L text t = Inr v \<longleftrightarrow> (\<forall>t'. t \<noteq> TPtr t') \<and>
     (case t of
        TBool \<Rightarrow> \<exists>b. parse_bool text = Some b \<and> v = GBool b
      | TInt _ \<Rightarrow> \<exists>i. atoi text = Some i \<and> v = GNum (itoa i)
      | TUint _ \<Rightarrow> \<exists>i. parse_uint text = Some i \<and> v = GNum (itoa i)
      | TFloat _ \<Rightarrow> \<exists>x. ll_float L text = Some x \<and> v = GNum x
      | _ \<Rightarrow> v = GStr text) \<or> (\<exists>t'. t = TPtr t') \<and> v = GStr text"
  by (cases t) (auto split: option.splits)

lemma coerce_enum_Inr:
  "coerce_enum_from L t vs = Inr out \<longleftrightarrow>
     (\<exists>texts. vs = map GStr texts \<and> list_all2 (\<lambda>text v. coerce_scalar_literal L text t = Inr v) texts out)"
proof (induction vs arbitrary: out)
  case (Cons v vs)
  show ?case
  proof (cases v)
    case (GStr s)
    show ?thesis
    proof (cases "coerce_scalar_literal L s t")
      case (Inr typed)
      have "coerce_enum_from L t (v # vs) = Inr out \<longleftrightarrow> (\<exists>o'. out = typed # o' \<and> coerce_enum_from L t vs = Inr o')"
        by (cases "coerce_enum_from L t vs") (auto simp: GStr Inr)
      also have "\<dots> \<longleftrightarrow> (\<exists>texts. v # vs = map GStr texts \<and>
          list_all2 (\<lambda>text v. coerce_scalar_literal L text t = Inr v) texts out)"
        unfolding Cons.IH GStr by (auto simp: Cons_eq_map_conv list_all2_Cons1 Inr) blast
      finally show ?thesis .
    qed (auto simp: GStr Cons_eq_map_conv list_all2_Cons1)
  qed (auto simp: Cons_eq_map_conv)
qed auto

lemma dereference_not_ptr: "dereference_type t \<noteq> TPtr t'"
  by (induction t rule: dereference_type.induct) simp_all

lemma apply_constraints_Inr:
  assumes "apply_constraints_to_prop L pr c t = Inr pr'"
  shows "sp_type pr' = sp_type pr \<and> sp_description pr' = sp_description pr \<and>
    sp_min_length pr' = (case fc_min_length c of None \<Rightarrow> sp_min_length pr | Some n \<Rightarrow> Some n) \<and>
    sp_max_length pr' = (case fc_max_length c of None \<Rightarrow> sp_max_length pr | Some n \<Rightarrow> Some n) \<and>
    sp_minimum pr' = (case fc_minimum c of None \<Rightarrow> sp_minimum pr | Some x \<Rightarrow> Some x) \<and>
    sp_maximum pr' = (case fc_maximum c of None \<Rightarrow> sp_maximum pr | Some x \<Rightarrow> Some x) \<and>
    sp_pattern pr' = (if fc_pattern c = '''' then sp_pattern pr else fc_pattern c) \<and>
    sp_format pr' = (if fc_format c = '''' then sp_format pr else fc_format c) \<and>
    (let typed = (\<lambda>text v. case dereference_type t of
           TBool \<Rightarrow> \<exists>b. parse_bool text = Some b \<and> v = GBool b
         | TInt _ \<Rightarrow> \<exists>i. atoi text = Some i \<and> v = GNum (itoa i)
         | TUint _ \<Rightarrow> \<exists>i. parse_uint text = Some i \<and> v = GNum (itoa i)
         | TFloat _ \<Rightarrow> \<exists>x. ll_float L text = Some x \<and> v = GNum x
         | _ \<Rightarrow> v = GStr text) in
     (if fc_enum c = [] then sp_enum pr' = sp_enum pr
      else \<exists>texts. fc_enum c = map GStr texts \<and> list_all2 typed texts (sp_enum pr')) \<and>
     (if fc_has_default c
      then \<exists>text v. dec_string '''' (fc_default c) = Some text \<and> typed text v \<and> sp_default pr' = Some (to_json v)
      else sp_default pr' = sp_default pr))"
proof -
  let ?p = "\<lambda>enum. pr\<lparr>sp_min_length := (if fc_min_length c \<noteq> None then fc_min_length c else sp_min_length pr),
                   sp_max_length := (if fc_max_length c \<noteq> None then fc_max_length c else sp_max_length pr),
                   sp_minimum := (if fc_minimum c \<noteq> None then fc_minimum c else sp_minimum pr),
                   sp_maximum := (if fc_maximum c \<noteq> None then fc_maximum c else sp_maximum pr),
                   sp_pattern := (if fc_pattern c \<noteq> '''' then fc_pattern c else sp_pattern pr),
                   sp_format := (if fc_format c \<noteq> '''' then fc_format c else sp_format pr), sp_enum := enum\<rparr>"
  obtain enum where enum: "(if fc_enum c = [] then Inr (sp_enum pr) else coerce_enum_values L (fc_enum c) t) = Inr enum"
    and pr': "if fc_has_default c
      then \<exists>d. coerce_default_value L (fc_default c) t = Inr d \<and> pr' = ?p enum\<lparr>sp_default := Some d\<rparr>
      else pr' = ?p enum"
  proof -
    let ?e = "if fc_enum c = [] then Inr (sp_enum pr) else coerce_enum_values L (fc_enum c) t"
    have a: "(case ?e of Inl e \<Rightarrow> Inl e | Inr enum \<Rightarrow>
        if \<not> fc_has_default c then Inr (?p enum)
        else (case coerce_default_value L (fc_default c) t of
                Inl e \<Rightarrow> Inl e | Inr d \<Rightarrow> Inr (?p enum\<lparr>sp_default := Some d\<rparr>))) = Inr pr'"
      using assms by (simp only: apply_constraints_to_prop_def Let_def)
    show ?thesis
    proof (cases ?e)
      case (Inr enum)
      from a show ?thesis unfolding Inr sum.case
        by (intro that [OF Inr])
          (cases "fc_has_default c"; cases "coerce_default_value L (fc_default c) t"; simp only: if_True if_False
             not_True_eq_False not_False_eq_True sum.case sum.inject sum.distinct; blast)
    qed (use a in simp)
  qed
  let ?fields = "sp_type pr' = sp_type pr \<and> sp_description pr' = sp_description pr \<and>
    sp_min_length pr' = (case fc_min_length c of None \<Rightarrow> sp_min_length pr | Some n \<Rightarrow> Some n) \<and>
    sp_max_length pr' = (case fc_max_length c of None \<Rightarrow> sp_max_length pr | Some n \<Rightarrow> Some n) \<and>
    sp_minimum pr' = (case fc_minimum c of None \<Rightarrow> sp_minimum pr | Some x \<Rightarrow> Some x) \<and>
    sp_maximum pr' = (case fc_maximum c of None \<Rightarrow> sp_maximum pr | Some x \<Rightarrow> Some x) \<and>
    sp_pattern pr' = (if fc_pattern c = '''' then sp_pattern pr else fc_pattern c) \<and>
    sp_format pr' = (if fc_format c = '''' then sp_format pr else fc_format c)"
  have opt: "(if v \<noteq> None then v else w) = (case v of None \<Rightarrow> w | Some x \<Rightarrow> Some x)" for v w :: "'a option"
    by (cases v) simp_all
  have fields: ?fields "sp_enum pr' = enum"
    using pr' by (auto simp: opt split: if_split_asm)
  have typed: "coerce_scalar_literal L lit (dereference_type t) = Inr v \<longleftrightarrow>
      (case dereference_type t of
           TBool \<Rightarrow> \<exists>b. parse_bool lit = Some b \<and> v = GBool b
         | TInt _ \<Rightarrow> \<exists>i. atoi lit = Some i \<and> v = GNum (itoa i)
         | TUint _ \<Rightarrow> \<exists>i. parse_uint lit = Some i \<and> v = GNum (itoa i)
         | TFloat _ \<Rightarrow> \<exists>x. ll_float L lit = Some x \<and> v = GNum x
         | _ \<Rightarrow> v = GStr lit)" for lit v
    by (simp add: coerce_scalar_Inr dereference_not_ptr)
  have "if fc_enum c = [] then sp_enum pr' = sp_enum pr
      else \<exists>texts. fc_enum c = map GStr texts \<and>
        list_all2 (\<lambda>text v. coerce_scalar_literal L text (dereference_type t) = Inr v) texts (sp_enum pr')"
    using enum fields(2) by (auto simp: coerce_enum_values_def coerce_enum_Inr split: if_split_asm)
  moreover have "if fc_has_default c
      then \<exists>text v. dec_string '''' (fc_default c) = Some text \<and>
        coerce_scalar_literal L text (dereference_type t) = Inr v \<and> sp_default pr' = Some (to_json v)
      else sp_default pr' = sp_default pr"
    using pr' by (auto simp: coerce_default_value_def marshal_scalar_def split: sum.splits option.splits if_split_asm)
  ultimately show ?thesis unfolding Let_def using fields(1) unfolding typed by blast
qed

text \<open>
  C37. When a schema is built for a struct whose tagged fields have distinct JSON names, through any number of
  pointers, no property is added or lost and the required list is the library's. Each exported field with a
  tag and a JSON name has its property constrained by exactly its own tag, whatever the other fields say: the
  lengths, bounds, pattern and format the tag gives replace the library's and the ones it does not give stay;
  the enum is its literals, one by one, read for the field's own type behind its pointers (a truth value, a
  signed or unsigned integer, a float, else the text), and the default is the JSON of its literal read in the
  same way. Every other property is the library's.
\<close>

theorem tags_constrain_their_property:
  assumes "schema_for L (Inr sch) t = Inr sch'" "dereference_type t = TStruct tname fs"
    and "distinct (List.map_filter property_of fs)"
  shows "fmdom (ts_properties sch') = fmdom (ts_properties sch) \<and> ts_required sch' = ts_required sch \<and>
    (\<forall>n. Some n \<notin> property_of ` set fs \<longrightarrow>
       fmlookup (ts_properties sch') n = fmlookup (ts_properties sch) n) \<and>
    (\<forall>f \<in> set fs. \<forall>n tag. tagged_property f = Some (n, tag) \<longrightarrow>
       (\<exists>c pr pr'. parse_agentschema L tag = Inr c \<and> fmlookup (ts_properties sch) n = Some pr \<and>
          fmlookup (ts_properties sch') n = Some pr' \<and>
    sp_type pr' = sp_type pr \<and> sp_description pr' = sp_description pr \<and>
    sp_min_length pr' = (case fc_min_length c of None \<Rightarrow> sp_min_length pr | Some n \<Rightarrow> Some n) \<and>
    sp_max_length pr' = (case fc_max_length c of None \<Rightarrow> sp_max_length pr | Some n \<Rightarrow> Some n) \<and>
    sp_minimum pr' = (case fc_minimum c of None \<Rightarrow> sp_minimum pr | Some x \<Rightarrow> Some x) \<and>
    sp_maximum pr' = (case fc_maximum c of None \<Rightarrow> sp_maximum pr | Some x \<Rightarrow> Some x) \<and>
    sp_pattern pr' = (if fc_pattern c = '''' then sp_pattern pr else fc_pattern c) \<and>
    sp_format pr' = (if fc_format c = '''' then sp_format pr else fc_format c) \<and>
    (let typed = (\<lambda>text v. case dereference_type (gf_type f) of
           TBool \<Rightarrow> \<exists>b. parse_bool text = Some b \<and> v = GBool b
         | TInt _ \<Rightarrow> \<exists>i. atoi text = Some i \<and> v = GNum (itoa i)
         | TUint _ \<Rightarrow> \<exists>i. parse_uint text = Some i \<and> v = GNum (itoa i)
         | TFloat _ \<Rightarrow> \<exists>x. ll_float L text = Some x \<and> v = GNum x
         | _ \<Rightarrow> v = GStr text) in
     (if fc_enum c = [] then sp_enum pr' = sp_enum pr
      else \<exists>texts. fc_enum c = map GStr texts \<and> list_all2 typed texts (sp_enum pr')) \<and>
     (if fc_has_default c
      then \<exists>text v. dec_string '''' (fc_default c) = Some text \<and> typed text v \<and> sp_default pr' = Some (to_json v)
      else sp_default pr' = sp_default pr))))"
proof -
  have run: "apply_field_tags L tname sch fs = Inr sch'"
    using assms(1,2) by (simp add: schema_for_def apply_agentschema_tags_def)
  have "finite (the ` (property_of ` set fs))" by simp
  then obtain n where "n \<notin> the ` (property_of ` set fs)" using ex_new_if_finite [OF infinite_UNIV_listI] by metis
  then have "Some n \<notin> property_of ` set fs" by (metis image_eqI option.sel)
  then have frame: "fmdom (ts_properties sch') = fmdom (ts_properties sch) \<and> ts_required sch' = ts_required sch"
    using apply_field_tags_frame [OF run] by blast
  have each: "\<exists>c pr pr'. parse_agentschema L tag = Inr c \<and> fmlookup (ts_properties sch) n = Some pr \<and>
      fmlookup (ts_properties sch') n = Some pr' \<and> apply_constraints_to_prop L pr c (gf_type f) = Inr pr'"
    if "f \<in> set fs" "tagged_property f = Some (n, tag)" for f n tag
    using apply_field_tags_sets [OF run that assms(3)] by blast
  show ?thesis
    apply (intro conjI ballI allI impI)
    subgoal using frame by blast
    subgoal using frame by blast
    subgoal using apply_field_tags_frame [OF run] by blast
    subgoal premises f for f n tag
      using each [OF f] by (elim exE conjE) (rule exI, rule exI, rule exI, rule conjI, assumption, rule conjI, assumption,
          rule conjI, assumption, erule apply_constraints_Inr)
    done
qed

definition plain_prop :: "string \<Rightarrow> schema_prop" where
  "plain_prop ty =
     \<lparr>sp_type = ty, sp_description = '''', sp_min_length = None, sp_max_length = None, sp_minimum = None,
      sp_maximum = None, sp_pattern = '''', sp_format = '''', sp_enum = [], sp_default = None\<rparr>"

definition demo_schema_base :: tool_schema where
  "demo_schema_base =
     \<lparr>ts_properties = fmap_of_list [(''task_id'', plain_prop ''string''), (''limit'', plain_prop ''integer'')],
      ts_required = [''task_id'']\<rparr>"

definition demo_fields :: "go_field list" where
  "demo_fields =
     [GoField ''TaskID'' True (Some ''minLength=1, maxLength=64'') (Some ''task_id'') TString,
      GoField ''Limit'' True (Some ''enum=10,30,default=30'') (Some ''limit,omitempty'') (TInt 64)]"

definition demo_literals :: literal_lib where
  "demo_literals = \<lparr>ll_float = Some, ll_regexp = (\<lambda>_. None)\<rparr>"

theorem tags_constrain_their_property_witness:
  "\<exists>sch' p q. schema_for demo_literals (Inr demo_schema_base) (TPtr (TStruct ''In'' demo_fields)) = Inr sch' \<and>
     fmlookup (ts_properties sch') ''task_id'' = Some p \<and> sp_min_length p = Some 1 \<and>
     fmlookup (ts_properties sch') ''limit'' = Some q \<and> sp_default q = Some (JNum ''30'') \<and> ts_required sch' = [''task_id'']"
proof -
  let ?t = "TPtr (TStruct ''In'' demo_fields)"
  have "\<not> isl (schema_for demo_literals (Inr demo_schema_base) ?t)" by code_simp
  then obtain sch' where s: "schema_for demo_literals (Inr demo_schema_base) ?t = Inr sch'"
    by (cases "schema_for demo_literals (Inr demo_schema_base) ?t") simp_all
  have d: "distinct (List.map_filter property_of demo_fields)" "dereference_type ?t = TStruct ''In'' demo_fields"
    by code_simp+
  note c = tags_constrain_their_property [OF s d(2,1)]
  have 1: "tagged_property (hd demo_fields) = Some (''task_id'', ''minLength=1, maxLength=64'')"
    "tagged_property (demo_fields ! 1) = Some (''limit'', ''enum=10,30,default=30'')"
    "hd demo_fields \<in> set demo_fields" "demo_fields ! 1 \<in> set demo_fields"
    by (code_simp, code_simp, simp_all add: demo_fields_def)
  note member = c [THEN conjunct2, THEN conjunct2, THEN conjunct2, THEN bspec, THEN spec, THEN spec, THEN mp]
  have 2: "map_sum id fc_min_length (parse_agentschema demo_literals ''minLength=1, maxLength=64'') = Inr (Some 1)"
    "map_sum id (\<lambda>c. (fc_has_default c, fc_default c)) (parse_agentschema demo_literals ''enum=10,30,default=30'') =
       Inr (True, JStr ''30'')"
    by code_simp+
  have 3: "gf_type (hd demo_fields) = TString" "gf_type (demo_fields ! 1) = TInt 64"
    "ts_required demo_schema_base = [''task_id'']"
    by (simp_all add: demo_schema_base_def demo_fields_def)
  have 4: "atoi ''30'' = Some 30" "itoa 30 = ''30''" by code_simp+
  from member [OF 1(3,1)] 2(1) obtain p where p: "fmlookup (ts_properties sch') ''task_id'' = Some p" "sp_min_length p = Some 1"
    by (elim exE conjE) simp
  from member [OF 1(4,2)] 2(2) 3(2) 4 obtain q where "fmlookup (ts_properties sch') ''limit'' = Some q" "sp_default q = Some (JNum ''30'')"
    by (elim exE conjE) (simp add: Let_def)
  moreover have "ts_required sch' = [''task_id'']" using c 3(3) by simp
  ultimately show ?thesis using s p
    by (intro exI [of _ sch'] exI [of _ p] exI [of _ q] conjI)
qed

subsection \<open>Tags written from constraints\<close>

text \<open>
  The tag a set of constraints is written as, one segment per constraint in a fixed order. A value can be
  written when it neither starts nor ends with a byte the parser trims and holds no comma.
\<close>

definition tag_value :: "string \<Rightarrow> bool" where
  "tag_value v \<longleftrightarrow> v \<noteq> '''' \<and> plain_byte (hd v) \<and> plain_byte (last v) \<and> CHR '','' \<notin> set v"

definition segment :: "string \<Rightarrow> string \<Rightarrow> string" where
  "segment key val = key @ ''='' @ val"

definition opt_segment :: "string \<Rightarrow> string option \<Rightarrow> string list" where
  "opt_segment key v = (case v of None \<Rightarrow> [] | Some s \<Rightarrow> [segment key s])"

lemma trim_segment:
  assumes "tag_value val" "key \<noteq> ''''" "plain_byte (hd key)"
  shows "trim_space (segment key val) = segment key val"
  using assms by (intro trim_space_plain) (simp_all add: segment_def tag_value_def)

lemma contains_char [simp]: "contains s [c] \<longleftrightarrow> c \<in> set s"
  by (auto simp: contains_iff in_set_conv_decomp)

lemma merge_loop_keyed:
  assumes "\<forall>p \<in> set ps. trim_space p = p \<and> CHR ''='' \<in> set p"
  shows "merge_loop merged (ps @ qs) = merge_loop (merged @ ps) qs"
  using assms
proof (induction ps arbitrary: merged)
  case (Cons p ps)
  then have "trim_space p = p" "CHR ''='' \<in> set p" "p \<noteq> ''''" by auto
  with Cons show ?case by (simp add: Let_def)
qed simp

text \<open>The values after the first of an enum come back to its segment.\<close>

lemma merge_loop_enum:
  assumes "\<forall>v \<in> set vs. tag_value v \<and> CHR ''='' \<notin> set v" "has_prefix l ''enum=''"
  shows "merge_loop (merged @ [l]) (vs @ qs) = merge_loop (merged @ [join '','' (l # vs)]) qs"
  using assms
proof (induction vs arbitrary: l)
  case (Cons v vs)
  then have v: "trim_space v = v" "CHR ''='' \<notin> set v" "v \<noteq> ''''"
    by (auto simp: tag_value_def intro: trim_space_plain)
  have "has_prefix (l @ '','' @ v) ''enum=''"
    using Cons.prems(2) by (auto simp: has_prefix_iff)
  with Cons have "merge_loop (merged @ [l @ '','' @ v]) (vs @ qs) = merge_loop (merged @ [join '','' ((l @ '','' @ v) # vs)]) qs"
    by simp
  moreover have "join '','' ((l @ '','' @ v) # vs) = join '','' (l # v # vs)" by (cases vs) simp_all
  ultimately show ?case using v Cons.prems(2) by (simp add: Let_def)
qed simp

definition enum_texts :: "goval list \<Rightarrow> string list" where
  "enum_texts = map (\<lambda>v. case as_string v of Some s \<Rightarrow> s | None \<Rightarrow> '''')"

definition text_option :: "string \<Rightarrow> string option" where
  "text_option s = (if s = '''' then None else Some s)"

definition default_text :: "field_constraints \<Rightarrow> string option" where
  "default_text c = (if fc_has_default c then dec_string '''' (fc_default c) else None)"

definition tag_pieces :: "field_constraints \<Rightarrow> string list \<times> string list \<times> string list" where
  \<comment> \<open>the segments before enum, the pieces of enum, the segments after it\<close>
  "tag_pieces c =
     (opt_segment ''minLength'' (map_option itoa (fc_min_length c)) @
      opt_segment ''maxLength'' (map_option itoa (fc_max_length c)) @
      opt_segment ''minimum'' (fc_minimum c) @ opt_segment ''maximum'' (fc_maximum c) @
      opt_segment ''pattern'' (text_option (fc_pattern c)) @ opt_segment ''format'' (text_option (fc_format c)),
      (case enum_texts (fc_enum c) of [] \<Rightarrow> [] | v # vs \<Rightarrow> segment ''enum'' v # vs),
      opt_segment ''default'' (default_text c))"

definition write_tag :: "field_constraints \<Rightarrow> string" where
  "write_tag c = (case tag_pieces c of (before, enum, after) \<Rightarrow> join '','' (before @ enum @ after))"

definition writable :: "literal_lib \<Rightarrow> field_constraints \<Rightarrow> bool" where
  "writable L c \<longleftrightarrow>
     pred_option in_int64 (fc_min_length c) \<and> pred_option in_int64 (fc_max_length c) \<and>
     pred_option (\<lambda>f. tag_value f \<and> ll_float L f = Some f) (fc_minimum c) \<and>
     pred_option (\<lambda>f. tag_value f \<and> ll_float L f = Some f) (fc_maximum c) \<and>
     pred_option (\<lambda>p. tag_value p \<and> ll_regexp L p = None) (text_option (fc_pattern c)) \<and>
     pred_option tag_value (text_option (fc_format c)) \<and>
     fc_enum c = map GStr (enum_texts (fc_enum c)) \<and>
     list_all (\<lambda>v. tag_value v \<and> CHR ''='' \<notin> set v) (enum_texts (fc_enum c)) \<and>
     (if fc_has_default c then (\<exists>d. fc_default c = JStr d \<and> tag_value d) else fc_default c = JNull)"

lemma tag_value_itoa [simp]: "tag_value (itoa n)"
  using plain_itoa [of "hd (itoa n)" n] plain_itoa [of "last (itoa n)" n] itoa_chars [of "CHR '',''" n]
  by (auto simp: tag_value_def)

lemma trim_tag_value: "tag_value v \<Longrightarrow> trim_space v = v"
  by (auto simp: tag_value_def intro: trim_space_plain)

lemma parse_one_segment:
  assumes "CHR ''='' \<notin> set key" "trim_space key = key" "trim_space val = val" "val \<noteq> ''''"
    and "parse_constraint L key val out = Inr out'"
  shows "parse_segments L out (segment key val # ps) = parse_segments L out' ps"
proof -
  have "string_cut (segment key val) CHR ''='' = (key, val, True)"
    using assms(1) by (induction key) (auto simp: string_cut_def segment_def)
  then show ?thesis by (simp add: assms(2-5) Let_def)
qed

lemma parse_opt_segment:
  assumes "CHR ''='' \<notin> set key" "trim_space key = key" "pred_option tag_value v"
    and "\<And>s. v = Some s \<Longrightarrow> parse_constraint L key s out = Inr (upd out)" "v = None \<Longrightarrow> upd out = out"
  shows "parse_segments L out (opt_segment key v @ ps) = parse_segments L (upd out) ps"
proof (cases v)
  case (Some s)
  then have "tag_value s" using assms(3) by simp
  with Some parse_one_segment [OF assms(1,2) trim_tag_value _ assms(4) [OF Some]] show ?thesis
    by (auto simp: opt_segment_def tag_value_def)
qed (simp add: opt_segment_def assms(5))

lemma join_ends:
  assumes "ps \<noteq> []" "\<forall>p \<in> set ps. p \<noteq> []"
  shows "join sep ps \<noteq> [] \<and> hd (join sep ps) = hd (hd ps) \<and> last (join sep ps) = last (last ps)"
  using assms by (induction sep ps rule: join.induct) auto

lemma join_append: "xs \<noteq> [] \<Longrightarrow> ys \<noteq> [] \<Longrightarrow> join sep (xs @ ys) = join sep xs @ sep @ join sep ys"
proof (induction sep xs rule: join.induct)
  case (2 sep p)
  then show ?case by (cases ys) auto
qed auto

lemma segment_enum_join: "segment ''enum'' (join '','' (v # vs)) = join '','' (segment ''enum'' v # vs)"
  by (cases vs) (simp_all add: segment_def)

lemma parse_enum_join:
  assumes "list_all (\<lambda>v. tag_value v \<and> CHR ''='' \<notin> set v) vs" "vs \<noteq> []"
  shows "parse_enum_literal (join '','' vs) = Inr (map GStr vs)"
proof -
  have v: "\<forall>v \<in> set vs. v \<noteq> '''' \<and> CHR '','' \<notin> set v \<and> trim_space v = v"
    using assms(1) trim_tag_value by (auto simp: list_all_iff tag_value_def)
  have "split_on CHR '','' (join '','' vs) = vs" using split_on_join [of vs "CHR '',''"] assms(2) v by blast
  moreover have "map trim_space vs = vs" using v by (intro map_idI) simp
  moreover have "filter (\<lambda>p. p \<noteq> '''') vs = vs" using v by (intro filter_True) simp
  ultimately show ?thesis using assms(2) by (simp add: parse_enum_literal_def)
qed

lemma opt_segment_ok:
  assumes "pred_option tag_value v" "key \<noteq> ''''" "plain_byte (hd key)" "CHR '','' \<notin> set key"
  shows "\<forall>p \<in> set (opt_segment key v). tag_value p \<and> CHR ''='' \<in> set p"
  using assms by (cases v) (auto simp: opt_segment_def segment_def tag_value_def)

lemma writable_pieces:
  assumes "writable L c" "tag_pieces c = (before, enum, after)"
  shows "\<forall>p \<in> set (before @ after). tag_value p \<and> CHR ''='' \<in> set p" "\<forall>p \<in> set enum. tag_value p"
    "enum \<noteq> [] \<longleftrightarrow> enum_texts (fc_enum c) \<noteq> []"
    "enum \<noteq> [] \<Longrightarrow> hd enum = segment ''enum'' (hd (enum_texts (fc_enum c))) \<and> tl enum = tl (enum_texts (fc_enum c))"
proof -
  have keys: "plain_byte (hd ''minLength'')" "plain_byte (hd ''minimum'')" "plain_byte (hd ''pattern'')"
    "plain_byte (hd ''format'')" "plain_byte (hd ''enum'')" "plain_byte (hd ''default'')"
    by (simp_all add: plain_byte_def)
  have vals: "pred_option tag_value (map_option itoa (fc_min_length c))" "pred_option tag_value (map_option itoa (fc_max_length c))"
    "pred_option tag_value (fc_minimum c)" "pred_option tag_value (fc_maximum c)"
    "pred_option tag_value (text_option (fc_pattern c))" "pred_option tag_value (text_option (fc_format c))"
    "pred_option tag_value (default_text c)"
    using assms(1) by (auto simp: writable_def default_text_def option.pred_map pred_option_def split: if_splits)
  have parts: "before = opt_segment ''minLength'' (map_option itoa (fc_min_length c)) @
      opt_segment ''maxLength'' (map_option itoa (fc_max_length c)) @
      opt_segment ''minimum'' (fc_minimum c) @ opt_segment ''maximum'' (fc_maximum c) @
      opt_segment ''pattern'' (text_option (fc_pattern c)) @ opt_segment ''format'' (text_option (fc_format c))"
    "enum = (case enum_texts (fc_enum c) of [] \<Rightarrow> [] | v # vs \<Rightarrow> segment ''enum'' v # vs)"
    "after = opt_segment ''default'' (default_text c)"
    using assms(2) by (simp_all add: tag_pieces_def)
  show "\<forall>p \<in> set (before @ after). tag_value p \<and> CHR ''='' \<in> set p"
    unfolding parts set_append ball_Un
    using keys by (intro conjI opt_segment_ok vals) simp_all
  have "list_all tag_value (enum_texts (fc_enum c))"
    using assms(1) by (auto simp: writable_def list_all_iff)
  then show "\<forall>p \<in> set enum. tag_value p"
    using keys(5) unfolding parts
    by (cases "enum_texts (fc_enum c)") (auto simp: segment_def tag_value_def list_all_iff)
  show "enum \<noteq> [] \<longleftrightarrow> enum_texts (fc_enum c) \<noteq> []"
    "enum \<noteq> [] \<Longrightarrow> hd enum = segment ''enum'' (hd (enum_texts (fc_enum c))) \<and> tl enum = tl (enum_texts (fc_enum c))"
    unfolding parts by (simp_all split: list.splits)
qed

text \<open>The segments that a written tag is parsed in.\<close>

lemma merge_write_tag:
  assumes "writable L c" "tag_pieces c = (before, enum, after)" "before @ enum @ after \<noteq> []"
  shows "trim_space (write_tag c) = write_tag c" "write_tag c \<noteq> ''''"
    "merge_agentschema_segments (write_tag c) =
       before @ opt_segment ''enum'' (if enum = [] then None else Some (join '','' (enum_texts (fc_enum c)))) @ after"
proof -
  let ?ps = "before @ enum @ after"
  note ok = writable_pieces [OF assms(1,2)]
  have all: "\<forall>p \<in> set ?ps. tag_value p" using ok(1,2) by auto
  then have ne: "\<forall>p \<in> set ?ps. p \<noteq> []" by (simp add: tag_value_def)
  have w: "write_tag c = join '','' ?ps" by (simp add: write_tag_def assms(2))
  have "hd ?ps \<in> set ?ps" "last ?ps \<in> set ?ps" using assms(3) by (rule hd_in_set, rule last_in_set)
  with all have plain: "plain_byte (hd (hd ?ps))" "plain_byte (last (last ?ps))" by (auto simp: tag_value_def)
  from join_ends [OF assms(3) ne, of "'',''"] show "write_tag c \<noteq> ''''" by (simp only: w not_False_eq_True)
  from join_ends [OF assms(3) ne, of "'',''"] plain show "trim_space (write_tag c) = write_tag c"
    unfolding w by (intro trim_space_plain) (simp_all only:)
  have "split_on CHR '','' (write_tag c) = ?ps"
    unfolding w using all assms(3) by (intro split_on_join) (auto simp: tag_value_def)
  then have m: "merge_agentschema_segments (write_tag c) = merge_loop [] ?ps"
    by (simp only: merge_agentschema_segments_def)
  have before: "merge_loop [] ?ps = merge_loop before (enum @ after)"
    using merge_loop_keyed [of before "[]" "enum @ after"] ok(1) trim_tag_value by simp
  have after: "merge_loop xs after = xs @ after" for xs
    using merge_loop_keyed [of after xs "[]"] ok(1) trim_tag_value by simp
  show "merge_agentschema_segments (write_tag c) =
       before @ opt_segment ''enum'' (if enum = [] then None else Some (join '','' (enum_texts (fc_enum c)))) @ after"
  proof (cases "enum = []")
    case True
    then show ?thesis unfolding m before by (simp add: after opt_segment_def)
  next
    case False
    with ok(3,4) obtain v vs where e: "enum_texts (fc_enum c) = v # vs" "enum = segment ''enum'' v # vs"
      by (metis list.collapse)
    have vs: "\<forall>x \<in> set vs. tag_value x \<and> CHR ''='' \<notin> set x"
      using assms(1) e(1) by (auto simp: writable_def list_all_iff)
    have "tag_value (segment ''enum'' v)" using all e(2) by simp
    then have t: "trim_space (segment ''enum'' v) = segment ''enum'' v" by (rule trim_tag_value)
    have "merge_loop before (enum @ after) = merge_loop (before @ [segment ''enum'' v]) (vs @ after)"
      using t by (simp add: e(2) Let_def) (simp add: segment_def)
    also have "\<dots> = before @ [join '','' (segment ''enum'' v # vs)] @ after"
      using merge_loop_enum [OF vs, of "segment ''enum'' v" before after] after
      by (simp add: segment_def has_prefix_def)
    finally show ?thesis
      using False unfolding m before by (simp add: opt_segment_def e(1) segment_enum_join)
  qed
qed

text \<open>Parsing them one after the other sets one field each.\<close>

lemma enum_join_value:
  assumes "list_all (\<lambda>v. tag_value v \<and> CHR ''='' \<notin> set v) vs" "vs \<noteq> []"
  shows "trim_space (join '','' vs) = join '','' vs \<and> join '','' vs \<noteq> ''''"
proof -
  have ne: "\<forall>v \<in> set vs. v \<noteq> []" using assms(1) by (auto simp: list_all_iff tag_value_def)
  have "hd vs \<in> set vs" "last vs \<in> set vs" using assms(2) by simp_all
  with assms(1) have "plain_byte (hd (hd vs))" "plain_byte (last (last vs))" by (auto simp: list_all_iff tag_value_def)
  with join_ends [OF assms(2) ne, of "'',''"] show ?thesis by (simp add: trim_space_plain)
qed

lemma parse_number_segments:
  assumes "pred_option in_int64 v" "key \<in> set [''minLength'', ''maxLength'']"
    and "if key = ''minLength'' then fc_min_length out = None else fc_max_length out = None"
  shows "parse_segments L out (opt_segment key (map_option itoa v) @ ps) =
    parse_segments L (if key = ''minLength'' then out\<lparr>fc_min_length := v\<rparr> else out\<lparr>fc_max_length := v\<rparr>) ps"
proof (rule parse_opt_segment)
  show "CHR ''='' \<notin> set key" "trim_space key = key"
    using assms(2) by (auto simp: plain_byte_def intro!: trim_space_plain)
  show "pred_option tag_value (map_option itoa v)" by (cases v) simp_all
  show "parse_constraint L key s out = Inr (if key = ''minLength'' then out\<lparr>fc_min_length := v\<rparr> else out\<lparr>fc_max_length := v\<rparr>)"
    if "map_option itoa v = Some s" for s
    using that assms by (auto simp: parse_constraint_def atoi_itoa)
  show "(if key = ''minLength'' then out\<lparr>fc_min_length := v\<rparr> else out\<lparr>fc_max_length := v\<rparr>) = out"
    if "map_option itoa v = None"
    using that assms(2,3) by (cases out) (auto split: if_splits)
qed

lemma parse_float_segments:
  assumes "pred_option (\<lambda>f. tag_value f \<and> ll_float L f = Some f) v" "key \<in> set [''minimum'', ''maximum'']"
    and "if key = ''minimum'' then fc_minimum out = None else fc_maximum out = None"
  shows "parse_segments L out (opt_segment key v @ ps) =
    parse_segments L (if key = ''minimum'' then out\<lparr>fc_minimum := v\<rparr> else out\<lparr>fc_maximum := v\<rparr>) ps"
proof (rule parse_opt_segment)
  show "CHR ''='' \<notin> set key" "trim_space key = key"
    using assms(2) by (auto simp: plain_byte_def intro!: trim_space_plain)
  show "pred_option tag_value v" using assms(1) by (simp add: pred_option_def)
  show "parse_constraint L key s out = Inr (if key = ''minimum'' then out\<lparr>fc_minimum := v\<rparr> else out\<lparr>fc_maximum := v\<rparr>)"
    if "v = Some s" for s
    using that assms by (auto simp: parse_constraint_def)
  show "(if key = ''minimum'' then out\<lparr>fc_minimum := v\<rparr> else out\<lparr>fc_maximum := v\<rparr>) = out" if "v = None"
    using that assms(2,3) by (cases out) (auto split: if_splits)
qed

lemma parse_text_segments:
  assumes "pred_option tag_value (text_option v)" "key \<in> set [''pattern'', ''format'']"
    and "key = ''pattern'' \<Longrightarrow> v \<noteq> '''' \<Longrightarrow> ll_regexp L v = None"
    and "if key = ''pattern'' then fc_pattern out = '''' else fc_format out = ''''"
  shows "parse_segments L out (opt_segment key (text_option v) @ ps) =
    parse_segments L (if key = ''pattern'' then out\<lparr>fc_pattern := v\<rparr> else out\<lparr>fc_format := v\<rparr>) ps"
proof (rule parse_opt_segment)
  show "CHR ''='' \<notin> set key" "trim_space key = key"
    using assms(2) by (auto simp: plain_byte_def intro!: trim_space_plain)
  show "pred_option tag_value (text_option v)" by (rule assms(1))
  show "parse_constraint L key s out = Inr (if key = ''pattern'' then out\<lparr>fc_pattern := v\<rparr> else out\<lparr>fc_format := v\<rparr>)"
    if "text_option v = Some s" for s
    using that assms(2,3) by (auto simp: parse_constraint_def text_option_def split: if_splits)
  show "(if key = ''pattern'' then out\<lparr>fc_pattern := v\<rparr> else out\<lparr>fc_format := v\<rparr>) = out" if "text_option v = None"
    using that assms(2,4) by (cases out) (auto simp: text_option_def split: if_splits)
qed

lemma parse_enum_segments:
  assumes "list_all (\<lambda>v. tag_value v \<and> CHR ''='' \<notin> set v) vs" "fc_enum out = []"
  shows "parse_segments L out (opt_segment ''enum'' (if vs = [] then None else Some (join '','' vs)) @ ps) =
    parse_segments L (out\<lparr>fc_enum := map GStr vs\<rparr>) ps"
proof (cases "vs = []")
  case True
  then show ?thesis using assms(2) by (cases out) (simp add: opt_segment_def)
next
  case False
  have k: "trim_space ''enum'' = ''enum''" by (simp add: plain_byte_def trim_space_plain)
  have "parse_constraint L ''enum'' (join '','' vs) out = Inr (out\<lparr>fc_enum := map GStr vs\<rparr>)"
    by (simp add: parse_constraint_def parse_enum_join [OF assms(1) False])
  from parse_one_segment [OF _ k _ _ this] enum_join_value [OF assms(1) False] False show ?thesis
    by (simp add: opt_segment_def)
qed

lemma parse_default_segment:
  assumes "if fc_has_default c then (\<exists>d. fc_default c = JStr d \<and> tag_value d) else fc_default c = JNull"
    and "fc_default out = JNull" "\<not> fc_has_default out"
  shows "parse_segments L out (opt_segment ''default'' (default_text c)) =
    Inr (out\<lparr>fc_default := fc_default c, fc_has_default := fc_has_default c\<rparr>)"
proof -
  let ?upd = "\<lambda>o1. o1\<lparr>fc_default := fc_default c, fc_has_default := fc_has_default c\<rparr>"
  have "parse_segments L out (opt_segment ''default'' (default_text c) @ []) = parse_segments L (?upd out) []"
  proof (rule parse_opt_segment)
    show "CHR ''='' \<notin> set ''default''" "trim_space ''default'' = ''default''"
      by (simp_all add: plain_byte_def trim_space_plain)
    show "pred_option tag_value (default_text c)"
      using assms(1) by (auto simp: default_text_def split: if_splits)
    show "parse_constraint L ''default'' s out = Inr (?upd out)" if "default_text c = Some s" for s
      using that assms(1) by (auto simp: default_text_def parse_constraint_def split: if_splits)
    show "?upd out = out" if "default_text c = None"
      using that assms by (cases out) (auto simp: default_text_def split: if_splits)
  qed
  then show ?thesis by simp
qed

lemma parse_written_segments:
  assumes "writable L c" "tag_pieces c = (before, enum, after)"
  shows "parse_segments L no_constraints
    (before @ opt_segment ''enum'' (if enum = [] then None else Some (join '','' (enum_texts (fc_enum c)))) @ after) = Inr c"
proof -
  let ?vs = "enum_texts (fc_enum c)"
  have nil: "enum = [] \<longleftrightarrow> ?vs = []" using writable_pieces(3) [OF assms] by blast
  have before: "before = opt_segment ''minLength'' (map_option itoa (fc_min_length c)) @
      opt_segment ''maxLength'' (map_option itoa (fc_max_length c)) @
      opt_segment ''minimum'' (fc_minimum c) @ opt_segment ''maximum'' (fc_maximum c) @
      opt_segment ''pattern'' (text_option (fc_pattern c)) @ opt_segment ''format'' (text_option (fc_format c))"
    and after: "after = opt_segment ''default'' (default_text c)"
    using assms(2) by (simp_all add: tag_pieces_def)
  have w: "pred_option in_int64 (fc_min_length c)" "pred_option in_int64 (fc_max_length c)"
    "pred_option (\<lambda>f. tag_value f \<and> ll_float L f = Some f) (fc_minimum c)"
    "pred_option (\<lambda>f. tag_value f \<and> ll_float L f = Some f) (fc_maximum c)"
    "pred_option tag_value (text_option (fc_pattern c))" "fc_pattern c \<noteq> '''' \<Longrightarrow> ll_regexp L (fc_pattern c) = None"
    "pred_option tag_value (text_option (fc_format c))" "map GStr ?vs = fc_enum c"
    "list_all (\<lambda>v. tag_value v \<and> CHR ''='' \<notin> set v) ?vs"
    "if fc_has_default c then (\<exists>d. fc_default c = JStr d \<and> tag_value d) else fc_default c = JNull"
    using assms(1) by (auto simp: writable_def pred_option_def text_option_def split: if_splits)
  note number = parse_number_segments [OF w(1), where key = "''minLength''"]
    parse_number_segments [OF w(2), where key = "''maxLength''"]
  note float = parse_float_segments [OF w(3), where key = "''minimum''"]
    parse_float_segments [OF w(4), where key = "''maximum''"]
  have texts: "fc_pattern out = '''' \<Longrightarrow> parse_segments L out (opt_segment ''pattern'' (text_option (fc_pattern c)) @ ps) =
      parse_segments L (out\<lparr>fc_pattern := fc_pattern c\<rparr>) ps"
    "fc_format out = '''' \<Longrightarrow> parse_segments L out (opt_segment ''format'' (text_option (fc_format c)) @ ps) =
      parse_segments L (out\<lparr>fc_format := fc_format c\<rparr>) ps" for out ps
    using parse_text_segments [OF w(5), of "''pattern''" L out ps] parse_text_segments [OF w(7), of "''format''" L out ps] w(6)
    by simp_all
  show ?thesis
    unfolding before after nil append_assoc no_constraints_def
    by (simp add: number float texts w(6,8) parse_enum_segments [OF w(9)] parse_default_segment [OF w(10)])
qed

text \<open>
  C38. A tag written from constraints is read back as exactly those constraints: numbers in the range of an
  integer, float texts, patterns that compile, formats, any enum and a default, whichever of them are there, as
  long as no value holds a comma or starts or ends with white space, and no enum value holds an equals sign.
\<close>

theorem tag_roundtrip:
  assumes "writable L c"
  shows "parse_agentschema L (write_tag c) = Inr c"
proof -
  obtain before enum after where p: "tag_pieces c = (before, enum, after)" by (cases "tag_pieces c") auto
  note parsed = parse_written_segments [OF assms p]
  show ?thesis
  proof (cases "before @ enum @ after = []")
    case True
    then have "write_tag c = ''''" by (simp add: write_tag_def p)
    then have "parse_agentschema L (write_tag c) = Inr no_constraints" by (simp add: parse_agentschema_def)
    also have "\<dots> = Inr c" using parsed True by (simp add: opt_segment_def)
    finally show ?thesis .
  next
    case False
    note m = merge_write_tag [OF assms p False]
    show ?thesis by (simp only: parse_agentschema_def Let_def m if_False parsed)
  qed
qed

definition demo_constraints :: field_constraints where
  "demo_constraints = no_constraints\<lparr>fc_min_length := Some 1, fc_pattern := ''^[a-z]+$'',
     fc_enum := [GStr ''opt_in'', GStr ''opt_out''], fc_default := JStr ''opt_in'', fc_has_default := True\<rparr>"

theorem tag_roundtrip_witness:
  "write_tag demo_constraints = ''minLength=1,pattern=^[a-z]+$,enum=opt_in,opt_out,default=opt_in'' \<and>
   parse_agentschema demo_literals (write_tag demo_constraints) = Inr demo_constraints"
proof -
  have one: "itoa 1 = ''1''" by code_simp
  have "writable demo_literals demo_constraints"
    by (simp add: writable_def demo_constraints_def no_constraints_def demo_literals_def text_option_def enum_texts_def
        tag_value_def plain_byte_def in_int64_def int64_min_def int64_max_def)
  from tag_roundtrip [OF this] show ?thesis
    by (simp add: write_tag_def tag_pieces_def demo_constraints_def no_constraints_def opt_segment_def segment_def
        text_option_def enum_texts_def default_text_def one)
qed

end
