(* ===== verification/ConnectorTest.thy ===== *)
theory ConnectorTest
  imports ToolSchema
begin

section \<open>Checks of a connector's tool catalog (connectortest)\<close>

text \<open>
  The helpers a connector's tests call on the source of its register.go and on its tool schemas. What the
  regular expressions match in a source text is an argument (\<open>regexp\<close> is not modelled): the names they
  capture, in order.
\<close>

subsection \<open>Names in register.go (register.go)\<close>

record register_matches =
  rm_names :: "string list"                    \<comment> \<open>\<open>Name: "..."\<close>\<close>
  rm_held_struct :: "(string \<times> string) list"   \<comment> \<open>\<open>Hold: true\<close> before or after the name\<close>
  rm_held_option :: "string list"              \<comment> \<open>\<open>AddTool(... WithHold())\<close>\<close>
  rm_ellipsis :: "string list"                 \<comment> \<open>descriptions with \<open>...\<close>\<close>

definition first_non_empty :: "string list \<Rightarrow> string" where
  "first_non_empty vs = (case find (\<lambda>v. trim_space v \<noteq> '''') vs of None \<Rightarrow> '''' | Some v \<Rightarrow> v)"

fun collect_names :: "string list \<Rightarrow> string list \<Rightarrow> string list \<Rightarrow> string list \<times> string list" where
  \<comment> \<open>the loop of both parsers: the names seen, the output, the matches left\<close>
  "collect_names seen out [] = (seen, out)"
| "collect_names seen out (m # ms) =
     (let name = trim_space m in
      if name = '''' then collect_names seen out ms
      else if name \<in> set seen then collect_names seen out ms
      else collect_names (name # seen) (out @ [name]) ms)"

definition parse_register_tool_names :: "register_matches \<Rightarrow> string list" where
  "parse_register_tool_names rm = sort (snd (collect_names [] [] (rm_names rm)))"

definition parse_held_tool_names :: "register_matches \<Rightarrow> string list" where
  "parse_held_tool_names rm =
     (case collect_names [] [] (map (\<lambda>(a, b). first_non_empty [a, b]) (rm_held_struct rm)) of
        (seen, out) \<Rightarrow> sort (snd (collect_names seen out (rm_held_option rm))))"

definition publishable_names :: "string list \<Rightarrow> string list \<Rightarrow> string list" where
  "publishable_names registered held = filter (\<lambda>n. n \<notin> set held) registered"

subsection \<open>The naming policy\<close>

record wire_name_policy =
  vendor_prefix :: string
  allowed_top_level :: "string list"
  allowed_unprefixed :: "string list"
  forbidden_exact :: "string list"

definition name_violation :: "wire_name_policy \<Rightarrow> string \<Rightarrow> string option" where
  "name_violation pol name =
     (let prefix_u = trim_space (vendor_prefix pol) @ ''_'';
          top = map trim_space (allowed_top_level pol);
          forbidden = map trim_space (forbidden_exact pol);
          unprefixed = map trim_space (allowed_unprefixed pol) in
      if name \<in> set forbidden then Some (name @ '': forbidden (removed tool)'')
      else if name \<in> set unprefixed then None
      else if \<not> has_prefix name prefix_u then Some (name @ '': must start with '' @ quoted prefix_u)
      else
        (let body = trim_prefix name prefix_u; parts = split_on CHR ''_'' body in
         if length parts < 1 \<or> hd parts = '''' then Some (name @ '': missing action segment'')
         else if length parts = 1 then
           (if name \<notin> set top then Some (name @ '': top-level action not in AllowedTopLevel'') else None)
         else if name \<in> set top then Some (name @ '': listed as top-level but has resource segments'')
         else None))"

definition bullet :: string where
  "bullet = CHR 0x0A # ''  - ''"

definition validate_wire_names :: "string list \<Rightarrow> wire_name_policy \<Rightarrow> string option" where
  \<comment> \<open>the error, if any\<close>
  "validate_wire_names names pol =
     (if trim_space (vendor_prefix pol) = '''' then Some ''WireNamePolicy.VendorPrefix is required''
      else
        (let violations = List.map_filter (name_violation pol) names in
         if violations \<noteq> [] then Some (''wire name policy:'' @ bullet @ join bullet (sort violations)) else None))"

definition validate_tool_count :: "string list \<Rightarrow> int \<Rightarrow> int \<Rightarrow> string option" where
  "validate_tool_count names lo hi =
     (let n = int (length names) in
      if n < lo \<or> hi < n
      then Some (''tool count '' @ itoa n @ '' outside ['' @ itoa lo @ '', '' @ itoa hi @ '']'') else None)"

definition validate_catalog_excludes_held :: "string list \<Rightarrow> string list \<Rightarrow> string option" where
  "validate_catalog_excludes_held held catalog =
     (let violations = filter (\<lambda>n. n \<in> set catalog) held in
      if violations \<noteq> []
      then Some (''held tools must not appear in catalog: '' @ join '', '' (sort violations)) else None)"

definition validate_descriptions_no_ellipsis :: "register_matches \<Rightarrow> string option" where
  "validate_descriptions_no_ellipsis rm =
     (if rm_ellipsis rm = [] then None
      else Some (''descriptions must not use ... ellipsis in API paths:'' @ bullet @ join bullet (rm_ellipsis rm)))"

subsection \<open>What passes\<close>

lemma collect_names_spec:
  "collect_names seen out ms =
     (rev (dedup_from seen (filter (\<lambda>s. s \<noteq> '''') (map trim_space ms))) @ seen,
      out @ dedup_from seen (filter (\<lambda>s. s \<noteq> '''') (map trim_space ms)))"
  by (induction seen out ms rule: collect_names.induct) (simp_all add: Let_def)

lemma parse_register_tool_names_spec:
  "sorted (parse_register_tool_names rm) \<and> distinct (parse_register_tool_names rm) \<and>
   set (parse_register_tool_names rm) = trim_space ` set (rm_names rm) - {''''}"
  by (auto simp: parse_register_tool_names_def collect_names_spec)

lemma split_first_empty: "hd (split_on d s) = [] \<longleftrightarrow> s = [] \<or> hd s = d"
  by (cases s) (auto split: list.splits)

lemma split_single_iff: "length (split_on d s) = Suc 0 \<longleftrightarrow> d \<notin> set s"
  by (auto simp: length_split_on count_byte_def filter_empty_conv)

lemma name_violation_None:
  "name_violation pol name = None \<longleftrightarrow>
     name \<notin> trim_space ` set (forbidden_exact pol) \<and>
     (name \<in> trim_space ` set (allowed_unprefixed pol) \<or>
      (\<exists>body. name = trim_space (vendor_prefix pol) @ ''_'' @ body \<and> body \<noteq> '''' \<and> hd body \<noteq> CHR ''_'' \<and>
         (name \<in> trim_space ` set (allowed_top_level pol) \<longleftrightarrow> CHR ''_'' \<notin> set body)))"
proof (cases "has_prefix name (trim_space (vendor_prefix pol) @ ''_'')")
  case True
  then obtain body where b: "name = trim_space (vendor_prefix pol) @ ''_'' @ body"
    by (auto simp: has_prefix_iff)
  have "has_prefix name (trim_space (vendor_prefix pol) @ ''_'')"
    "trim_prefix name (trim_space (vendor_prefix pol) @ ''_'') = body"
    using trim_prefix_append [of "trim_space (vendor_prefix pol) @ ''_''" body] True by (simp_all add: b)
  then have "name_violation pol name = None \<longleftrightarrow>
      name \<notin> trim_space ` set (forbidden_exact pol) \<and>
      (name \<in> trim_space ` set (allowed_unprefixed pol) \<or>
       (body \<noteq> '''' \<and> hd body \<noteq> CHR ''_'' \<and>
         (name \<in> trim_space ` set (allowed_top_level pol) \<longleftrightarrow> CHR ''_'' \<notin> set body)))"
    by (auto simp: name_violation_def Let_def split_first_empty split_single_iff not_less_eq_eq)
  then show ?thesis by (simp add: b)
next
  case False
  then have "name \<noteq> trim_space (vendor_prefix pol) @ ''_'' @ body" for body
    using has_prefix_append [of "trim_space (vendor_prefix pol) @ ''_''" body] by auto
  with False show ?thesis by (auto simp: name_violation_def Let_def)
qed

text \<open>
  C39. The policy check passes exactly when a vendor prefix is given and every name is allowed: it is not on the
  list of removed tools, and it is on the list of unprefixed names or is the prefix, an underscore and a body
  that starts with an action; a body of one segment must be listed as top-level and a longer one must not.
\<close>

theorem wire_name_policy_exact:
  "validate_wire_names names pol = None \<longleftrightarrow>
     trim_space (vendor_prefix pol) \<noteq> '''' \<and>
     set names \<subseteq> {name. name \<notin> trim_space ` set (forbidden_exact pol) \<and>
        (name \<in> trim_space ` set (allowed_unprefixed pol) \<or>
         (\<exists>body. name = trim_space (vendor_prefix pol) @ ''_'' @ body \<and> body \<noteq> '''' \<and> hd body \<noteq> CHR ''_'' \<and>
            (name \<in> trim_space ` set (allowed_top_level pol) \<longleftrightarrow> CHR ''_'' \<notin> set body)))}"
proof -
  have "List.map_filter (name_violation pol) names = [] \<longleftrightarrow> (\<forall>name \<in> set names. name_violation pol name = None)"
    by (induction names) (auto simp: List.map_filter_simps split: option.splits)
  then show ?thesis
    unfolding name_violation_None [symmetric] by (auto simp: validate_wire_names_def Let_def)
qed

lemma publishable_names_pass:
  "validate_catalog_excludes_held held (publishable_names registered held) = None"
  by (simp add: validate_catalog_excludes_held_def publishable_names_def filter_empty_conv)

subsection \<open>Assertions on schemas (schema.go)\<close>

text \<open>A schema that may be nil, and the failure of the test, if any.\<close>

definition assert_string_property_min_length :: "tool_schema option \<Rightarrow> string \<Rightarrow> int \<Rightarrow> string option" where
  "assert_string_property_min_length schema pname want =
     (case schema of
        None \<Rightarrow> Some ''schema is nil''
      | Some s \<Rightarrow>
          (case fmlookup (ts_properties s) pname of
             None \<Rightarrow> Some (''property '' @ quoted pname @ '' not found in schema'')
           | Some p \<Rightarrow>
               (case sp_min_length p of
                  None \<Rightarrow> Some (''property '' @ quoted pname @ '': expected minLength '' @ itoa want @ '', got nil'')
                | Some n \<Rightarrow>
                    if n \<noteq> want
                    then Some (''property '' @ quoted pname @ '': expected minLength '' @ itoa want @ '', got '' @ itoa n)
                    else None)))"

definition id_without_min_length :: "tool_schema \<Rightarrow> string \<Rightarrow> bool" where
  "id_without_min_length s name \<longleftrightarrow>
     name \<in> set (ts_required s) \<and>
     (case fmlookup (ts_properties s) name of
        None \<Rightarrow> False
      | Some p \<Rightarrow>
          sp_type p = ''string'' \<and> has_suffix name ''_id'' \<and>
          (case sp_min_length p of None \<Rightarrow> True | Some n \<Rightarrow> n < 1))"

definition assert_required_string_ids_have_min_length :: "tool_schema option \<Rightarrow> string list \<Rightarrow> string option" where
  \<comment> \<open>\<open>order\<close> is the order the range over the properties takes them in\<close>
  "assert_required_string_ids_have_min_length schema order =
     (case schema of
        None \<Rightarrow> Some ''schema is nil''
      | Some s \<Rightarrow>
          (case find (id_without_min_length s) order of
             None \<Rightarrow> None
           | Some name \<Rightarrow> Some (''required string '' @ quoted name @ '' must have agentschema minLength=1'')))"

lemma required_ids_exact:
  assumes "set order = fset (fmdom (ts_properties s))"
  shows "assert_required_string_ids_have_min_length (Some s) order = None \<longleftrightarrow>
    (\<forall>name p. name \<in> set (ts_required s) \<longrightarrow> fmlookup (ts_properties s) name = Some p \<longrightarrow> sp_type p = ''string'' \<longrightarrow>
       has_suffix name ''_id'' \<longrightarrow> (\<exists>n. sp_min_length p = Some n \<and> 1 \<le> n))"
proof -
  have "find (id_without_min_length s) order = None \<longleftrightarrow> (\<forall>name. \<not> id_without_min_length s name)"
  proof -
    have "name \<in> set order" if "id_without_min_length s name" for name
      using that assms by (auto simp: id_without_min_length_def fmlookup_dom_iff split: option.splits)
    then show ?thesis by (auto simp: find_None_iff)
  qed
  then show ?thesis
    by (fastforce simp: assert_required_string_ids_have_min_length_def id_without_min_length_def not_less split: option.splits)
qed

end
