(* ===== verification/ConfigEnv.thy ===== *)
theory ConfigEnv
  imports Http
begin

section \<open>Config schemas and environment overrides (config_schema.go, env_config.go, context.go)\<close>

text \<open>
  A config schema is a map from keys to their metadata, itself a map with the members \<open>type\<close>,
  \<open>displayName\<close>, \<open>required\<close> and \<open>default\<close>. The environment is the list \<open>os.Environ()\<close> returns, in its
  order. The loops over a schema visit every key once and the result does not depend on the order;
  they are folds over the sorted keys.
\<close>

definition map_keys :: "(string, 'v) fmap \<Rightarrow> string list" where
  "map_keys m = sorted_list_of_fset (fmdom m)"

lemma set_map_keys [simp]: "set (map_keys m) = fset (fmdom m)"
  by (simp add: map_keys_def)

lemma distinct_map_keys [simp]: "distinct (map_keys m)"
  by (simp add: map_keys_def sorted_list_of_fset_def)

lemma in_map_keys: "k \<in> set (map_keys m) \<longleftrightarrow> fmlookup m k \<noteq> None"
  by (simp add: fmdom_notI fmdomI fmlookup_dom_iff)

subsection \<open>Writing a schema\<close>

record config_field =
  cf_type :: string
  cf_display_name :: string
  cf_required :: bool
  cf_default :: goval        \<comment> \<open>\<open>GNil\<close> when no default is set\<close>

datatype config_field_opt = OptRequired | OptDefault goval

fun apply_opt :: "config_field_opt \<Rightarrow> config_field \<Rightarrow> config_field" where
  "apply_opt OptRequired f = f\<lparr>cf_required := True\<rparr>"
| "apply_opt (OptDefault v) f = f\<lparr>cf_default := v\<rparr>"

type_synonym config_field_def = "string \<times> config_field"

definition field :: "string \<Rightarrow> string \<Rightarrow> string \<Rightarrow> config_field_opt list \<Rightarrow> config_field_def" where
  "field key typ name opts =
     (key, fold apply_opt opts
        \<lparr>cf_type = typ, cf_display_name = name, cf_required = False, cf_default = GNil\<rparr>)"

definition string_field :: "string \<Rightarrow> string \<Rightarrow> config_field_opt list \<Rightarrow> config_field_def" where
  "string_field key name opts = field key ''string'' name opts"

definition field_meta :: "config_field \<Rightarrow> gomap" where
  "field_meta f =
     (let m = fmap_of_list [(''type'', GStr (cf_type f)), (''displayName'', GStr (cf_display_name f)),
                            (''required'', GBool (cf_required f))]
      in if cf_default f \<noteq> GNil then fmupd ''default'' (cf_default f) m else m)"

definition schema_add :: "string \<Rightarrow> config_field \<Rightarrow> gomap \<Rightarrow> gomap" where
  "schema_add key f into = fmupd key (GMap (field_meta f)) into"

definition write_schema :: "string \<Rightarrow> config_field_def list \<Rightarrow> gomap \<Rightarrow> gomap" where
  "write_schema pfx defs into = fold (\<lambda>(k, f). schema_add (pfx @ k) f) defs into"

definition config_schema_has_keys :: "gomap \<Rightarrow> bool" where
  "config_schema_has_keys schema \<longleftrightarrow> fmdom schema \<noteq> {||}"

subsection \<open>Reading a config\<close>

definition config_get_str :: "gomap option \<Rightarrow> string \<Rightarrow> string \<Rightarrow> string \<Rightarrow> string" where
  "config_get_str cfg pfx key dflt =
     (case cfg of
        None \<Rightarrow> dflt
      | Some c \<Rightarrow>
          (let ks = (if pfx \<noteq> '''' then [pfx @ key, key] else [key]);
               hits = filter (\<lambda>s. s \<noteq> '''') (map (get_str c) ks)
           in case hits of [] \<Rightarrow> dflt | s # _ \<Rightarrow> s))"

subsection \<open>Environment overrides\<close>

definition index_env_entry :: "string \<Rightarrow> (string, string) fmap \<Rightarrow> (string, string) fmap" where
  "index_env_entry kv idx =
     (case string_cut kv CHR ''='' of (name, val, found) \<Rightarrow>
        if \<not> found \<or> name = '''' then idx
        else if trim_space val = '''' then idx
        else fmupd (to_lower name) val idx)"

definition new_lowercase_env_index :: "string list \<Rightarrow> (string, string) fmap" where
  "new_lowercase_env_index environ = fold index_env_entry environ fmempty"

definition lookup_schema_env :: "(string, string) fmap \<Rightarrow> string \<Rightarrow> string option" where
  "lookup_schema_env idx key =
     (case fmlookup idx (to_lower key) of
        Some v \<Rightarrow> Some (trim_space v)
      | None \<Rightarrow> map_option trim_space (fmlookup idx (to_lower (''AR_'' @ key))))"

definition env_overrides_from_schema :: "gomap \<Rightarrow> (string, string) fmap \<Rightarrow> (string, string) fmap" where
  "env_overrides_from_schema schema idx =
     fold (\<lambda>k out. case lookup_schema_env idx k of
             Some v \<Rightarrow> if v \<noteq> '''' then fmupd k v out else out | None \<Rightarrow> out) (map_keys schema) fmempty"

definition value_as_string :: "goval \<Rightarrow> string" where
  "value_as_string v = (case v of GNil \<Rightarrow> '''' | GStr s \<Rightarrow> trim_space s | _ \<Rightarrow> trim_space (sprint v))"

definition key_satisfied :: "gomap \<Rightarrow> gomap \<Rightarrow> string \<Rightarrow> bool" where
  "key_satisfied schema cfg key \<longleftrightarrow>
     (case Option.bind (fmlookup schema key) as_map of
        None \<Rightarrow> True
      | Some meta \<Rightarrow>
          Option.bind (fmlookup meta ''required'') as_bool \<noteq> Some True \<or>
          value_as_string (get_any cfg key) \<noteq> '''' \<or> fmlookup meta ''default'' \<noteq> None)"

definition required_config_satisfied :: "gomap \<Rightarrow> gomap \<Rightarrow> bool" where
  "required_config_satisfied schema cfg \<longleftrightarrow> list_all (key_satisfied schema cfg) (map_keys schema)"

definition env_config :: "gomap \<Rightarrow> (string, string) fmap \<Rightarrow> gomap" where
  \<comment> \<open>the config \<open>envOnly\<close> of \<open>envAloneSatisfiesRequired\<close>\<close>
  "env_config schema idx =
     fold (\<lambda>k out. case lookup_schema_env idx k of
             Some v \<Rightarrow> if v \<noteq> '''' then fmupd k (GStr v) out else out | None \<Rightarrow> out) (map_keys schema) fmempty"

definition env_alone_satisfies_required :: "gomap \<Rightarrow> (string, string) fmap \<Rightarrow> bool" where
  "env_alone_satisfies_required schema idx \<longleftrightarrow> required_config_satisfied schema (env_config schema idx)"

definition merge_control_with_env_priority :: "gomap \<Rightarrow> (string, string) fmap \<Rightarrow> gomap \<Rightarrow> gomap" where
  "merge_control_with_env_priority control env_keys schema =
     fold (\<lambda>k final. case fmlookup env_keys k of Some v \<Rightarrow> fmupd k (GStr v) final | None \<Rightarrow> final)
       (map_keys schema) control"

subsection \<open>Folds that set some keys\<close>

lemma fmlookup_fold_upd:
  assumes "\<And>k out. f k out = (case g k of Some v \<Rightarrow> fmupd k v out | None \<Rightarrow> out)"
  shows "fmlookup (fold f ks m) k
    = (if k \<in> set ks \<and> g k \<noteq> None then g k else fmlookup m k)"
proof (induction ks arbitrary: m)
  case (Cons x xs)
  then show ?case by (cases "g x") (auto simp: assms)
qed simp

definition env_value :: "(string, string) fmap \<Rightarrow> string \<Rightarrow> string option" where
  "env_value idx k =
     (case lookup_schema_env idx k of Some v \<Rightarrow> if v \<noteq> '''' then Some v else None | None \<Rightarrow> None)"

lemma env_overrides_lookup:
  "fmlookup (env_overrides_from_schema schema idx) k
     = (if k |\<in>| fmdom schema then env_value idx k else None)"
proof -
  have "fmlookup (env_overrides_from_schema schema idx) k
      = (if k \<in> set (map_keys schema) \<and> env_value idx k \<noteq> None then env_value idx k else fmlookup fmempty k)"
    unfolding env_overrides_from_schema_def
    by (rule fmlookup_fold_upd) (simp add: env_value_def split: option.split)
  then show ?thesis by auto
qed

lemma env_config_lookup:
  "fmlookup (env_config schema idx) k
     = (if k |\<in>| fmdom schema then map_option GStr (env_value idx k) else None)"
proof -
  have "fmlookup (env_config schema idx) k
      = (if k \<in> set (map_keys schema) \<and> map_option GStr (env_value idx k) \<noteq> None
         then map_option GStr (env_value idx k) else fmlookup fmempty k)"
    unfolding env_config_def
    by (rule fmlookup_fold_upd) (simp add: env_value_def split: option.split)
  then show ?thesis by auto
qed

lemma merge_lookup:
  "fmlookup (merge_control_with_env_priority control env_keys schema) k
     = (if k |\<in>| fmdom schema \<and> fmlookup env_keys k \<noteq> None
        then map_option GStr (fmlookup env_keys k) else fmlookup control k)"
proof -
  have "fmlookup (merge_control_with_env_priority control env_keys schema) k
      = (if k \<in> set (map_keys schema) \<and> map_option GStr (fmlookup env_keys k) \<noteq> None
         then map_option GStr (fmlookup env_keys k) else fmlookup control k)"
    unfolding merge_control_with_env_priority_def
    by (rule fmlookup_fold_upd) (simp split: option.split)
  then show ?thesis by auto
qed


subsection \<open>What the environment says about a key\<close>

text \<open>
  The value of the last environment entry of a name, compared without case; blank values do not count.
\<close>

definition env_entry :: "string \<Rightarrow> string \<Rightarrow> string option" where
  "env_entry name kv =
     (case string_cut kv CHR ''='' of (n, v, found) \<Rightarrow>
        if found \<and> n \<noteq> '''' \<and> trim_space v \<noteq> '''' \<and> to_lower n = name then Some v else None)"

definition last_entry :: "string list \<Rightarrow> string \<Rightarrow> string option" where
  "last_entry environ name =
     (case List.map_filter (env_entry name) environ of [] \<Rightarrow> None | vs \<Rightarrow> Some (last vs))"

definition env_setting :: "string list \<Rightarrow> string \<Rightarrow> string option" where
  "env_setting environ key =
     map_option trim_space
       (case last_entry environ (to_lower key) of
          Some v \<Rightarrow> Some v
        | None \<Rightarrow> last_entry environ (to_lower (''AR_'' @ key)))"

lemma index_env_entry_lookup:
  "fmlookup (index_env_entry kv idx) name
     = (case env_entry name kv of Some v \<Rightarrow> Some v | None \<Rightarrow> fmlookup idx name)"
  by (auto simp: index_env_entry_def env_entry_def split: prod.splits)

lemma index_lookup: "fmlookup (new_lowercase_env_index environ) name = last_entry environ name"
proof -
  have "fmlookup (fold index_env_entry es idx) name
      = (case last_entry es name of Some v \<Rightarrow> Some v | None \<Rightarrow> fmlookup idx name)" for es idx
  proof (induction es arbitrary: idx)
    case (Cons e es)
    then show ?case
      by (auto simp: last_entry_def map_filter_simps index_env_entry_lookup split: option.splits list.splits)
  qed (simp add: last_entry_def map_filter_simps)
  from this [of environ fmempty] show ?thesis
    by (simp add: new_lowercase_env_index_def split: option.splits)
qed

lemma env_entry_not_blank: "env_entry name kv = Some v \<Longrightarrow> trim_space v \<noteq> ''''"
  by (auto simp: env_entry_def split: prod.splits if_splits)

lemma last_entry_not_blank: "last_entry environ name = Some v \<Longrightarrow> trim_space v \<noteq> ''''"
proof -
  assume "last_entry environ name = Some v"
  then have "v \<in> set (List.map_filter (env_entry name) environ)"
    by (auto simp: last_entry_def split: list.splits if_splits)
  then obtain kv where "env_entry name kv = Some v"
    unfolding List.map_filter_def by auto
  then show ?thesis by (rule env_entry_not_blank)
qed

lemma env_value_setting: "env_value (new_lowercase_env_index environ) k = env_setting environ k"
  using last_entry_not_blank [of environ]
  by (auto simp: env_value_def lookup_schema_env_def index_lookup env_setting_def split: option.splits)

lemma env_setting_not_blank: "env_setting environ k = Some v \<Longrightarrow> v \<noteq> '''' \<and> trim_space v = v"
  using last_entry_not_blank [of environ] by (auto simp: env_setting_def split: option.splits)

text \<open>
  The resolved config: a key of the schema that the environment sets, under its own name or under
  \<open>AR_\<close> and its name in any case, has the trimmed value of the last such variable; every other key has
  the value Control sent, and the environment adds no key outside the schema.
\<close>

lemma config_value_lookup:
  "fmlookup (merge_control_with_env_priority control
       (env_overrides_from_schema schema (new_lowercase_env_index environ)) schema) k
     = (if k |\<in>| fmdom schema \<and> env_setting environ k \<noteq> None
        then map_option GStr (env_setting environ k) else fmlookup control k)"
  by (cases "env_setting environ k") (auto simp: merge_lookup env_overrides_lookup env_value_setting)

text \<open>
  The environment alone satisfies a schema exactly when every required key has a default or is set
  in the environment.
\<close>

lemma env_alone_satisfies_iff:
  "env_alone_satisfies_required schema (new_lowercase_env_index environ) \<longleftrightarrow>
     (\<forall>k meta. fmlookup schema k = Some (GMap meta) \<and> fmlookup meta ''required'' = Some (GBool True) \<longrightarrow>
        fmlookup meta ''default'' \<noteq> None \<or> env_setting environ k \<noteq> None)"
proof -
  let ?c = "env_config schema (new_lowercase_env_index environ)"
  have req: "Option.bind x as_bool = Some True \<longleftrightarrow> x = Some (GBool True)" for x
    by (cases x; cases "the x") auto
  have val: "value_as_string (get_any ?c k) \<noteq> '''' \<longleftrightarrow> env_setting environ k \<noteq> None"
    if "k |\<in>| fmdom schema" for k
    using that env_setting_not_blank [of environ k]
    by (auto simp: get_any_def env_config_lookup env_value_setting value_as_string_def split: option.split)
  have "key_satisfied schema ?c k \<longleftrightarrow>
      (\<forall>meta. fmlookup schema k = Some (GMap meta) \<and> fmlookup meta ''required'' = Some (GBool True) \<longrightarrow>
        fmlookup meta ''default'' \<noteq> None \<or> env_setting environ k \<noteq> None)"
    if "k |\<in>| fmdom schema" for k
    using val [OF that] by (cases "fmlookup schema k"; cases "the (fmlookup schema k)")
      (auto simp: key_satisfied_def req)
  then show ?thesis
    unfolding env_alone_satisfies_required_def required_config_satisfied_def
    by (auto simp: list_all_iff fmdomI)
qed

text \<open>A schema for the concrete requests of the theories below.\<close>

definition demo_schema :: gomap where
  "demo_schema = write_schema '''' [string_field ''api_key'' ''Key'' [OptRequired],
     field ''region'' ''string'' ''Region'' [OptRequired, OptDefault (GStr ''eu'')]] fmempty"

end
