(* ===== verification/Control.thy ===== *)
theory Control
  imports ConfigEnv
begin

section \<open>Talking to Control (control.go, errors.go, auth.go, request_bearer.go, identity_headers.go)\<close>

text \<open>
  The bearer token of a request, the runtime context it is resolved in, and the call of Control that
  resolves a config. The HTTP round trip is an argument: a function from the request that is sent to
  what comes back.
\<close>

subsection \<open>Tokens and identity headers\<close>

definition extract_token :: "request \<Rightarrow> string" where
  "extract_token r =
     (let auth = r_header r ''Authorization'' in
      if has_prefix (to_lower auth) ''bearer '' then trim_space (drop 7 auth)
      else if r_header r ''X-Mcp-Token'' \<noteq> '''' then trim_space (r_header r ''X-Mcp-Token'')
      else '''')"

definition is_schema_endpoint_for_mount :: "request \<Rightarrow> string \<Rightarrow> bool" where
  "is_schema_endpoint_for_mount r mount \<longleftrightarrow>
     r_method r = ''GET'' \<and>
     trim_suffix (r_path r) ''/'' = trim_suffix mount ''/'' @ ''/config/schema''"

definition is_schema_endpoint :: "request \<Rightarrow> bool" where
  "is_schema_endpoint r \<longleftrightarrow> is_schema_endpoint_for_mount r ''/mcp''"

text \<open>The request context, as far as the source stores values in it.\<close>

record context_values =
  ctx_config :: "gomap option"
  ctx_bearer :: "string option"
  ctx_identity :: "(string \<times> string) list option"

definition with_request_bearer :: "string \<Rightarrow> context_values \<Rightarrow> context_values" where
  "with_request_bearer token c =
     (let t = trim_space token in if t = '''' then c else c\<lparr>ctx_bearer := Some t\<rparr>)"

definition request_bearer_from_context :: "context_values option \<Rightarrow> string" where
  "request_bearer_from_context c =
     (case Option.bind c ctx_bearer of None \<Rightarrow> '''' | Some t \<Rightarrow> trim_space t)"

definition forward_request_bearer :: "request \<Rightarrow> context_values \<Rightarrow> context_values" where
  "forward_request_bearer r c =
     (let t = extract_token r in if t \<noteq> '''' then with_request_bearer t c else c)"

definition identity_header_names :: "string list" where
  "identity_header_names = [''X-Tenant-Id'', ''X-User-Id'', ''X-Project-Id'']"

definition forward_identity_headers :: "request \<Rightarrow> context_values \<Rightarrow> context_values" where
  "forward_identity_headers r c =
     (let fwd = concat (map (\<lambda>k. let v = trim_space (r_header r k) in if v \<noteq> '''' then [(k, v)] else [])
                  identity_header_names)
      in if fwd \<noteq> [] then c\<lparr>ctx_identity := Some fwd\<rparr> else c)"

definition identity_headers_from_context :: "context_values option \<Rightarrow> (string \<times> string) list option" where
  "identity_headers_from_context c = Option.bind c ctx_identity"

definition with_config :: "gomap \<Rightarrow> context_values \<Rightarrow> context_values" where
  "with_config cfg c = c\<lparr>ctx_config := Some cfg\<rparr>"

definition config_from_context :: "context_values \<Rightarrow> gomap option" where
  "config_from_context c = ctx_config c"

subsection \<open>The runtime context\<close>

definition runtime_connection_ids :: "request \<Rightarrow> string list" where
  "runtime_connection_ids r =
     (let raw = trim_space (r_header r ''X-Mcp-Connection-Ids'') in
      if raw = '''' then [] else filter (\<lambda>s. s \<noteq> '''') (map trim_space (split_on CHR '','' raw)))"

definition runtime_tool_name :: "request \<Rightarrow> string" where
  "runtime_tool_name r =
     (if r_header r ''X-Tool-Name'' \<noteq> '''' then trim_space (r_header r ''X-Tool-Name'')
      else if r_header r ''X-Mcp-Tool-Name'' \<noteq> '''' then trim_space (r_header r ''X-Mcp-Tool-Name'')
      else ''__initialize'')"

definition build_runtime_context :: "env \<Rightarrow> request \<Rightarrow> gomap" where
  "build_runtime_context getenv r =
     (let inst = trim_space (r_header r ''X-Mcp-Instance-Id'');
          ids = runtime_connection_ids r;
          sid = trim_space (r_header r ''X-Mcp-Server-Id'');
          env_sid = trim_space (getenv ''MCP_SERVER_ID'');
          c0 = fmempty;
          c1 = (if inst \<noteq> '''' then fmupd ''instance_id'' (GStr inst) c0 else c0);
          c2 = (if ids \<noteq> [] then fmupd ''connection_ids'' (GStrs ids) c1 else c1);
          c3 = (if sid \<noteq> '''' then fmupd ''server_id'' (GStr sid) c2 else c2);
          c4 = (if env_sid \<noteq> '''' then fmupd ''server_id'' (GStr env_sid) c3 else c3)
      in fmupd ''tool_name'' (GStr (runtime_tool_name r)) c4)"

subsection \<open>Errors\<close>

record control_error =
  ce_status :: int
  ce_body :: string
  ce_retry_after_sec :: int

text \<open>
  What the call can fail with: a \<open>*ControlError\<close>, or another error wrapped as \<open>ErrControlConfig\<close>, of
  which only the text is used.
\<close>

datatype control_failure = ControlErr control_error | OtherErr string

definition control_error_text :: "control_error \<Rightarrow> string" where
  "control_error_text e =
     (if ce_body e \<noteq> ''''
      then ''control server returned '' @ itoa (ce_status e) @ '': '' @ ce_body e
      else ''control server returned '' @ itoa (ce_status e))"

fun failure_text :: "control_failure \<Rightarrow> string" where
  "failure_text (ControlErr e) = control_error_text e"
| "failure_text (OtherErr msg) = ''control config resolution failed: '' @ msg"

definition human_message_from_control_api_body :: "json_lib \<Rightarrow> string \<Rightarrow> string" where
  "human_message_from_control_api_body J body =
     (let b = trim_space body in
      if b = '''' then ''''
      else (case Option.bind (decode_members (jl_parse J b)) (field_string ''message'') of
              None \<Rightarrow> '''' | Some m \<Rightarrow> trim_space m))"

text \<open>The nested struct \<open>details\<close> of an error body.\<close>

fun dec_details :: "int \<Rightarrow> json \<Rightarrow> int option" where
  "dec_details n (JObj ms) = decode_field dec_int ''retry_after'' n ms"
| "dec_details n JNull = Some n"
| "dec_details n _ = None"

definition retry_after_from_control_body :: "json_lib \<Rightarrow> string \<Rightarrow> int" where
  "retry_after_from_control_body J body =
     (let b = trim_space body in
      if b = '''' then 0
      else (case Option.bind (decode_members (jl_parse J b)) (\<lambda>ms.
                 Option.bind (field_int ''retry_after'' ms) (\<lambda>n.
                 Option.bind (decode_field dec_details ''details'' 0 ms) (\<lambda>det. Some (n, det)))) of
              None \<Rightarrow> 0
            | Some (n, det) \<Rightarrow> if 0 < n then n else det))"

definition parse_retry_after_header :: "json_lib \<Rightarrow> string \<Rightarrow> string \<Rightarrow> int" where
  "parse_retry_after_header J header body =
     (let h = trim_space header in
      case (if h \<noteq> '''' then atoi h else None) of
        Some sec \<Rightarrow> if 0 < sec then sec else retry_after_from_control_body J body
      | None \<Rightarrow> retry_after_from_control_body J body)"

subsection \<open>Fetching the payload\<close>

record control_payload =
  cp_config :: "gomap option"
  cp_config_schema :: "gomap option"
  cp_bridge :: "gomap option"
  cp_composio :: "gomap option"

record control_request =
  cr_url :: string
  cr_authorization :: string
  cr_timeout_sec :: int
  cr_payload :: gomap

definition control_base :: "env \<Rightarrow> string" where
  "control_base getenv = trim_suffix (getenv ''MCP_CONTROL_SERVER_URL'') ''/''"

definition build_control_request :: "env \<Rightarrow> string \<Rightarrow> gomap \<Rightarrow> gomap \<Rightarrow> control_request" where
  "build_control_request getenv token schema ctx =
     \<lparr>cr_url = control_base getenv @ ''/mcp/config'', cr_authorization = ''Bearer '' @ token,
      cr_timeout_sec = positive_env_int getenv ''MCP_CONTROL_TIMEOUT_SEC'' 5,
      cr_payload = fmap_of_list
        [(''configSchema'', GMap schema), (''config_schema'', GMap schema), (''schema'', GMap schema),
         (''runtimeContext'', GMap ctx), (''runtime_context'', GMap ctx)]\<rparr>"

definition payload_of_data :: "gomap option \<Rightarrow> control_payload" where
  "payload_of_data data =
     (let sub = (\<lambda>k. Option.bind data (\<lambda>d. get_map d k))
      in \<lparr>cp_config = sub ''config'', cp_config_schema = sub ''config_schema'',
          cp_bridge = sub ''bridge'', cp_composio = sub ''composio''\<rparr>)"

definition payload_of_reply :: "json_lib \<Rightarrow> http_result \<Rightarrow> control_failure + control_payload" where
  "payload_of_reply J reply =
     (case reply of
        HttpFailed e \<Rightarrow> Inl (OtherErr e)
      | HttpReply status header body \<Rightarrow>
          if status \<noteq> 200
          then Inl (ControlErr \<lparr>ce_status = status, ce_body = body,
                     ce_retry_after_sec = parse_retry_after_header J (header ''Retry-After'') body\<rparr>)
          else (case unmarshal_map (jl_float J) (jl_first J body) of
                  None \<Rightarrow> Inl (OtherErr ''invalid response'')   \<comment> \<open>the decoder's own text follows\<close>
                | Some data \<Rightarrow> Inr (payload_of_data data)))"

definition fetch_control_payload ::
    "json_lib \<Rightarrow> env \<Rightarrow> (control_request \<Rightarrow> http_result) \<Rightarrow> string \<Rightarrow> gomap \<Rightarrow> gomap
       \<Rightarrow> control_failure + control_payload" where
  "fetch_control_payload J getenv http token schema ctx =
     (if control_base getenv = ''''
      then Inr \<lparr>cp_config = Some fmempty, cp_config_schema = None, cp_bridge = None, cp_composio = None\<rparr>
      else payload_of_reply J (http (build_control_request getenv token schema ctx)))"

end
