(* ===== verification/OAuth.thy ===== *)
theory OAuth
  imports Control
begin

section \<open>The OAuth resource server (oauth_config.go, oauth_resource.go, oauth_middleware.go, oauth_jwt.go, oauth_scopes.go)\<close>

text \<open>
  Which requests need a token, which tokens are accepted, and the metadata and challenges for clients
  that have none. Parsing a URL (\<open>net/url\<close>) and checking a JWT against a key (the JWT library:
  signature, issuer, audience, expiry) are parameters; the cache of signing keys, the decoding of a key
  set and the scope check are the source's own and are modelled.
\<close>

subsection \<open>Configuration\<close>

record oauth_config =
  resource_url :: string
  issuer :: string
  jwks_url :: string
  audience :: string
  required_scopes :: "string list"
  authorization_servers :: "string list"
  resource_documentation :: string
  require_auth_on_connect :: bool

definition scope_separator :: "char \<Rightarrow> bool" where
  "scope_separator c \<longleftrightarrow> c = CHR '','' \<or> c = CHR '' '' \<or> c = CHR 0x09 \<or> c = CHR 0x0A"

definition split_scope_list :: "string \<Rightarrow> string list" where
  "split_scope_list raw0 =
     (let raw = trim_space raw0 in
      if raw = '''' then []
      else filter (\<lambda>p. p \<noteq> '''') (map trim_space (fields_by scope_separator raw)))"

definition env_truthy :: "string \<Rightarrow> bool" where
  "env_truthy raw \<longleftrightarrow> to_lower (trim_space raw) \<in> set truthy"

definition oauth_config_from_env :: "env \<Rightarrow> oauth_config" where
  "oauth_config_from_env getenv =
     (let resource = trim_space (getenv ''AGENTRUNTIME_MCP_RESOURCE_URL'');
          iss = trim_space (getenv ''AGENTRUNTIME_OAUTH_ISSUER'');
          aud0 = trim_space (getenv ''AGENTRUNTIME_OAUTH_AUDIENCE'');
          aud = (if aud0 = '''' then resource else aud0);
          srv0 = trim_space (getenv ''AGENTRUNTIME_OAUTH_AUTHORIZATION_SERVER'');
          srv = (if srv0 = '''' then iss else srv0);
          req = split_scope_list (getenv ''AGENTRUNTIME_OAUTH_REQUIRED_SCOPES'')
      in \<lparr>resource_url = trim_right_set resource ''/'', issuer = trim_right_set iss ''/'',
          jwks_url = trim_space (getenv ''AGENTRUNTIME_OAUTH_JWKS_URL''), audience = aud,
          required_scopes = (if req = [] then [''mcp:execute''] else req),
          authorization_servers = (if srv \<noteq> '''' then [trim_right_set srv ''/''] else []),
          resource_documentation = trim_space (getenv ''AGENTRUNTIME_OAUTH_RESOURCE_DOCUMENTATION''),
          require_auth_on_connect = env_truthy (getenv ''AGENTRUNTIME_OAUTH_REQUIRE_AUTH_ON_CONNECT'')\<rparr>)"

definition oauth_enabled :: "oauth_config \<Rightarrow> bool" where
  "oauth_enabled c \<longleftrightarrow>
     trim_space (resource_url c) \<noteq> '''' \<and> trim_space (issuer c) \<noteq> '''' \<and>
     trim_space (jwks_url c) \<noteq> '''' \<and> trim_space (audience c) \<noteq> ''''"

subsection \<open>Protected-resource metadata\<close>

definition oauth_scopes_supported :: "string list" where
  "oauth_scopes_supported =
     [''openid'', ''profile'', ''email'', ''mcp:execute'', ''workflow:read'', ''workflow:run'',
      ''workflow:edit'', ''mcp:read'', ''mcp:write'', ''webhook:manage'', ''vault:read'', ''vault:write'',
      ''pat:read'', ''llm:read'', ''llm:write'', ''analytics:read'', ''billing:read'', ''agent:read'',
      ''agent:write'', ''memory:read'', ''memory:write'', ''chat:read'', ''chat:write'', ''work:read'',
      ''work:write'']"

definition oauth_protected_resource_path :: string where
  "oauth_protected_resource_path = ''/.well-known/oauth-protected-resource''"

text \<open>A parsed URL, as far as it is read.\<close>

record parsed_url =
  u_scheme :: string
  u_host :: string
  u_path :: string

type_synonym url_parser = "string \<Rightarrow> parsed_url option"

definition metadata_url :: "url_parser \<Rightarrow> string \<Rightarrow> string" where
  "metadata_url parse_url resource0 =
     (let resource = trim_right_set resource0 ''/'' in
      case parse_url resource of
        None \<Rightarrow> resource @ oauth_protected_resource_path
      | Some u \<Rightarrow>
          if u_scheme u = '''' \<or> u_host u = '''' then resource @ oauth_protected_resource_path
          else u_scheme u @ ''://'' @ u_host u @ oauth_protected_resource_path
                 @ trim_right_set (u_path u) ''/'')"

definition oauth_protected_resource_paths :: "url_parser \<Rightarrow> oauth_config \<Rightarrow> string list" where
  "oauth_protected_resource_paths parse_url cfg =
     oauth_protected_resource_path #
     (case parse_url (trim_right_set (resource_url cfg) ''/'') of
        None \<Rightarrow> []
      | Some u \<Rightarrow> if trim_set (u_path u) ''/'' \<noteq> ''''
                   then [oauth_protected_resource_path @ trim_right_set (u_path u) ''/''] else [])"

definition is_oauth_protected_resource_path :: "url_parser \<Rightarrow> oauth_config \<Rightarrow> string \<Rightarrow> bool" where
  "is_oauth_protected_resource_path parse_url cfg path \<longleftrightarrow>
     list_ex (\<lambda>p. path = p) (oauth_protected_resource_paths parse_url cfg)"

definition metadata_payload :: "oauth_config \<Rightarrow> gomap" where
  "metadata_payload cfg =
     (let p = fmap_of_list [(''resource'', GStr (resource_url cfg)),
                (''authorization_servers'', GStrs (authorization_servers cfg)),
                (''scopes_supported'', GStrs oauth_scopes_supported),
                (''bearer_methods_supported'', GStrs [''header''])];
          doc = trim_space (resource_documentation cfg)
      in if doc \<noteq> '''' then fmupd ''resource_documentation'' (GStr doc) p else p)"

datatype oauth_result =
    OForward                     \<comment> \<open>the next handler runs\<close>
  | OMetadata gomap
  | OError int
  | OChallenge string            \<comment> \<open>401 with this \<open>WWW-Authenticate\<close> header\<close>

definition oauth_protected_resource_handler :: "oauth_config \<Rightarrow> request \<Rightarrow> oauth_result" where
  "oauth_protected_resource_handler cfg r =
     (if r_method r \<noteq> ''GET'' then OError 405
      else if \<not> oauth_enabled cfg then OError 404
      else OMetadata (metadata_payload cfg))"

definition oauth_challenge :: "url_parser \<Rightarrow> oauth_config \<Rightarrow> string \<Rightarrow> oauth_result" where
  "oauth_challenge parse_url cfg scope0 =
     (let scope = (if trim_space scope0 = '''' \<and> required_scopes cfg \<noteq> [] then hd (required_scopes cfg)
                   else scope0);
          c = ''Bearer resource_metadata='' @ [CHR 0x22] @ metadata_url parse_url (resource_url cfg) @ [CHR 0x22]
      in OChallenge (if scope \<noteq> '''' then c @ '', scope='' @ [CHR 0x22] @ scope @ [CHR 0x22] else c))"

subsection \<open>Signing keys\<close>

text \<open>
  \<open>base64.RawURLEncoding\<close>: 6-bit digits without padding; line breaks are skipped; a lone digit at the end
  and any other byte are errors.
\<close>

definition b64_val :: "char \<Rightarrow> nat option" where
  "b64_val c =
     (let n = (of_char c :: nat) in
      if 65 \<le> n \<and> n \<le> 90 then Some (n - 65)
      else if 97 \<le> n \<and> n \<le> 122 then Some (n - 71)
      else if 48 \<le> n \<and> n \<le> 57 then Some (n + 4)
      else if n = 45 then Some 62
      else if n = 95 then Some 63
      else None)"

fun b64_groups :: "nat list \<Rightarrow> nat list option" where
  "b64_groups [] = Some []"
| "b64_groups [a] = None"
| "b64_groups [a, b] = Some [(a * 4 + b div 16) mod 256]"
| "b64_groups [a, b, c] = Some [(a * 4 + b div 16) mod 256, (b * 16 + c div 4) mod 256]"
| "b64_groups (a # b # c # d # xs) =
     map_option (\<lambda>bs. [(a * 4 + b div 16) mod 256, (b * 16 + c div 4) mod 256, (c * 64 + d) mod 256] @ bs)
       (b64_groups xs)"

definition base64_decode :: "string \<Rightarrow> nat list option" where
  "base64_decode s =
     (let vs = map b64_val (filter (\<lambda>c. c \<noteq> CHR 0x0A \<and> c \<noteq> CHR 0x0D) s) in
      if None \<in> set vs then None else b64_groups (map the vs))"

definition big_endian :: "nat list \<Rightarrow> nat" where
  "big_endian bs = foldl (\<lambda>n b. n * 256 + b) 0 bs"

definition exponent_of_bytes :: "nat list \<Rightarrow> int" where
  \<comment> \<open>\<open>e = e<<8 + int(b)\<close> on 64 bits\<close>
  "exponent_of_bytes bs = foldl (\<lambda>e b. wrap64 (wrap64 (e * 256) + int b)) 0 bs"

type_synonym rsa_key = "nat \<times> int"

definition rsa_public_key_from_jwks :: "string \<Rightarrow> string \<Rightarrow> rsa_key option" where
  "rsa_public_key_from_jwks n64 e64 =
     (case base64_decode n64 of
        None \<Rightarrow> None
      | Some nb \<Rightarrow>
          (case base64_decode e64 of
             None \<Rightarrow> None
           | Some eb \<Rightarrow>
               (let n = big_endian nb; e = exponent_of_bytes eb
                in if n = 0 \<or> e \<le> 0 then None else Some (n, e))))"

record jwk =
  jwk_kid :: string
  jwk_kty :: string
  jwk_n :: string
  jwk_e :: string

definition zero_jwk :: jwk where
  "zero_jwk = \<lparr>jwk_kid = '''', jwk_kty = '''', jwk_n = '''', jwk_e = ''''\<rparr>"

definition dec_jwk :: "jwk \<Rightarrow> json \<Rightarrow> jwk option" where
  "dec_jwk old v =
     Option.bind (decode_members (Some v)) (\<lambda>ms.
     Option.bind (decode_field dec_string ''kid'' (jwk_kid old) ms) (\<lambda>kid.
     Option.bind (decode_field dec_string ''kty'' (jwk_kty old) ms) (\<lambda>kty.
     Option.bind (decode_field dec_string ''n'' (jwk_n old) ms) (\<lambda>n.
     Option.bind (decode_field dec_string ''e'' (jwk_e old) ms) (\<lambda>e.
       Some \<lparr>jwk_kid = kid, jwk_kty = kty, jwk_n = n, jwk_e = e\<rparr>)))))"

definition dec_jwks :: "jwk list \<Rightarrow> json \<Rightarrow> jwk list option" where
  "dec_jwks = dec_list zero_jwk dec_jwk"

type_synonym key_set = "(string, rsa_key) fmap"

definition add_jwk :: "jwk \<Rightarrow> key_set \<Rightarrow> key_set" where
  "add_jwk k keys =
     (if to_upper (jwk_kty k) \<noteq> ''RSA'' then keys
      else case rsa_public_key_from_jwks (jwk_n k) (jwk_e k) of
             None \<Rightarrow> keys | Some key \<Rightarrow> fmupd (jwk_kid k) key keys)"

definition keys_of_reply :: "json_lib \<Rightarrow> http_result \<Rightarrow> string + key_set" where
  "keys_of_reply J reply =
     (case reply of
        HttpFailed e \<Rightarrow> Inl e
      | HttpReply status header body \<Rightarrow>
          if 400 \<le> status then Inl (''jwks fetch failed: '' @ trim_space body)
          else (case Option.bind (decode_members (jl_first J body)) (decode_field dec_jwks ''keys'' []) of
                  None \<Rightarrow> Inl ''jwks decode''
                | Some ks \<Rightarrow>
                    (let keys = fold add_jwk ks fmempty
                     in if fmdom keys = {||} then Inl ''jwks contains no usable rsa keys'' else Inr keys)))"

record jwt_verifier =
  jv_keys :: key_set
  jv_cached_at :: time

definition jwks_ttl :: time where
  "jwks_ttl = 300 * second"

definition new_jwt_verifier :: "string \<Rightarrow> string \<Rightarrow> string \<Rightarrow> time \<Rightarrow> jwt_verifier option" where
  \<comment> \<open>\<open>zero\<close> is the zero \<open>time.Time\<close>\<close>
  "new_jwt_verifier iss aud url zero =
     (if trim_space iss = '''' \<or> trim_space aud = '''' \<or> trim_space url = '''' then None
      else Some \<lparr>jv_keys = fmempty, jv_cached_at = zero\<rparr>)"

definition look_keys :: "time \<Rightarrow> unit \<Rightarrow> jwt_verifier \<Rightarrow> key_set option" where
  "look_keys now u v =
     (if fmdom (jv_keys v) \<noteq> {||} \<and> now - jv_cached_at v < jwks_ttl then Some (jv_keys v) else None)"

definition store_keys :: "time \<Rightarrow> unit \<Rightarrow> key_set \<Rightarrow> jwt_verifier \<Rightarrow> jwt_verifier" where
  "store_keys now u keys v = \<lparr>jv_keys = keys, jv_cached_at = now\<rparr>"

text \<open>
  The issuer answers the \<open>k\<close>-th request for its keys with \<open>net k\<close>, the reply and the time it is there.
  Only \<open>refresh_keys\<close> makes a request; it takes the number of requests made so far and returns the next.
\<close>

definition refresh_keys ::
    "json_lib \<Rightarrow> (nat \<Rightarrow> http_result \<times> time) \<Rightarrow> jwt_verifier \<Rightarrow> nat \<Rightarrow> (string + key_set) \<times> jwt_verifier \<times> nat" where
  "refresh_keys J net v k =
     (case keys_of_reply J (fst (net k)) of
        Inl e \<Rightarrow> (Inl e, v, Suc k)
      | Inr keys \<Rightarrow> (Inr keys, store_keys (snd (net k)) () keys v, Suc k))"

definition get_keys ::
    "json_lib \<Rightarrow> (nat \<Rightarrow> http_result \<times> time) \<Rightarrow> time \<Rightarrow> jwt_verifier \<Rightarrow> nat
       \<Rightarrow> (string + key_set) \<times> jwt_verifier \<times> nat" where
  "get_keys J net now v k =
     (case look_keys now () v of
        Some keys \<Rightarrow> (Inr keys, v, k)
      | None \<Rightarrow> refresh_keys J net v k)"

interpretation key_store: expiring_store look_keys store_keys jwks_ttl "\<lambda>ks. fmdom ks \<noteq> {||}"
  by unfold_locales (auto simp: look_keys_def store_keys_def)

text \<open>Reading the keys is reading through this store.\<close>

lemma get_keys_read_through:
  "get_keys J net now v k = (r, v', k') \<Longrightarrow>
     read_through look_keys store_keys now () (keys_of_reply J (fst (net k))) (snd (net k)) v = (r, v')"
  by (auto simp: get_keys_def refresh_keys_def read_through_def split: option.splits sum.splits)

text \<open>
  What the JWT library does: the key id of a token whose header it accepts, and the claims of a token
  that a key verifies.
\<close>

record jwt_lib =
  jwt_kid :: "string \<Rightarrow> string option"
  jwt_claims :: "rsa_key \<Rightarrow> string \<Rightarrow> gomap option"

text \<open>\<open>Verify\<close>, from the number of requests for keys made before it to the number made after.\<close>

definition verify_token ::
    "json_lib \<Rightarrow> jwt_lib \<Rightarrow> (nat \<Rightarrow> http_result \<times> time) \<Rightarrow> time \<Rightarrow> string \<Rightarrow> jwt_verifier option \<Rightarrow> nat
       \<Rightarrow> gomap option \<times> jwt_verifier option \<times> nat" where
  "verify_token J L net now token v0 k =
     (case v0 of
        None \<Rightarrow> (None, None, k)
      | Some v \<Rightarrow>
          (case jwt_kid L token of
             None \<Rightarrow> (None, Some v, k)
           | Some kid \<Rightarrow>
               (case get_keys J net now v k of
                  (Inl e, v1, k1) \<Rightarrow> (None, Some v1, k1)
                | (Inr keys, v1, k1) \<Rightarrow>
                    (case fmlookup keys kid of
                       Some key \<Rightarrow> (jwt_claims L key token, Some v1, k1)
                     | None \<Rightarrow>
                         (case refresh_keys J net v1 k1 of
                            (Inl e, v2, k2) \<Rightarrow> (None, Some v2, k2)
                          | (Inr keys2, v2, k2) \<Rightarrow>
                              (case fmlookup keys2 kid of
                                 None \<Rightarrow> (None, Some v2, k2)
                               | Some key \<Rightarrow> (jwt_claims L key token, Some v2, k2)))))))"

definition looks_like_jwt :: "string \<Rightarrow> bool" where
  "looks_like_jwt token0 \<longleftrightarrow>
     (let token = trim_space token0 in token \<noteq> '''' \<and> count_byte token (CHR ''.'') = 2)"

subsection \<open>Scopes\<close>

definition claim_string :: "gomap \<Rightarrow> string \<Rightarrow> string" where
  "claim_string claims key =
     (case fmlookup claims key of
        Some (GStr s) \<Rightarrow> trim_space s
      | Some (GNum n) \<Rightarrow> n
      | _ \<Rightarrow> '''')"

definition claim_scopes :: "gomap \<Rightarrow> string list" where
  "claim_scopes claims =
     (let s = claim_string claims ''scope'' in
      if s \<noteq> '''' then split_scope_list s
      else (case get_arr claims ''scopes'' of
              None \<Rightarrow> []
            | Some vs \<Rightarrow>
                map trim_space (filter (\<lambda>x. trim_space x \<noteq> '''') (List.map_filter as_string vs))))"

definition scopes_satisfied :: "string list \<Rightarrow> string list \<Rightarrow> bool" where
  "scopes_satisfied have_scopes required \<longleftrightarrow> list_all (\<lambda>r. r \<in> set have_scopes) required"

subsection \<open>The middleware\<close>

definition mcp_method_requires_auth :: "request \<Rightarrow> body_read option \<Rightarrow> bool" where
  "mcp_method_requires_auth r body \<longleftrightarrow>
     (if r_method r \<noteq> ''POST'' then False
      else case body of
        Some (ReadBody j) \<Rightarrow>
          (case Option.bind (decode_members j) (field_string ''method'') of
             None \<Rightarrow> True
           | Some m \<Rightarrow> trim_space m \<notin>
               set [''tools/list'', ''initialize'', ''notifications/initialized'', ''ping''])
      | _ \<Rightarrow> True)"

definition oauth_middleware ::
    "json_lib \<Rightarrow> jwt_lib \<Rightarrow> url_parser \<Rightarrow> (nat \<Rightarrow> http_result \<times> time) \<Rightarrow> time
       \<Rightarrow> oauth_config \<Rightarrow> string \<Rightarrow> request \<Rightarrow> body_read option \<Rightarrow> jwt_verifier option
       \<Rightarrow> oauth_result \<times> jwt_verifier option" where
  "oauth_middleware J L parse_url net now cfg mount0 r body v =
     (if \<not> oauth_enabled cfg then (OForward, v)
      else
        (let mount = trim_suffix (if mount0 = '''' then ''/mcp'' else mount0) ''/'';
             path = trim_suffix (r_path r) ''/'';
             token = extract_token r in
         if is_oauth_protected_resource_path parse_url cfg path
         then (oauth_protected_resource_handler cfg r, v)
         else if \<not> has_prefix path mount then (OForward, v)
         else if r_method r = ''OPTIONS'' then (OForward, v)
         else if \<not> require_auth_on_connect cfg \<and> \<not> mcp_method_requires_auth r body then (OForward, v)
         else if token = '''' then (oauth_challenge parse_url cfg '''', v)
         else if has_prefix token ''pat_'' then (OForward, v)
         else if \<not> looks_like_jwt token then (oauth_challenge parse_url cfg '''', v)
         else
           (case verify_token J L net now token v 0 of
              (None, v', n) \<Rightarrow> (oauth_challenge parse_url cfg '''', v')
            | (Some claims, v', n) \<Rightarrow>
                if \<not> scopes_satisfied (claim_scopes claims) (required_scopes cfg)
                then (oauth_challenge parse_url cfg (join '' '' (required_scopes cfg)), v')
                else (OForward, v'))))"


subsection \<open>What reaches the tools\<close>

lemma scopes_satisfied_iff: "scopes_satisfied hs req \<longleftrightarrow> set req \<subseteq> set hs"
  by (auto simp: scopes_satisfied_def list_all_iff)

text \<open>A verified token was verified with a key of the cached key set, under the key id it names.\<close>

lemma refresh_keys_Inr: "refresh_keys J net v k = (Inr keys, v', k') \<Longrightarrow> jv_keys v' = keys"
  by (auto simp: refresh_keys_def store_keys_def split: sum.splits)

lemma get_keys_Inr: "get_keys J net now v k = (Inr keys, v', k') \<Longrightarrow> jv_keys v' = keys"
  by (auto simp: get_keys_def look_keys_def dest: refresh_keys_Inr split: option.splits if_splits)

lemma verify_token_key:
  assumes "verify_token J L net now token v k = (Some claims, v', k')"
  shows "\<exists>v1 kid key. v' = Some v1 \<and> jwt_kid L token = Some kid \<and>
    fmlookup (jv_keys v1) kid = Some key \<and> jwt_claims L key token = Some claims"
proof -
  obtain v0 where v0: "v = Some v0" using assms by (cases v) (simp_all add: verify_token_def)
  obtain kid where kid: "jwt_kid L token = Some kid"
    using assms v0 by (cases "jwt_kid L token") (simp_all add: verify_token_def)
  obtain r1 v1 k1 where g: "get_keys J net now v0 k = (r1, v1, k1)" by (metis prod_cases3)
  obtain keys where r1: "r1 = Inr keys"
    using assms v0 kid g by (cases r1) (simp_all add: verify_token_def)
  show ?thesis
  proof (cases "fmlookup keys kid")
    case (Some key)
    then have "jwt_claims L key token = Some claims" "v' = Some v1"
      using assms v0 kid g r1 by (simp_all add: verify_token_def)
    with Some kid get_keys_Inr g r1 show ?thesis by blast
  next
    case None
    obtain r2 v2 k2 where f: "refresh_keys J net v1 k1 = (r2, v2, k2)" by (metis prod_cases3)
    obtain keys2 where r2: "r2 = Inr keys2"
      using assms v0 kid g r1 None f by (cases r2) (simp_all add: verify_token_def)
    obtain key where key: "fmlookup keys2 kid = Some key"
      using assms v0 kid g r1 None f r2
      by (cases "fmlookup keys2 kid") (simp_all add: verify_token_def)
    then have "jwt_claims L key token = Some claims" "v' = Some v2"
      using assms v0 kid g r1 None f r2 by (simp_all add: verify_token_def)
    with key kid refresh_keys_Inr f r2 show ?thesis by blast
  qed
qed

definition protected :: "url_parser \<Rightarrow> oauth_config \<Rightarrow> string \<Rightarrow> request \<Rightarrow> body_read option \<Rightarrow> bool" where
  "protected parse_url cfg mount0 r body \<longleftrightarrow>
     oauth_enabled cfg \<and>
     \<not> is_oauth_protected_resource_path parse_url cfg (trim_suffix (r_path r) ''/'') \<and>
     has_prefix (trim_suffix (r_path r) ''/'') (trim_suffix (if mount0 = '''' then ''/mcp'' else mount0) ''/'') \<and>
     r_method r \<noteq> ''OPTIONS'' \<and> (require_auth_on_connect cfg \<or> mcp_method_requires_auth r body)"

lemma oauth_middleware_guard:
  assumes "protected parse_url cfg mount r body"
    and "oauth_middleware J L parse_url net now cfg mount r body v = (res, v')"
  shows "(res = OForward \<and> has_prefix (extract_token r) ''pat_'') \<or>
    (res = OForward \<and> (\<exists>v1 kid key claims. v' = Some v1 \<and> jwt_kid L (extract_token r) = Some kid \<and>
       fmlookup (jv_keys v1) kid = Some key \<and> jwt_claims L key (extract_token r) = Some claims \<and>
       set (required_scopes cfg) \<subseteq> set (claim_scopes claims))) \<or>
    (\<exists>challenge. res = OChallenge challenge)"
proof -
  let ?token = "extract_token r"
  have ch: "\<exists>c. oauth_challenge parse_url cfg s = OChallenge c" for s
    by (simp add: oauth_challenge_def Let_def)
  have p: "oauth_enabled cfg" "\<not> is_oauth_protected_resource_path parse_url cfg (trim_suffix (r_path r) ''/'')"
    "has_prefix (trim_suffix (r_path r) ''/'') (trim_suffix (if mount = '''' then ''/mcp'' else mount) ''/'')"
    "r_method r \<noteq> ''OPTIONS''"
    "\<not> (\<not> require_auth_on_connect cfg \<and> \<not> mcp_method_requires_auth r body)"
    using assms(1) by (auto simp only: protected_def)
  have m: "oauth_middleware J L parse_url net now cfg mount r body v =
      (if ?token = '''' then (oauth_challenge parse_url cfg '''', v)
       else if has_prefix ?token ''pat_'' then (OForward, v)
       else if \<not> looks_like_jwt ?token then (oauth_challenge parse_url cfg '''', v)
       else (case verify_token J L net now ?token v 0 of
              (None, v', n) \<Rightarrow> (oauth_challenge parse_url cfg '''', v')
            | (Some claims, v', n) \<Rightarrow>
                if \<not> scopes_satisfied (claim_scopes claims) (required_scopes cfg)
                then (oauth_challenge parse_url cfg (join '' '' (required_scopes cfg)), v')
                else (OForward, v')))"
    by (simp only: oauth_middleware_def Let_def p not_True_eq_False not_False_eq_True if_False if_True)
  obtain c w n where ver: "verify_token J L net now ?token v 0 = (c, w, n)" by (metis prod_cases3)
  show ?thesis
  proof (cases "?token = '''' \<or> has_prefix ?token ''pat_'' \<or> \<not> looks_like_jwt ?token")
    case True
    with assms(2) m ch show ?thesis by (auto split: if_splits)
  next
    case jwt: False
    show ?thesis
    proof (cases c)
      case None
      with assms(2) m jwt ver ch show ?thesis by auto
    next
      case (Some claims)
      with verify_token_key ver have "\<exists>v1 kid key. w = Some v1 \<and> jwt_kid L ?token = Some kid \<and>
          fmlookup (jv_keys v1) kid = Some key \<and> jwt_claims L key ?token = Some claims" by blast
      with assms(2) m jwt ver ch Some show ?thesis
        by (cases "scopes_satisfied (claim_scopes claims) (required_scopes cfg)")
          (auto simp: scopes_satisfied_iff)
    qed
  qed
qed

text \<open>
  C25. With OAuth enabled, a request under the mount path that needs authentication gets through only
  with a platform token (\<open>pat_\<close>), which this middleware does not look into, or with a token that a key of the issuer's
  key set verifies and whose claims hold every required scope. Any other such request is answered with a
  401 challenge; the request is never answered otherwise.
\<close>

theorem oauth_guards_tools:
  assumes "protected parse_url cfg mount r body"
    and "oauth_middleware J L parse_url net now cfg mount r body v = (res, v')"
  shows "(res = OForward \<and> has_prefix (extract_token r) ''pat_'') \<or>
    (res = OForward \<and> (\<exists>v1 kid key claims. v' = Some v1 \<and> jwt_kid L (extract_token r) = Some kid \<and>
       fmlookup (jv_keys v1) kid = Some key \<and> jwt_claims L key (extract_token r) = Some claims \<and>
       set (required_scopes cfg) \<subseteq> set (claim_scopes claims))) \<or>
    (\<exists>challenge. res = OChallenge challenge)"
  using assms by (rule oauth_middleware_guard)

definition demo_oauth :: oauth_config where
  "demo_oauth = oauth_config_from_env (\<lambda>k.
     if k = ''AGENTRUNTIME_MCP_RESOURCE_URL'' then ''https://mcp.example.com/mcp''
     else if k = ''AGENTRUNTIME_OAUTH_ISSUER'' then ''https://issuer''
     else if k = ''AGENTRUNTIME_OAUTH_JWKS_URL'' then ''https://issuer/jwks'' else '''')"

definition demo_post :: "string \<Rightarrow> string \<Rightarrow> request" where
  "demo_post path auth =
     \<lparr>r_method = ''POST'', r_path = path,
      r_header = (\<lambda>k. if k = ''Authorization'' then auth else ''''), r_query = (\<lambda>_. '''')\<rparr>"

definition demo_jwks :: string where
  "demo_jwks = ''jwks''"

definition demo_jwks_lib :: json_lib where
  "demo_jwks_lib =
     \<lparr>jl_parse = (\<lambda>_. None),
      jl_first = (\<lambda>b. if b = demo_jwks then Some (JObj [(''keys'', JArr [JObj [(''kid'', JStr ''k1''),
         (''kty'', JStr ''RSA''), (''n'', JStr ''0vx7''), (''e'', JStr ''AQAB'')]])]) else None),
      jl_float = Some\<rparr>"

definition demo_jwt :: jwt_lib where
  "demo_jwt =
     \<lparr>jwt_kid = (\<lambda>t. if t = ''a.b.c'' then Some ''k1'' else None),
      jwt_claims = (\<lambda>key t. if snd key = 65537 \<and> t = ''a.b.c''
         then Some (fmap_of_list [(''scope'', GStr ''openid mcp:execute'')]) else None)\<rparr>"


lemma demo_keys:
  "keys_of_reply demo_jwks_lib (HttpReply 200 (\<lambda>_. '''') demo_jwks)
     = Inr (fmupd ''k1'' (13827195, 65537) fmempty)"
proof -
  have k: "rsa_public_key_from_jwks ''0vx7'' ''AQAB'' = Some (13827195, 65537)"
    by (simp add: rsa_public_key_from_jwks_def base64_decode_def b64_val_def big_endian_def
        exponent_of_bytes_def Let_def wrap64_def)
  have d: "Option.bind (decode_members (jl_first demo_jwks_lib demo_jwks)) (decode_field dec_jwks ''keys'' [])
      = Some [\<lparr>jwk_kid = ''k1'', jwk_kty = ''RSA'', jwk_n = ''0vx7'', jwk_e = ''AQAB''\<rparr>]"
    by code_simp
  have "to_upper ''RSA'' = ''RSA''" by code_simp
  then have "fold add_jwk [\<lparr>jwk_kid = ''k1'', jwk_kty = ''RSA'', jwk_n = ''0vx7'', jwk_e = ''AQAB''\<rparr>] fmempty
      = fmupd ''k1'' (13827195, 65537) fmempty"
    by (simp add: add_jwk_def k)
  then show ?thesis by (simp add: keys_of_reply_def d)
qed

definition demo_verifier :: "jwt_verifier option" where
  "demo_verifier = Some \<lparr>jv_keys = fmempty, jv_cached_at = 0\<rparr>"

definition demo_fetched :: "nat \<Rightarrow> http_result \<times> time" where
  "demo_fetched k = (if k = 0 then (HttpReply 200 (\<lambda>_. '''') demo_jwks, 5) else (HttpFailed '''', 6))"

lemma demo_protected: "protected (\<lambda>_. None) demo_oauth ''/mcp'' (demo_post ''/mcp'' ''Bearer a.b.c'') None"
  by code_simp

lemma demo_token: "extract_token (demo_post ''/mcp'' ''Bearer a.b.c'') = ''a.b.c''" "\<not> has_prefix ''a.b.c'' ''pat_''"
  by code_simp+

lemma demo_forwarded:
  "\<exists>v'. oauth_middleware demo_jwks_lib demo_jwt (\<lambda>_. None) demo_fetched
      4 demo_oauth ''/mcp'' (demo_post ''/mcp'' ''Bearer a.b.c'') None demo_verifier = (OForward, v')"
proof -
  have t: "looks_like_jwt ''a.b.c''" "jwt_kid demo_jwt ''a.b.c'' = Some ''k1''"
    "scopes_satisfied (claim_scopes (fmap_of_list [(''scope'', GStr ''openid mcp:execute'')]))
       (required_scopes demo_oauth)"
    by code_simp+
  have "verify_token demo_jwks_lib demo_jwt demo_fetched 4 ''a.b.c'' demo_verifier 0
      = (Some (fmap_of_list [(''scope'', GStr ''openid mcp:execute'')]),
         Some \<lparr>jv_keys = fmupd ''k1'' (13827195, 65537) fmempty, jv_cached_at = 5\<rparr>, 1)"
    by (simp add: verify_token_def t(2) get_keys_def refresh_keys_def look_keys_def store_keys_def demo_keys
        demo_jwt_def demo_verifier_def demo_fetched_def)
  then show ?thesis
    using demo_protected t demo_token by (auto simp: oauth_middleware_def protected_def Let_def)
qed

theorem oauth_guards_tools_witness:
  "\<exists>v1 key. snd (oauth_middleware demo_jwks_lib demo_jwt (\<lambda>_. None) demo_fetched
      4 demo_oauth ''/mcp'' (demo_post ''/mcp'' ''Bearer a.b.c'') None demo_verifier) = Some v1 \<and>
     fmlookup (jv_keys v1) ''k1'' = Some key"
proof -
  obtain v' where e: "oauth_middleware demo_jwks_lib demo_jwt (\<lambda>_. None) demo_fetched
      4 demo_oauth ''/mcp'' (demo_post ''/mcp'' ''Bearer a.b.c'') None demo_verifier = (OForward, v')"
    using demo_forwarded by blast
  have "jwt_kid demo_jwt ''a.b.c'' = Some ''k1''" by code_simp
  with oauth_guards_tools [OF demo_protected e] demo_token show ?thesis unfolding e by auto
qed

text \<open>
  The method a request is judged by is read without regard to case and the last member wins, so
  a body that calls a tool under the exact name \<open>method\<close> and adds a member \<open>Method\<close> with \<open>ping\<close> needs no
  authentication, whatever the tool. A dispatcher that reads the exact name runs the call.
\<close>

theorem method_check_is_case_blind:
  "mcp_method_requires_auth (demo_post ''/mcp'' '''')
     (Some (ReadBody (Some (JObj [(''method'', JStr m), (''Method'', JStr ''ping'')])))) = False"
proof -
  have "equal_fold ''method'' ''method''" "equal_fold ''Method'' ''method''" by code_simp+
  then have f: "field_string ''method'' [(''method'', JStr m), (''Method'', JStr ''ping'')] = Some ''ping''"
    by (simp add: field_string_def)
  have "trim_space ''ping'' = ''ping''" by code_simp
  then show ?thesis by (simp add: mcp_method_requires_auth_def demo_post_def decode_members_def f)
qed

lemma refresh_keys_count: "refresh_keys J net v k = (r, v', k') \<Longrightarrow> k' = Suc k"
  by (auto simp: refresh_keys_def split: sum.splits)

lemma get_keys_count:
  "get_keys J net now v k = (r, v', k') \<Longrightarrow>
     k' = (if look_keys now () v = None then Suc k else k) \<and> (look_keys now () v \<noteq> None \<longrightarrow> v' = v \<and> r = Inr (jv_keys v))"
  by (auto simp: get_keys_def look_keys_def dest: refresh_keys_count split: option.splits if_splits)

text \<open>
  C26. A verification makes at most two requests for the issuer's keys. Cached keys are fresh for five
  minutes: with fresh keys that hold the key of the token there is no request, and the token is checked with
  that key; with fresh keys that do not hold it there is exactly one; with keys that are not fresh there is
  at least one, even if they hold it.
\<close>

theorem verify_token_fetches:
  assumes "verify_token J L net now token (Some v) k = (c, v', k')" "jwt_kid L token = Some kid"
  shows "k \<le> k' \<and> k' \<le> k + 2 \<and>
    (if fmdom (jv_keys v) = {||} \<or> jv_cached_at v + 300 * second \<le> now then k < k'
     else case fmlookup (jv_keys v) kid of
            Some key \<Rightarrow> k' = k \<and> v' = Some v \<and> c = jwt_claims L key token
          | None \<Rightarrow> k' = k + 1)"
proof -
  obtain r v1 k1 where g: "get_keys J net now v k = (r, v1, k1)" by (metis prod_cases3)
  have fresh: "look_keys now () v = None \<longleftrightarrow> fmdom (jv_keys v) = {||} \<or> jv_cached_at v + 300 * second \<le> now"
    by (auto simp: look_keys_def jwks_ttl_def)
  have "k1 \<le> k' \<and> k' \<le> k1 + 1 \<and>
      (\<forall>keys. r = Inr keys \<longrightarrow> (case fmlookup keys kid of
         Some key \<Rightarrow> k' = k1 \<and> v' = Some v1 \<and> c = jwt_claims L key token | None \<Rightarrow> k' = k1 + 1))"
    using assms g
    by (auto simp: verify_token_def dest!: refresh_keys_count split: sum.splits prod.splits option.splits)
  with get_keys_count [OF g] show ?thesis unfolding fresh [symmetric] by (auto split: option.splits)
qed

theorem verify_token_fetches_witness:
  "\<exists>c v'. verify_token demo_jwks_lib demo_jwt demo_fetched 10 ''a.b.c''
      (Some \<lparr>jv_keys = fmap_of_list [(''k1'', (7, 65537))], jv_cached_at = 0\<rparr>) 0 = (c, v', 0)"
proof -
  let ?v = "\<lparr>jv_keys = fmap_of_list [(''k1'', (7, 65537))], jv_cached_at = 0\<rparr> :: jwt_verifier"
  obtain c v' n where e: "verify_token demo_jwks_lib demo_jwt demo_fetched 10
      ''a.b.c'' (Some ?v) 0 = (c, v', n)" by (metis prod_cases3)
  have "jwt_kid demo_jwt ''a.b.c'' = Some ''k1''" by (simp add: demo_jwt_def)
  from verify_token_fetches [OF e this] have "n = 0" by (simp add: second_def)
  with e show ?thesis by blast
qed

end
