(* ===== verification/ConfigCache.thy ===== *)
theory ConfigCache
  imports Control Sha256
begin

section \<open>The config cache and the rate-limit retry (config_cache.go)\<close>

text \<open>
  Resolved configs are cached per token, instance, connections and schema for a time between 30 and 120
  seconds, and a Control that answers 429 is asked again until a budget of time is used up. The digests
  (\<open>crypto/sha256\<close>) and the marshalled schema are parameters, as are the replies of Control and the
  time each of them takes. Go maps are values here, so \<open>cloneConfigView\<close> is the identity.
\<close>

subsection \<open>Settings\<close>

definition clamp :: "int \<Rightarrow> int \<Rightarrow> int \<Rightarrow> int" where
  "clamp lo hi n = (let a = (if n < lo then lo else n) in if hi < a then hi else a)"

definition config_cache_ttl :: "env \<Rightarrow> time" where
  "config_cache_ttl getenv =
     (let s = trim_space (getenv ''MCP_CONFIG_CACHE_TTL_SEC'');
          sec = (case (if s \<noteq> '''' then atoi s else None) of Some n \<Rightarrow> n | None \<Rightarrow> 60)
      in clamp 30 120 sec * second)"

definition config_retry_budget :: "env \<Rightarrow> time" where
  "config_retry_budget getenv =
     (let s = trim_space (getenv ''MCP_CONFIG_RETRY_BUDGET_SEC'');
          sec = (case (if s \<noteq> '''' then atoi s else None) of
                   Some n \<Rightarrow> if 0 < n then n else 30 | None \<Rightarrow> 30)
      in wrap64 (sec * second))"

subsection \<open>Cache keys\<close>

record digests =
  sha256 :: "string \<Rightarrow> string"       \<comment> \<open>32 bytes\<close>
  marshal_map :: "gomap \<Rightarrow> string option"  \<comment> \<open>\<open>json.Marshal\<close> of a schema\<close>

definition token_fingerprint :: "digests \<Rightarrow> string \<Rightarrow> string" where
  "token_fingerprint D token = hex_encode (take 8 (sha256 D (trim_space token)))"

definition config_schema_hash :: "digests \<Rightarrow> gomap \<Rightarrow> string" where
  "config_schema_hash D schema =
     (if fmdom schema = {||} then ''empty''
      else (case marshal_map D schema of
              None \<Rightarrow> ''marshal-error''
            | Some b \<Rightarrow> hex_encode (take 8 (sha256 D b))))"

definition runtime_context_instance_key :: "gomap option \<Rightarrow> string" where
  "runtime_context_instance_key ctx =
     (case ctx of
        None \<Rightarrow> ''''
      | Some c \<Rightarrow>
          if trim_space (get_str c ''instance_id'') \<noteq> '''' then trim_space (get_str c ''instance_id'')
          else if trim_space (get_str c ''server_id'') \<noteq> ''''
          then ''server:'' @ trim_space (get_str c ''server_id'')
          else '''')"

definition connection_ids_of :: "goval \<Rightarrow> string list" where
  "connection_ids_of v =
     (case v of
        GStrs ss \<Rightarrow> ss
      | GArr vs \<Rightarrow> filter (\<lambda>s. s \<noteq> '''' \<and> s \<noteq> ''<nil>'') (map (\<lambda>x. trim_space (sprint x)) vs)
      | _ \<Rightarrow> [])"

definition runtime_context_connection_ids_key :: "gomap option \<Rightarrow> string" where
  "runtime_context_connection_ids_key ctx =
     (case ctx of
        None \<Rightarrow> ''''
      | Some c \<Rightarrow>
          (let ids = connection_ids_of (get_any c ''connection_ids'')
           in if ids = [] then '''' else ''conn:'' @ join '','' (sort ids)))"

definition config_cache_key :: "digests \<Rightarrow> string \<Rightarrow> gomap \<Rightarrow> gomap option \<Rightarrow> string" where
  "config_cache_key D token schema ctx =
     join ''|'' [token_fingerprint D token, runtime_context_instance_key ctx,
                 runtime_context_connection_ids_key ctx, config_schema_hash D schema]"

subsection \<open>Waiting out a rate limit\<close>

text \<open>
  \<open>int\<close> and \<open>time.Duration\<close> are 64 bits wide and wrap. The shift \<open>1<<attempt\<close> is the wrapped power of
  two, zero from 64 on.
\<close>

definition rate_limit_wait_duration :: "json_lib \<Rightarrow> control_error \<Rightarrow> nat \<Rightarrow> time" where
  "rate_limit_wait_duration J ce attempt =
     (let body = retry_after_from_control_body J (ce_body ce);
          s0 = ce_retry_after_sec ce;
          s1 = (if s0 \<le> 0 then body else s0);
          s2 = (if s1 \<le> 0 then 5 else s1);
          sec = clamp 1 60 s2
      in if 0 < attempt \<and> s0 \<le> 0 \<and> body \<le> 0
         then wrap64 (min (wrap64 (sec * wrap64 (2 ^ attempt))) 60 * second)
         else sec * second)"

text \<open>
  One attempt: what Control answered, how long the call took, and how much longer than asked for the
  sleep after it took.
\<close>

record attempt_run =
  ar_outcome :: "control_failure + control_payload"
  ar_elapsed :: nat
  ar_oversleep :: nat

definition config_of_payload :: "control_payload \<Rightarrow> gomap" where
  "config_of_payload p = (case cp_config p of None \<Rightarrow> fmempty | Some c \<Rightarrow> c)"

text \<open>The loop; the result carries the waits it made, in order, and the time it ended.\<close>

function fetch_retry_loop ::
    "json_lib \<Rightarrow> (nat \<Rightarrow> attempt_run) \<Rightarrow> time \<Rightarrow> nat \<Rightarrow> time
       \<Rightarrow> (control_failure + gomap) \<times> time list \<times> time" where
  "fetch_retry_loop J net deadline attempt now =
     (let run = net attempt; now1 = now + int (ar_elapsed run) in
      case ar_outcome run of
        Inr p \<Rightarrow> (Inr (config_of_payload p), [], now1)
      | Inl (OtherErr e) \<Rightarrow> (Inl (OtherErr e), [], now1)
      | Inl (ControlErr ce) \<Rightarrow>
          if ce_status ce \<noteq> 429 then (Inl (ControlErr ce), [], now1)
          else
            (let wait = rate_limit_wait_duration J ce attempt in
             if wait \<le> 0 then (Inl (ControlErr ce), [], now1)
             else if deadline < now1 + wait then (Inl (ControlErr ce), [], now1)
             else (case fetch_retry_loop J net deadline (Suc attempt)
                          (now1 + wait + int (ar_oversleep run)) of
                     (r, waits, end_time) \<Rightarrow> (r, wait # waits, end_time))))"
  by pat_completeness auto

termination
  by (relation "measure (\<lambda>(J, net, deadline, attempt, now). nat (deadline - now))") auto

declare fetch_retry_loop.simps [simp del]

definition fetch_control_config_with_retry ::
    "json_lib \<Rightarrow> env \<Rightarrow> (nat \<Rightarrow> attempt_run) \<Rightarrow> time \<Rightarrow> (control_failure + gomap) \<times> time list \<times> time"
  where
  "fetch_control_config_with_retry J getenv net now =
     fetch_retry_loop J net (now + config_retry_budget getenv) 0 now"

subsection \<open>The cache\<close>

record cache_entry =
  ent_config :: "gomap option"
  expires_at :: time

type_synonym config_cache = "string \<rightharpoonup> cache_entry"

definition cache_lookup :: "time \<Rightarrow> string \<Rightarrow> config_cache \<Rightarrow> gomap option" where
  "cache_lookup now key cache =
     (case cache key of
        None \<Rightarrow> None
      | Some ent \<Rightarrow> if now < expires_at ent then ent_config ent else None)"

definition put_config_cache_entry :: "time \<Rightarrow> time \<Rightarrow> string \<Rightarrow> gomap \<Rightarrow> config_cache \<Rightarrow> config_cache" where
  "put_config_cache_entry ttl now key cfg cache =
     cache(key \<mapsto> \<lparr>ent_config = Some cfg, expires_at = now + ttl\<rparr>)"

definition fetch_control_config_cached ::
    "json_lib \<Rightarrow> digests \<Rightarrow> env \<Rightarrow> string \<Rightarrow> gomap \<Rightarrow> gomap option \<Rightarrow> (nat \<Rightarrow> attempt_run) \<Rightarrow> time \<Rightarrow> config_cache
       \<Rightarrow> (control_failure + gomap) \<times> config_cache" where
  "fetch_control_config_cached J D getenv token schema ctx net now cache =
     (let (r, waits, later) = fetch_control_config_with_retry J getenv net now in
      if token = '''' then (r, cache)
      else read_through cache_lookup (put_config_cache_entry (config_cache_ttl getenv)) now
             (config_cache_key D token schema ctx) r later cache)"

interpretation config_store: expiring_store cache_lookup "put_config_cache_entry ttl" ttl "\<lambda>_. True"
  for ttl
  by unfold_locales (simp_all add: cache_lookup_def put_config_cache_entry_def)


subsection \<open>How long it waits\<close>

lemma wrap64_mult_zero:
  assumes "(2::int) ^ 64 dvd a * b" shows "wrap64 (wrap64 a * b) = 0"
proof -
  have "(wrap64 a) mod 2 ^ 64 = a mod 2 ^ 64"
    unfolding wrap64_def by (metis diff_add_cancel mod_diff_left_eq add_diff_cancel_right')
  then have "(wrap64 a * b) mod 2 ^ 64 = (a * b) mod 2 ^ 64"
    by (metis mod_mult_left_eq)
  with assms have "(wrap64 a * b) mod 2 ^ 64 = 0" by simp
  then have "(wrap64 a * b + 2 ^ 63) mod 2 ^ 64 = (0 + 2 ^ 63) mod 2 ^ 64"
    by (metis mod_add_left_eq mod_0)
  then show ?thesis by (simp add: wrap64_def)
qed

lemma wrap64_mult_left: "wrap64 (a * wrap64 b) = wrap64 (a * b)"
proof -
  have "(wrap64 b) mod 2 ^ 64 = b mod 2 ^ 64"
    unfolding wrap64_def by (metis diff_add_cancel mod_diff_left_eq add_diff_cancel_right')
  then have "(a * wrap64 b + 2 ^ 63) mod 2 ^ 64 = (a * b + 2 ^ 63) mod 2 ^ 64"
    by (metis mod_add_left_eq mod_mult_right_eq)
  then show ?thesis by (simp add: wrap64_def)
qed

lemma in_int64_five: "0 \<le> x \<Longrightarrow> x \<le> 2 ^ 60 \<Longrightarrow> in_int64 (5 * x)"
  by (simp add: in_int64_def int64_min_def int64_max_def)

lemma wait_no_overflow: "n \<le> 60 \<Longrightarrow> wrap64 (5 * 2 ^ n) = 5 * 2 ^ n"
  by (intro wrap64_id in_int64_five power_increasing) simp_all

lemma in_int64_seconds: "1 \<le> m \<Longrightarrow> m \<le> 60 \<Longrightarrow> in_int64 (m * second)"
  by (simp add: in_int64_def int64_min_def int64_max_def second_def)

lemma backoff_wait:
  "wrap64 (min (wrap64 (5 * 2 ^ n)) 60 * second) = 0 \<or>
   (second \<le> wrap64 (min (wrap64 (5 * 2 ^ n)) 60 * second) \<and>
    wrap64 (min (wrap64 (5 * 2 ^ n)) 60 * second) \<le> 60 * second)"
proof (cases "0 < wrap64 (5 * 2 ^ n)")
  case True
  let ?m = "min (wrap64 (5 * 2 ^ n)) 60"
  have m: "1 \<le> ?m" "?m \<le> 60" using True by auto
  then have "in_int64 (?m * second)" by (rule in_int64_seconds)
  then have "wrap64 (?m * second) = ?m * second" by (rule wrap64_id)
  moreover have "second \<le> ?m * second" "?m * second \<le> 60 * second"
    using m by (simp_all add: second_def)
  ultimately show ?thesis by simp
next
  case False
  then have min: "min (wrap64 (5 * 2 ^ n)) 60 = wrap64 (5 * 2 ^ n)" by simp
  have "60 < n \<or> n \<le> 60" by auto
  then have "60 < n"
  proof
    assume "n \<le> 60"
    then have "wrap64 (5 * 2 ^ n) = 5 * 2 ^ n" by (rule wait_no_overflow)
    with False show "60 < n" by simp
  qed
  then have "n = 55 + (n - 55)" by simp
  then obtain k where "n = 55 + k" ..
  then have "(5 * 2 ^ n) * second = 2 ^ 64 * (5 * 5 ^ 9 * 2 ^ k)"
    by (simp add: second_def power_add)
  then have "(2::int) ^ 64 dvd (5 * 2 ^ n) * second" by (metis dvd_triv_left)
  then show ?thesis unfolding min by (simp add: wrap64_mult_zero)
qed

lemma backoff_overflow:
  "wrap64 (min (wrap64 (5 * 2 ^ 61)) 60 * second) = 0"
  "wrap64 (min (wrap64 (5 * 2 ^ 62)) 60 * second) = 60 * second"
  "63 \<le> n \<Longrightarrow> wrap64 (min (wrap64 (5 * 2 ^ n)) 60 * second) = 0"
proof -
  show "wrap64 (min (wrap64 (5 * 2 ^ 61)) 60 * second) = 0"
    "wrap64 (min (wrap64 (5 * 2 ^ 62)) 60 * second) = 60 * second"
    by (simp_all add: wrap64_def second_def)
  assume "63 \<le> n"
  then consider "n = 63" | "64 \<le> n" by linarith
  then show "wrap64 (min (wrap64 (5 * 2 ^ n)) 60 * second) = 0"
  proof cases
    case 1
    then show ?thesis by (simp add: wrap64_def second_def)
  next
    case 2
    then have "(2::int) ^ 64 dvd 5 * 2 ^ n" by (simp add: le_imp_power_dvd dvd_mult del: power_numeral)
    then have "wrap64 (5 * 2 ^ n) = 0" by (auto simp: wrap64_def elim!: dvdE)
    then show ?thesis by (simp add: wrap64_def)
  qed
qed

lemma clamp_bounds: "lo \<le> hi \<Longrightarrow> lo \<le> clamp lo hi n \<and> clamp lo hi n \<le> hi"
  by (simp add: clamp_def Let_def)

lemma rate_limit_wait_cases:
  "rate_limit_wait_duration J ce attempt = 0 \<or>
   (second \<le> rate_limit_wait_duration J ce attempt \<and>
    rate_limit_wait_duration J ce attempt \<le> 60 * second)"
proof -
  have c: "second \<le> clamp 1 60 n * second \<and> clamp 1 60 n * second \<le> 60 * second" for n
    using clamp_bounds [of 1 60 n] by (simp add: second_def)
  have "clamp 1 60 5 = 5" by (simp add: clamp_def)
  then show ?thesis
    using c [of "ce_retry_after_sec ce"] c [of "retry_after_from_control_body J (ce_body ce)"] c [of 5]
      backoff_wait [of attempt]
    by (simp add: rate_limit_wait_duration_def Let_def wrap64_mult_left)
qed


text \<open>
  C20. The wait before a retry is what the server asks for, in the header or else in the body, clamped to 1
  to 60 seconds, in every attempt. When the server gives no delay it is 5 seconds, doubled with every attempt up to
  60 seconds; the 64-bit product overflows from attempt 61 on, where the wait is zero, which ends the retries
  (attempt 62 alone would wait 60 seconds again).
\<close>

theorem rate_limit_wait_bounds:
  "(rate_limit_wait_duration J ce attempt = 0 \<or>
      (second \<le> rate_limit_wait_duration J ce attempt \<and>
       rate_limit_wait_duration J ce attempt \<le> 60 * second)) \<and>
   (0 < ce_retry_after_sec ce \<longrightarrow>
      rate_limit_wait_duration J ce attempt = max 1 (min 60 (ce_retry_after_sec ce)) * second) \<and>
   (ce_retry_after_sec ce \<le> 0 \<and> 0 < retry_after_from_control_body J (ce_body ce) \<longrightarrow>
      rate_limit_wait_duration J ce attempt = max 1 (min 60 (retry_after_from_control_body J (ce_body ce))) * second) \<and>
   (ce_retry_after_sec ce \<le> 0 \<and> retry_after_from_control_body J (ce_body ce) \<le> 0 \<longrightarrow>
      rate_limit_wait_duration J ce attempt =
        (if attempt \<le> 60 then min (5 * 2 ^ attempt) 60 * second else if attempt = 62 then 60 * second else 0)) \<and>
   (attempt \<le> 60 \<longrightarrow> rate_limit_wait_duration J ce attempt \<noteq> 0)"
proof -
  have c5: "clamp 1 60 5 = 5" by (simp add: clamp_def)
  have c: "clamp 1 60 n * second \<noteq> 0" for n
    using clamp_bounds [of 1 60 n] by (simp add: second_def)
  have e: "rate_limit_wait_duration J ce attempt = min (5 * 2 ^ attempt) 60 * second"
    if "ce_retry_after_sec ce \<le> 0" "retry_after_from_control_body J (ce_body ce) \<le> 0" "attempt \<le> 60"
  proof (cases "attempt = 0")
    case False
    have "1 \<le> (2::int) ^ attempt" by simp
    then have "1 \<le> min ((5::int) * 2 ^ attempt) 60" "min ((5::int) * 2 ^ attempt) 60 \<le> 60" by linarith+
    then have "in_int64 (min (5 * 2 ^ attempt) 60 * second)" by (rule in_int64_seconds)
    then have "wrap64 (min (5 * 2 ^ attempt) 60 * second) = min (5 * 2 ^ attempt) 60 * second"
      by (rule wrap64_id)
    with that False c5 show ?thesis
      by (simp add: rate_limit_wait_duration_def Let_def wrap64_mult_left wait_no_overflow)
  qed (use that c5 in \<open>simp add: rate_limit_wait_duration_def Let_def\<close>)
  have n: "min ((5::int) * 2 ^ attempt) 60 * second \<noteq> 0" by (simp add: second_def min_def)
  have nz: "rate_limit_wait_duration J ce attempt \<noteq> 0" if "attempt \<le> 60"
  proof (cases "ce_retry_after_sec ce \<le> 0 \<and> retry_after_from_control_body J (ce_body ce) \<le> 0")
    case True
    with e that n show ?thesis by simp
  next
    case False
    then show ?thesis using c by (auto simp: rate_limit_wait_duration_def Let_def)
  qed
  have cl: "clamp 1 60 n = max 1 (min 60 n)" for n by (auto simp: clamp_def Let_def)
  have p: "0 < ce_retry_after_sec ce \<Longrightarrow>
      rate_limit_wait_duration J ce attempt = max 1 (min 60 (ce_retry_after_sec ce)) * second"
    "ce_retry_after_sec ce \<le> 0 \<Longrightarrow> 0 < retry_after_from_control_body J (ce_body ce) \<Longrightarrow>
      rate_limit_wait_duration J ce attempt = max 1 (min 60 (retry_after_from_control_body J (ce_body ce))) * second"
    by (simp_all add: rate_limit_wait_duration_def Let_def cl)
  have o: "rate_limit_wait_duration J ce attempt = (if attempt = 62 then 60 * second else 0)"
    if d: "ce_retry_after_sec ce \<le> 0" "retry_after_from_control_body J (ce_body ce) \<le> 0" "\<not> attempt \<le> 60"
  proof -
    have w: "rate_limit_wait_duration J ce attempt = wrap64 (min (wrap64 (5 * 2 ^ attempt)) 60 * second)"
      using d c5 by (simp add: rate_limit_wait_duration_def Let_def wrap64_mult_left)
    consider "attempt = 61" | "attempt = 62" | "63 \<le> attempt" using d(3) by linarith
    then show ?thesis
    proof cases
      case 1
      show ?thesis unfolding w unfolding 1 backoff_overflow by simp
    next
      case 2
      show ?thesis unfolding w unfolding 2 backoff_overflow by simp
    next
      case 3
      then show ?thesis unfolding w backoff_overflow(3) [OF 3] by simp
    qed
  qed
  show ?thesis using rate_limit_wait_cases e nz p o by (simp only: if_split) blast
qed

definition demo_json :: json_lib where
  "demo_json = \<lparr>jl_parse = (\<lambda>_. None), jl_first = (\<lambda>_. None), jl_float = Some\<rparr>"

definition demo_429 :: control_error where
  "demo_429 = \<lparr>ce_status = 429, ce_body = '''', ce_retry_after_sec = 0\<rparr>"

theorem rate_limit_wait_bounds_witness:
  "rate_limit_wait_duration demo_json demo_429 3 = 40 * second \<and>
   rate_limit_wait_duration demo_json (demo_429\<lparr>ce_retry_after_sec := 7\<rparr>) 3 = 7 * second"
proof -
  have b: "retry_after_from_control_body demo_json (ce_body demo_429) = 0"
    by (simp add: retry_after_from_control_body_def demo_429_def)
  have "rate_limit_wait_duration demo_json demo_429 3 = min (5 * 2 ^ 3) 60 * second"
    using rate_limit_wait_bounds [of demo_json demo_429 3] b by (simp add: demo_429_def)
  moreover have "rate_limit_wait_duration demo_json (demo_429\<lparr>ce_retry_after_sec := 7\<rparr>) 3 = 7 * second"
    using rate_limit_wait_bounds [of demo_json "demo_429\<lparr>ce_retry_after_sec := 7\<rparr>" 3]
    by simp
  ultimately show ?thesis by simp
qed

subsection \<open>The retry loop ends within its budget\<close>

lemma retry_loop_bounds:
  "fetch_retry_loop J net deadline attempt now = (r, waits, end_time) \<Longrightarrow>
     (\<forall>w \<in> set waits. second \<le> w \<and> w \<le> 60 * second) \<and>
     sum_list waits \<le> max 0 (deadline - now) \<and>
     (\<forall>e. r = Inl e \<longrightarrow> ar_outcome (net (attempt + length waits)) = Inl e) \<and>
     (\<forall>c. r = Inr c \<longrightarrow> (\<exists>p. ar_outcome (net (attempt + length waits)) = Inr p \<and> c = config_of_payload p)) \<and>
     (\<forall>i < length waits. \<exists>ce. ar_outcome (net (attempt + i)) = Inl (ControlErr ce) \<and> ce_status ce = 429 \<and>
        waits ! i = rate_limit_wait_duration J ce (attempt + i))"
proof (induction J net deadline attempt now arbitrary: r waits end_time rule: fetch_retry_loop.induct)
  case (1 J net deadline attempt now)
  let ?run = "net attempt"
  let ?now1 = "now + int (ar_elapsed ?run)"
  show ?case
  proof (cases "\<exists>ce. ar_outcome ?run = Inl (ControlErr ce) \<and> ce_status ce = 429 \<and>
      0 < rate_limit_wait_duration J ce attempt \<and>
      ?now1 + rate_limit_wait_duration J ce attempt \<le> deadline")
    case False
    then have "waits = [] \<and> (r = Inl (projl (ar_outcome ?run)) \<and> isl (ar_outcome ?run) \<or>
        (\<exists>p. ar_outcome ?run = Inr p \<and> r = Inr (config_of_payload p)))"
      using "1.prems" by (subst (asm) fetch_retry_loop.simps)
        (auto simp: Let_def not_le split: sum.splits control_failure.splits if_splits)
    then show ?thesis by (auto simp: isl_def)
  next
    case True
    then obtain ce where ce: "ar_outcome ?run = Inl (ControlErr ce)" "ce_status ce = 429"
      and w: "0 < rate_limit_wait_duration J ce attempt"
        "?now1 + rate_limit_wait_duration J ce attempt \<le> deadline" by blast
    let ?w = "rate_limit_wait_duration J ce attempt"
    let ?now2 = "?now1 + ?w + int (ar_oversleep ?run)"
    obtain ws where rec: "fetch_retry_loop J net deadline (Suc attempt) ?now2 = (r, ws, end_time)"
      and waits: "waits = ?w # ws"
      using "1.prems" ce w by (subst (asm) fetch_retry_loop.simps)
        (auto simp: Let_def not_le split: prod.splits)
    note IH = "1.IH" [OF refl refl ce(1) refl _ refl _ _ rec]
    have IH': "(\<forall>w \<in> set ws. second \<le> w \<and> w \<le> 60 * second)"
      "sum_list ws \<le> max 0 (deadline - ?now2)"
      "\<forall>e. r = Inl e \<longrightarrow> ar_outcome (net (Suc attempt + length ws)) = Inl e"
      "\<forall>c. r = Inr c \<longrightarrow> (\<exists>p. ar_outcome (net (Suc attempt + length ws)) = Inr p \<and> c = config_of_payload p)"
      "\<forall>i < length ws. \<exists>ce. ar_outcome (net (Suc attempt + i)) = Inl (ControlErr ce) \<and> ce_status ce = 429 \<and>
        ws ! i = rate_limit_wait_duration J ce (Suc attempt + i)"
      using IH ce(2) w by auto
    have b: "second \<le> ?w" "?w \<le> 60 * second" using rate_limit_wait_cases [of J ce attempt] w(1) by auto
    show ?thesis unfolding waits
    proof (intro conjI)
      show "\<forall>w \<in> set (?w # ws). second \<le> w \<and> w \<le> 60 * second" using IH'(1) b by simp
      show "sum_list (?w # ws) \<le> max 0 (deadline - now)" using IH'(2) w(2) by simp
      show "\<forall>e. r = Inl e \<longrightarrow> ar_outcome (net (attempt + length (?w # ws))) = Inl e" using IH'(3) by simp
      show "\<forall>c. r = Inr c \<longrightarrow> (\<exists>p. ar_outcome (net (attempt + length (?w # ws))) = Inr p \<and>
          c = config_of_payload p)" using IH'(4) by simp
      show "\<forall>i < length (?w # ws). \<exists>ce. ar_outcome (net (attempt + i)) = Inl (ControlErr ce) \<and>
          ce_status ce = 429 \<and> (?w # ws) ! i = rate_limit_wait_duration J ce (attempt + i)"
      proof (intro allI impI)
        fix i assume "i < length (?w # ws)"
        then show "\<exists>ce. ar_outcome (net (attempt + i)) = Inl (ControlErr ce) \<and>
            ce_status ce = 429 \<and> (?w # ws) ! i = rate_limit_wait_duration J ce (attempt + i)"
          using ce IH'(5) by (cases i) auto
      qed
    qed
  qed
qed


lemma sum_list_ge:
  assumes "\<forall>w \<in> set ws. c \<le> w" shows "int (length ws) * c \<le> sum_list ws"
  using assms by (induction ws) (auto simp: algebra_simps)

text \<open>
  C21. The retries end within the budget, whatever Control answers and however slow it is: every wait is
  between one second and a minute, the waits together stay within the budget, so there is at most one
  retry per second of it; the result is the answer of the last attempt, and every attempt before it was
  answered with 429.
\<close>

theorem retry_ends_within_budget:
  assumes "fetch_control_config_with_retry J getenv net now = (r, waits, end_time)"
  shows "sum_list waits \<le> max 0 (config_retry_budget getenv) \<and>
    int (length waits) * second \<le> max 0 (config_retry_budget getenv) \<and>
    (\<forall>w \<in> set waits. second \<le> w \<and> w \<le> 60 * second) \<and>
    (\<forall>i < length waits. \<exists>ce. ar_outcome (net i) = Inl (ControlErr ce) \<and> ce_status ce = 429) \<and>
    r = map_sum id config_of_payload (ar_outcome (net (length waits)))"
proof -
  have run: "fetch_retry_loop J net (now + config_retry_budget getenv) 0 now = (r, waits, end_time)"
    using assms by (simp add: fetch_control_config_with_retry_def)
  note b = retry_loop_bounds [OF run, simplified]
  have "r = map_sum id config_of_payload (ar_outcome (net (length waits)))"
    using b by (cases r) auto
  moreover have "int (length waits) * second \<le> sum_list waits"
    by (rule sum_list_ge) (use b in blast)
  ultimately show ?thesis using b by fastforce
qed

definition demo_net :: "nat \<Rightarrow> attempt_run" where
  "demo_net n =
     \<lparr>ar_outcome = (if n < 2 then Inl (ControlErr (demo_429\<lparr>ce_retry_after_sec := 3\<rparr>))
        else Inr \<lparr>cp_config = Some (fmap_of_list [(''k'', GStr ''v'')]), cp_config_schema = None,
                   cp_bridge = None, cp_composio = None\<rparr>),
      ar_elapsed = 10, ar_oversleep = 1\<rparr>"

theorem retry_ends_within_budget_witness:
  "\<exists>r waits e. fetch_control_config_with_retry demo_json (\<lambda>_. '''') demo_net 0 = (r, waits, e) \<and>
     int (length waits) * second \<le> 30 * second"
proof -
  obtain r waits e where f: "fetch_control_config_with_retry demo_json (\<lambda>_. '''') demo_net 0 = (r, waits, e)"
    by (metis prod_cases3)
  have "config_retry_budget (\<lambda>_. '''') = 30 * second"
    by (simp add: config_retry_budget_def second_def wrap64_def)
  with retry_ends_within_budget [OF f] have "int (length waits) * second \<le> 30 * second"
    by (simp add: second_def)
  with f show ?thesis by blast
qed

subsection \<open>The cache\<close>

lemma config_cache_ttl_bounds:
  "30 * second \<le> config_cache_ttl getenv \<and> config_cache_ttl getenv \<le> 120 * second"
  using clamp_bounds [of 30 120] by (simp add: config_cache_ttl_def Let_def second_def)

text \<open>
  C22. The cache answers for between 30 and 120 seconds, whatever the setting: once a config was fetched
  for a token, the next request with the same key within the time to live gets that config and leaves the
  cache as it is, whatever Control would have answered; from the end of the time to live on the entry is
  not used any more.
\<close>

theorem cached_config_reused:
  assumes "token \<noteq> ''''" "cache_lookup now (config_cache_key D token schema ctx) cache = None"
    and "fetch_control_config_with_retry J getenv net now = (Inr cfg, waits, later)"
    and "fetch_control_config_cached J D getenv token schema ctx net now cache = (r, cache')"
  shows "r = Inr cfg \<and>
    (\<forall>net' t. t < later + config_cache_ttl getenv \<longrightarrow>
       fetch_control_config_cached J D getenv token schema ctx net' t cache' = (Inr cfg, cache')) \<and>
    (\<forall>t. later + config_cache_ttl getenv \<le> t \<longrightarrow>
       cache_lookup t (config_cache_key D token schema ctx) cache' = None) \<and>
    30 * second \<le> config_cache_ttl getenv \<and> config_cache_ttl getenv \<le> 120 * second"
proof -
  let ?k = "config_cache_key D token schema ctx" and ?ttl = "config_cache_ttl getenv"
  have rt: "read_through cache_lookup (put_config_cache_entry ?ttl) now ?k (Inr cfg) later cache = (r, cache')"
    using assms(1,3,4) by (simp add: fetch_control_config_cached_def)
  have "fetch_control_config_cached J D getenv token schema ctx net' t cache' = (Inr cfg, cache')"
    if "t < later + ?ttl" for net' t
  proof -
    obtain r' ws' l' where f: "fetch_control_config_with_retry J getenv net' t = (r', ws', l')"
      by (metis prod_cases3)
    have "read_through cache_lookup (put_config_cache_entry ?ttl) t ?k r' l' cache' = (Inr cfg, cache')"
      by (rule config_store.read_through_hit(2) [OF assms(2) _ rt that]) simp
    with f assms(1) show ?thesis by (simp add: fetch_control_config_cached_def)
  qed
  moreover have "cache_lookup t ?k cache' = None" if "later + ?ttl \<le> t" for t
    using config_store.read_through_refetch(1) [OF assms(2) rt that] .
  moreover have "r = Inr cfg"
    using assms(2) rt by (simp add: read_through_def)
  ultimately show ?thesis using config_cache_ttl_bounds by blast
qed

definition demo_digests :: digests where
  "demo_digests = \<lparr>sha256 = (\<lambda>s. take 32 (s @ replicate 32 (CHR ''0''))), marshal_map = (\<lambda>_. Some ''s'')\<rparr>"

theorem cached_config_reused_witness:
  "let cfg = fmap_of_list [(''k'', GStr ''v'')];
       c1 = snd (fetch_control_config_cached demo_json demo_digests (\<lambda>_. '''') ''tok'' demo_schema None
              (demo_net \<circ> (+) 2) 0 Map.empty)
   in fetch_control_config_cached demo_json demo_digests (\<lambda>_. '''') ''tok'' demo_schema None
        demo_net (20 * second) c1 = (Inr cfg, c1)"
proof -
  let ?e = "\<lambda>_::string. ''''" and ?net = "demo_net \<circ> (+) 2"
  let ?cfg = "fmap_of_list [(''k'', GStr ''v'')]"
  let ?f = "fetch_control_config_cached demo_json demo_digests ?e ''tok'' demo_schema None ?net 0 Map.empty"
  have w: "fetch_control_config_with_retry demo_json ?e ?net 0 = (Inr ?cfg, [], 10)"
    by (simp add: fetch_control_config_with_retry_def fetch_retry_loop.simps demo_net_def
        config_of_payload_def Let_def)
  have n: "cache_lookup 0 (config_cache_key demo_digests ''tok'' demo_schema None) Map.empty = None"
    by (simp add: cache_lookup_def)
  have "?f = (fst ?f, snd ?f)" by simp
  note r = cached_config_reused [OF _ n w this]
  have "20 * second < 10 + config_cache_ttl ?e"
    using config_cache_ttl_bounds [of ?e] by (simp add: second_def)
  with r show ?thesis unfolding Let_def by simp
qed

subsection \<open>What the key tells apart\<close>

text \<open>
  The cache key does not separate all runtime contexts it is used for. Two requests with one token
  and schema share a config when one names the instance \<open>server:x\<close> and the other the server \<open>x\<close>, and when
  one is bound to the connection \<open>a,b\<close> and the other to the connections \<open>a\<close> and \<open>b\<close>. The order of the
  connections, which does not matter to Control, does not matter to the key.
\<close>

theorem config_cache_key_collisions:
  "config_cache_key D token schema (Some (fmap_of_list [(''instance_id'', GStr ''server:x'')]))
     = config_cache_key D token schema (Some (fmap_of_list [(''server_id'', GStr ''x'')])) \<and>
   config_cache_key D token schema (Some (fmap_of_list [(''connection_ids'', GStrs [''a,b''])]))
     = config_cache_key D token schema (Some (fmap_of_list [(''connection_ids'', GStrs [''a'', ''b''])])) \<and>
   config_cache_key D token schema (Some (fmap_of_list [(''connection_ids'', GStrs [''b'', ''a''])]))
     = config_cache_key D token schema (Some (fmap_of_list [(''connection_ids'', GStrs [''a'', ''b''])]))"
proof -
  have i: "runtime_context_instance_key (Some (fmap_of_list [(''instance_id'', GStr ''server:x'')]))
      = runtime_context_instance_key (Some (fmap_of_list [(''server_id'', GStr ''x'')]))"
    "runtime_context_connection_ids_key (Some (fmap_of_list [(''instance_id'', GStr ''server:x'')]))
      = runtime_context_connection_ids_key (Some (fmap_of_list [(''server_id'', GStr ''x'')]))"
    by code_simp+
  have c: "runtime_context_connection_ids_key (Some (fmap_of_list [(''connection_ids'', GStrs [''a,b''])]))
      = ''conn:a,b''"
    "runtime_context_connection_ids_key (Some (fmap_of_list [(''connection_ids'', GStrs [''a'', ''b''])]))
      = ''conn:a,b''"
    "runtime_context_connection_ids_key (Some (fmap_of_list [(''connection_ids'', GStrs [''b'', ''a''])]))
      = ''conn:a,b''"
    by code_simp+
  have n: "runtime_context_instance_key (Some (fmap_of_list [(''connection_ids'', GStrs ss)])) = ''''" for ss
    by (simp add: runtime_context_instance_key_def get_str_def)
  show ?thesis by (simp only: config_cache_key_def i c n)
qed

end
