(* ===== verification/Middleware.thy ===== *)
theory Middleware
  imports ConfigCache
begin

section \<open>Config resolution in front of the MCP handler (middleware.go)\<close>

text \<open>
  The middleware answers the schema endpoint, rejects a request whose config cannot be resolved, and
  hands every other request on with the resolved config in its context. It reads the cache of
  \<open>ConfigCache\<close>, so it takes and returns it; \<open>environ\<close> is the list of environment entries and \<open>getenv\<close>
  the lookups in it by exact name.
\<close>

definition no_config_methods :: "string list" where
  "no_config_methods = [''tools/list'', ''initialize'', ''notifications/initialized'']"

text \<open>The nested struct \<open>params\<close> of a JSON-RPC message.\<close>

fun dec_params :: "string \<Rightarrow> json \<Rightarrow> string option" where
  "dec_params n (JObj ms) = decode_field dec_string ''name'' n ms"
| "dec_params n JNull = Some n"
| "dec_params n _ = None"

definition needs_resolved_config :: "body_read option \<Rightarrow> bool" where
  \<comment> \<open>\<open>None\<close> is a request without a body\<close>
  "needs_resolved_config body \<longleftrightarrow>
     (case body of
        Some (ReadBody j) \<Rightarrow>
          (case Option.bind (decode_members j) (\<lambda>ms.
                Option.bind (field_string ''method'' ms) (\<lambda>m.
                Option.bind (decode_field dec_params ''params'' '''' ms) (\<lambda>_. Some m))) of
             None \<Rightarrow> True
           | Some m \<Rightarrow> m \<notin> set no_config_methods)
      | _ \<Rightarrow> True)"

datatype mw_result =
    MwSchema gomap
  | MwReject int string
  | MwNext gomap

text \<open>The status and the message a failed resolution is reported with.\<close>

definition rejection :: "json_lib \<Rightarrow> control_failure \<Rightarrow> int \<times> string" where
  "rejection J err =
     (let (status, msg) =
        (case err of
           OtherErr _ \<Rightarrow> (502, ''control config resolution failed: '' @ failure_text err)
         | ControlErr ce \<Rightarrow>
             (let hm = human_message_from_control_api_body J (ce_body ce) in
              (if ce_status ce = 401 \<or> ce_status ce = 403 then 422 else ce_status ce,
               if hm \<noteq> '''' then ''MCP control config: '' @ hm
               else ''control config resolution failed: '' @ failure_text err)))
      in (if status < 400 \<or> 600 \<le> status then 502 else status, msg))"

definition config_required :: "env \<Rightarrow> bool" where
  "config_required getenv \<longleftrightarrow> to_lower (getenv ''MCP_CONFIG_FETCH_REQUIRED'') \<noteq> ''false''"

definition middleware ::
    "json_lib \<Rightarrow> digests \<Rightarrow> env \<Rightarrow> string list \<Rightarrow> gomap \<Rightarrow> string \<Rightarrow> request \<Rightarrow> body_read option
       \<Rightarrow> (nat \<Rightarrow> attempt_run) \<Rightarrow> time \<Rightarrow> config_cache \<Rightarrow> mw_result \<times> config_cache" where
  "middleware J D getenv environ schema mount0 r body net now cache =
     (let mount = (if mount0 = '''' then ''/mcp'' else mount0);
          required = config_required getenv;
          base = trim_space (getenv ''MCP_CONTROL_SERVER_URL'') in
      if is_schema_endpoint_for_mount r mount then (MwSchema schema, cache)
      else
        (let token = extract_token r;
             idx = new_lowercase_env_index environ;
             env_keys = env_overrides_from_schema schema idx;
             unmet = required \<and> \<not> env_alone_satisfies_required schema idx;
             next = (\<lambda>cfg c. (MwNext (merge_control_with_env_priority cfg env_keys schema), c)) in
         if config_schema_has_keys schema \<and> needs_resolved_config body then
           (if base \<noteq> '''' \<and> token \<noteq> '''' then
              (case fetch_control_config_cached J D getenv token schema
                      (Some (build_runtime_context getenv r)) net now cache of
                 (Inl err, c) \<Rightarrow>
                   if unmet then (case rejection J err of (status, msg) \<Rightarrow> (MwReject status msg, c))
                   else next fmempty c
               | (Inr cfg, c) \<Rightarrow> next cfg c)
            else if base = '''' \<and> unmet
            then (MwReject 503 ''MCP_CONTROL_SERVER_URL is required when config schema has keys'', cache)
            else if base \<noteq> '''' \<and> token = '''' \<and> unmet
            then (MwReject 401 ''missing auth token for control config resolution'', cache)
            else next fmempty cache)
         else next fmempty cache))"

subsection \<open>What is rejected\<close>

lemma rejection_status:
  "rejection J err = (status, msg) \<Longrightarrow> 400 \<le> status \<and> status < 600 \<and> status \<noteq> 401 \<and> status \<noteq> 403"
  by (auto simp: rejection_def Let_def split: control_failure.splits if_splits)

text \<open>Whether Control is asked: the method needs a config with keys, there is a Control and there is a token.\<close>

definition asks_control :: "env \<Rightarrow> gomap \<Rightarrow> request \<Rightarrow> body_read option \<Rightarrow> bool" where
  "asks_control getenv schema r body \<longleftrightarrow>
     schema \<noteq> fmempty \<and> needs_resolved_config body \<and>
     trim_space (getenv ''MCP_CONTROL_SERVER_URL'') \<noteq> '''' \<and> extract_token r \<noteq> ''''"

lemma schema_has_keys_iff: "config_schema_has_keys schema \<longleftrightarrow> schema \<noteq> fmempty"
  by (metis config_schema_has_keys_def fmdom_empty fmrestrict_fset_dom fmrestrict_fset_null)

text \<open>The control flow of the middleware, one equation per way through it.\<close>

lemma middleware_cases:
  obtains (schema) "middleware J D getenv environ schema mount r body net now cache = (MwSchema schema, cache)"
  | (fetched) cfg c where
      "middleware J D getenv environ schema mount r body net now cache =
         (MwNext (merge_control_with_env_priority cfg
            (env_overrides_from_schema schema (new_lowercase_env_index environ)) schema), c)"
      "asks_control getenv schema r body"
      "fetch_control_config_cached J D getenv (extract_token r) schema
         (Some (build_runtime_context getenv r)) net now cache = (Inr cfg, c)"
  | (failed) err c where
      "middleware J D getenv environ schema mount r body net now cache =
         (MwNext (merge_control_with_env_priority fmempty
            (env_overrides_from_schema schema (new_lowercase_env_index environ)) schema), c)"
      "asks_control getenv schema r body"
      "fetch_control_config_cached J D getenv (extract_token r) schema
         (Some (build_runtime_context getenv r)) net now cache = (Inl err, c)"
      "config_required getenv \<Longrightarrow> env_alone_satisfies_required schema (new_lowercase_env_index environ)"
  | (env_only)
      "middleware J D getenv environ schema mount r body net now cache =
         (MwNext (merge_control_with_env_priority fmempty
            (env_overrides_from_schema schema (new_lowercase_env_index environ)) schema), cache)"
      "\<not> asks_control getenv schema r body"
      "config_schema_has_keys schema \<Longrightarrow> needs_resolved_config body \<Longrightarrow> config_required getenv \<Longrightarrow>
         env_alone_satisfies_required schema (new_lowercase_env_index environ)"
  | (rejected) status msg c where
      "middleware J D getenv environ schema mount r body net now cache = (MwReject status msg, c)"
      "config_schema_has_keys schema" "needs_resolved_config body" "config_required getenv"
      "\<not> env_alone_satisfies_required schema (new_lowercase_env_index environ)"
      "(\<exists>err. rejection J err = (status, msg)) \<or> status = 503 \<or> (status = 401 \<and> extract_token r = '''')"
proof -
  let ?m = "middleware J D getenv environ schema mount r body net now cache"
  let ?next = "\<lambda>cfg. MwNext (merge_control_with_env_priority cfg
            (env_overrides_from_schema schema (new_lowercase_env_index environ)) schema)"
  let ?unmet = "config_required getenv \<and>
     \<not> env_alone_satisfies_required schema (new_lowercase_env_index environ)"
  let ?base = "trim_space (getenv ''MCP_CONTROL_SERVER_URL'')"
  show thesis
  proof (cases "is_schema_endpoint_for_mount r (if mount = '''' then ''/mcp'' else mount)")
    case True
    then have "?m = (MwSchema schema, cache)" by (simp add: middleware_def Let_def)
    then show thesis by (rule schema)
  next
    case ns: False
    show thesis
    proof (cases "config_schema_has_keys schema \<and> needs_resolved_config body")
      case False
      have "?m = (?next fmempty, cache)"
        by (simp only: middleware_def Let_def ns False if_False)
      then show thesis by (rule env_only) (use False in \<open>auto simp: asks_control_def schema_has_keys_iff\<close>)
    next
      case need: True
      show thesis
      proof (cases "?base \<noteq> '''' \<and> extract_token r \<noteq> ''''")
        case False
        then have "?m = (if ?base = '''' \<and> ?unmet
            then (MwReject 503 ''MCP_CONTROL_SERVER_URL is required when config schema has keys'', cache)
            else if ?base \<noteq> '''' \<and> extract_token r = '''' \<and> ?unmet
            then (MwReject 401 ''missing auth token for control config resolution'', cache)
            else (?next fmempty, cache))"
          using ns need by (auto simp: middleware_def Let_def)
        moreover have "\<not> asks_control getenv schema r body" using False by (simp add: asks_control_def)
        ultimately show thesis using False need by (cases ?unmet) (auto intro: env_only rejected split: if_splits)
      next
        case ctl: True
        obtain res c where f: "fetch_control_config_cached J D getenv (extract_token r) schema
            (Some (build_runtime_context getenv r)) net now cache = (res, c)" by fastforce
        show thesis
        proof (cases res)
          case (Inr cfg)
          then have "?m = (?next cfg, c)" using ns need ctl f by (simp add: middleware_def Let_def)
          then show thesis
            by (rule fetched) (use need ctl f Inr in \<open>auto simp: asks_control_def schema_has_keys_iff\<close>)
        next
          case (Inl err)
          obtain st msg where rej: "rejection J err = (st, msg)" by fastforce
          have "?m = (if ?unmet then (MwReject st msg, c) else (?next fmempty, c))"
            using ns need ctl f Inl rej by (simp add: middleware_def Let_def)
          moreover have "asks_control getenv schema r body"
            using need ctl by (simp add: asks_control_def schema_has_keys_iff)
          ultimately show thesis using need rej f Inl
            by (cases ?unmet) (auto intro: failed rejected split: if_splits)
        qed
      qed
    qed
  qed
qed


text \<open>
  C23. The middleware rejects a request only when it has to: the schema has keys, the method needs a
  config, fetching is required, and some required key has neither a default nor a value in the
  environment. The status is then a client or server error; an authorization failure of Control is never
  passed on as 401 or 403, and 401 means that the request carried no token.
\<close>

theorem middleware_rejects_only:
  assumes "middleware J D getenv environ schema mount r body net now cache = (MwReject status msg, c)"
  shows "config_schema_has_keys schema \<and> needs_resolved_config body \<and> config_required getenv \<and>
    (\<exists>k meta. fmlookup schema k = Some (GMap meta) \<and> fmlookup meta ''required'' = Some (GBool True) \<and>
       fmlookup meta ''default'' = None \<and> env_setting environ k = None) \<and>
    400 \<le> status \<and> status < 600 \<and> status \<noteq> 403 \<and> (status = 401 \<longrightarrow> extract_token r = '''')"
proof (cases rule: middleware_cases [of J D getenv environ schema mount r body net now cache])
  case (rejected status' msg' c')
  then have "\<not> env_alone_satisfies_required schema (new_lowercase_env_index environ)" by simp
  then have "\<exists>k meta. fmlookup schema k = Some (GMap meta) \<and> fmlookup meta ''required'' = Some (GBool True) \<and>
       fmlookup meta ''default'' = None \<and> env_setting environ k = None"
    unfolding env_alone_satisfies_iff by (simp only: not_all not_imp de_Morgan_disj not_not) blast
  with rejected assms rejection_status [of J _ status msg] show ?thesis by fastforce
qed (use assms in simp_all)

definition demo_call :: "body_read option" where
  "demo_call = Some (ReadBody (Some (JObj [(''method'', JStr ''tools/call'')])))"

definition demo_env :: "env" where
  "demo_env k = (if k = ''MCP_CONTROL_SERVER_URL'' then ''http://control'' else '''')"

definition demo_get :: "string \<Rightarrow> request" where
  "demo_get auth =
     \<lparr>r_method = ''POST'', r_path = ''/mcp'',
      r_header = (\<lambda>k. if k = ''Authorization'' then auth else ''''), r_query = (\<lambda>_. '''')\<rparr>"

theorem middleware_rejects_only_witness:
  "\<exists>msg. middleware demo_json demo_digests demo_env [] demo_schema '''' (demo_get '''') demo_call
      demo_net 0 Map.empty = (MwReject 401 msg, Map.empty) \<and> needs_resolved_config demo_call"
proof -
  have "fst (middleware demo_json demo_digests demo_env [] demo_schema '''' (demo_get '''') demo_call
      demo_net 0 Map.empty) = MwReject 401 ''missing auth token for control config resolution''"
    by code_simp
  then obtain c where m: "middleware demo_json demo_digests demo_env [] demo_schema '''' (demo_get '''') demo_call
      demo_net 0 Map.empty = (MwReject 401 ''missing auth token for control config resolution'', c)"
    by (metis prod.collapse)
  have "c = Map.empty"
    using m by (auto simp: middleware_def Let_def demo_get_def demo_env_def extract_token_def
        has_prefix_def to_lower_def split: if_splits)
  with m middleware_rejects_only [OF m] show ?thesis by blast
qed

lemma middleware_next_config:
  assumes "middleware J D getenv environ schema mount r body net now cache = (MwNext cfg, c)"
  shows "\<exists>control.
    (if schema \<noteq> fmempty \<and> needs_resolved_config body \<and>
        trim_space (getenv ''MCP_CONTROL_SERVER_URL'') \<noteq> '''' \<and> extract_token r \<noteq> ''''
     then (case fetch_control_config_cached J D getenv (extract_token r) schema
             (Some (build_runtime_context getenv r)) net now cache of
             (Inr resolved, c') \<Rightarrow> control = resolved \<and> c = c'
           | (Inl err, c') \<Rightarrow> control = fmempty \<and> c = c' \<and>
               (config_required getenv \<longrightarrow>
                  env_alone_satisfies_required schema (new_lowercase_env_index environ)))
     else control = fmempty \<and> c = cache) \<and>
    (\<forall>k. fmlookup cfg k = (if k |\<in>| fmdom schema \<and> env_setting environ k \<noteq> None
        then map_option GStr (env_setting environ k) else fmlookup control k))"
proof (cases rule: middleware_cases [of J D getenv environ schema mount r body net now cache])
  case (fetched cfg' c')
  then have "cfg = merge_control_with_env_priority cfg'
      (env_overrides_from_schema schema (new_lowercase_env_index environ)) schema" "c = c'"
    using assms by simp_all
  with fetched(2,3) show ?thesis
    by (intro exI [of _ cfg']) (simp add: asks_control_def config_value_lookup)
next
  case (failed err c')
  then have "cfg = merge_control_with_env_priority fmempty
      (env_overrides_from_schema schema (new_lowercase_env_index environ)) schema" "c = c'"
    using assms by simp_all
  with failed(2-4) show ?thesis
    by (intro exI [of _ fmempty]) (simp add: asks_control_def config_value_lookup)
next
  case env_only
  then have "cfg = merge_control_with_env_priority fmempty
      (env_overrides_from_schema schema (new_lowercase_env_index environ)) schema" "c = cache"
    using assms by simp_all
  with env_only(2) show ?thesis
    by (intro exI [of _ fmempty]) (auto simp: asks_control_def config_value_lookup)
qed (use assms in simp_all)

text \<open>
  C24. A request that is handed on carries the resolved config: every key of the schema the environment
  sets has the environment's value, every other key what Control sent. Control is asked exactly when the
  schema has keys, the method needs a config, a Control server is configured and the request has a token;
  what it sent is then used in full, and when it failed the request is handed on without it only if fetching
  is not required or the environment alone satisfies the schema. When Control is not asked the cache stays
  as it was and only the environment counts.
\<close>

theorem middleware_resolves_config:
  assumes "middleware J D getenv environ schema mount r body net now cache = (MwNext cfg, c)"
  shows "\<exists>control.
    (if schema \<noteq> fmempty \<and> needs_resolved_config body \<and>
        trim_space (getenv ''MCP_CONTROL_SERVER_URL'') \<noteq> '''' \<and> extract_token r \<noteq> ''''
     then (case fetch_control_config_cached J D getenv (extract_token r) schema
             (Some (build_runtime_context getenv r)) net now cache of
             (Inr resolved, c') \<Rightarrow> control = resolved \<and> c = c'
           | (Inl err, c') \<Rightarrow> control = fmempty \<and> c = c' \<and>
               (config_required getenv \<longrightarrow>
                  env_alone_satisfies_required schema (new_lowercase_env_index environ)))
     else control = fmempty \<and> c = cache) \<and>
    (\<forall>k. fmlookup cfg k = (if k |\<in>| fmdom schema \<and> env_setting environ k \<noteq> None
        then map_option GStr (env_setting environ k) else fmlookup control k))"
  using assms by (rule middleware_next_config)

lemma demo_fetch:
  assumes "token \<noteq> ''''"
  shows "fetch_control_config_cached J D demo_env token schema ctx (demo_net \<circ> (+) 2) now Map.empty
     = (Inr (fmap_of_list [(''k'', GStr ''v'')]),
        put_config_cache_entry (config_cache_ttl demo_env) (now + 10) (config_cache_key D token schema ctx)
          (fmap_of_list [(''k'', GStr ''v'')]) Map.empty)"
proof -
  have "fetch_control_config_with_retry J demo_env (demo_net \<circ> (+) 2) now =
      (Inr (fmap_of_list [(''k'', GStr ''v'')]), [], now + 10)"
    by (simp add: fetch_control_config_with_retry_def fetch_retry_loop.simps demo_net_def
        config_of_payload_def Let_def)
  then show ?thesis
    using assms by (simp add: fetch_control_config_cached_def read_through_def cache_lookup_def Let_def)
qed

theorem middleware_resolves_config_witness:
  "\<exists>cfg c. middleware demo_json demo_digests demo_env [''api_key=e''] demo_schema '''' (demo_get ''Bearer t'')
      demo_call (demo_net \<circ> (+) 2) 0 Map.empty = (MwNext cfg, c) \<and>
     fmlookup cfg ''api_key'' = Some (GStr ''e'') \<and> fmlookup cfg ''k'' = Some (GStr ''v'')"
proof -
  let ?m = "middleware demo_json demo_digests demo_env [''api_key=e''] demo_schema '''' (demo_get ''Bearer t'')
      demo_call (demo_net \<circ> (+) 2) 0 Map.empty"
  have "config_required demo_env \<longrightarrow>
      env_alone_satisfies_required demo_schema (new_lowercase_env_index [''api_key=e''])" by code_simp
  moreover have "\<not> is_schema_endpoint_for_mount (demo_get ''Bearer t'') ''/mcp''" by code_simp
  ultimately have "\<exists>cfg c. ?m = (MwNext cfg, c)"
    by (auto simp: middleware_def Let_def split: prod.split sum.split)
  then obtain cfg c where m: "?m = (MwNext cfg, c)" by blast
  have s: "env_setting [''api_key=e''] ''api_key'' = Some ''e''" by code_simp
  have "list_ex (\<lambda>k. k = ''api_key'') (map_keys demo_schema)"
    "\<not> list_ex (\<lambda>k. k = ''k'') (map_keys demo_schema)" by code_simp+
  then have "''api_key'' \<in> set (map_keys demo_schema)" "''k'' \<notin> set (map_keys demo_schema)"
    by (auto simp only: list_ex_iff)
  then have k: "''api_key'' |\<in>| fmdom demo_schema" "''k'' |\<notin>| fmdom demo_schema" by simp_all
  have a: "needs_resolved_config demo_call" "trim_space (demo_env ''MCP_CONTROL_SERVER_URL'') \<noteq> ''''"
    "extract_token (demo_get ''Bearer t'') \<noteq> ''''" by code_simp+
  from k(1) have ne: "demo_schema \<noteq> fmempty" by auto
  from middleware_resolves_config [OF m]
  show ?thesis unfolding demo_fetch [OF a(3)] using a ne k s m by (auto split: prod.splits)
qed

end
