(* ===== verification/Tools.thy ===== *)
theory Tools
  imports ConfigEnv GoUrl "HOL-Library.Multiset"
begin

section \<open>Tools and adapters (tooldef.go, addtool.go, registration.go, adapter.go, runtime.go, router.go)\<close>

text \<open>
  The record of registered tools with its hold flag, the registry of adapters, and the settings a server
  starts with. The MCP SDK's server is seen through the calls of its \<open>AddTool\<close>: the state keeps the tools
  passed to it, in order. A panic is a value (\<open>Inl\<close> with its message). Input schemas are dynamic values;
  inferring one from a Go type (\<open>toolschema.For\<close> of the handler's input type) is an argument of the
  registration, since the type is the caller's.
\<close>

subsection \<open>Tool definitions\<close>

record tool_def =
  td_name :: string
  td_description :: string
  td_hold :: bool
  td_input_schema :: goval       \<comment> \<open>\<open>GNil\<close> when there is none\<close>
  td_annotations :: goval

record mcp_tool =
  mt_name :: string
  mt_description :: string
  mt_input_schema :: goval
  mt_annotations :: goval

record tool_registration =
  tr_name :: string
  tr_description :: string
  tr_hold :: bool

text \<open>The dynamic type of the argument \<open>tool any\<close>; a pointer may be nil.\<close>

datatype tool_arg =
    ArgToolDefPtr "tool_def option"
  | ArgToolDef tool_def
  | ArgMCPTool "mcp_tool option"
  | ArgOther

datatype tool_option = WithHold

fun apply_tool_option :: "tool_option option \<Rightarrow> tool_def \<Rightarrow> tool_def" where
  "apply_tool_option (Some WithHold) d = d\<lparr>td_hold := True\<rparr>"
| "apply_tool_option None d = d"

definition tool_def_of_mcp :: "mcp_tool \<Rightarrow> tool_def" where
  "tool_def_of_mcp t =
     \<lparr>td_name = mt_name t, td_description = mt_description t, td_hold = False,
      td_input_schema = mt_input_schema t, td_annotations = mt_annotations t\<rparr>"

definition tool_def_from_mcp :: "mcp_tool option \<Rightarrow> tool_def option" where
  "tool_def_from_mcp t = map_option tool_def_of_mcp t"

definition tool_def_from_arg :: "tool_arg \<Rightarrow> tool_option option list \<Rightarrow> string + tool_def" where
  "tool_def_from_arg tool opts =
     (case (case tool of
              ArgToolDefPtr None \<Rightarrow> Inl ''agentruntimemcp.AddTool: nil *ToolDef''
            | ArgToolDefPtr (Some d) \<Rightarrow> Inr d
            | ArgToolDef d \<Rightarrow> Inr d
            | ArgMCPTool None \<Rightarrow> Inl ''agentruntimemcp.AddTool: nil *mcp.Tool''
            | ArgMCPTool (Some t) \<Rightarrow> Inr (tool_def_of_mcp t)
            | ArgOther \<Rightarrow> Inl ''agentruntimemcp.AddTool: tool must be *ToolDef, ToolDef, or *mcp.Tool'') of
        Inl e \<Rightarrow> Inl e
      | Inr d0 \<Rightarrow>
          (let d = fold apply_tool_option opts d0
           in if td_name d = '''' then Inl ''agentruntimemcp.AddTool: tool name is required'' else Inr d))"

subsection \<open>Registration\<close>

record tool_state =
  registry_tools :: "tool_registration list"
  wire_tools :: "mcp_tool list"        \<comment> \<open>the tools passed to the SDK's \<open>AddTool\<close>\<close>

definition new_tool_state :: tool_state where
  "new_tool_state = \<lparr>registry_tools = [], wire_tools = []\<rparr>"

definition record_tool_registration :: "tool_def \<Rightarrow> tool_state \<Rightarrow> tool_state" where
  "record_tool_registration d s =
     s\<lparr>registry_tools := registry_tools s @
         [\<lparr>tr_name = td_name d, tr_description = td_description d, tr_hold = td_hold d\<rparr>]\<rparr>"

definition registered_tools :: "tool_state \<Rightarrow> tool_registration list" where
  "registered_tools s = registry_tools s"

definition held_tool_names :: "tool_state \<Rightarrow> string list" where
  "held_tool_names s = map tr_name (filter tr_hold (registry_tools s))"

definition publishable_tool_names :: "tool_state \<Rightarrow> string list" where
  "publishable_tool_names s = map tr_name (filter (\<lambda>t. \<not> tr_hold t) (registry_tools s))"

definition reset_tool_registry :: "tool_state \<Rightarrow> tool_state" where
  "reset_tool_registry s = s\<lparr>registry_tools := []\<rparr>"

text \<open>One call of \<open>AddTool\<close>: the tool, the options and the schema inferred for the handler's input.\<close>

record add_tool_call =
  at_tool :: tool_arg
  at_opts :: "tool_option option list"
  at_inferred :: "string + goval"

definition add_tool :: "add_tool_call \<Rightarrow> tool_state \<Rightarrow> (string + unit) \<times> tool_state" where
  "add_tool c s =
     (case tool_def_from_arg (at_tool c) (at_opts c) of
        Inl e \<Rightarrow> (Inl e, s)
      | Inr d \<Rightarrow>
          (let s1 = record_tool_registration d s in
           if td_hold d then (Inr (), s1)
           else
             (case (if td_input_schema d = GNil then at_inferred c else Inr (td_input_schema d)) of
                Inl e \<Rightarrow> (Inl (''AddTool '' @ quoted (td_name d) @ '': input schema: '' @ e), s1)
              | Inr schema \<Rightarrow>
                  (Inr (), s1\<lparr>wire_tools := wire_tools s1 @
                     [\<lparr>mt_name = td_name d, mt_description = td_description d,
                       mt_input_schema = schema, mt_annotations = td_annotations d\<rparr>]\<rparr>))))"

fun add_tools :: "add_tool_call list \<Rightarrow> tool_state \<Rightarrow> (string + unit) \<times> tool_state" where
  "add_tools [] s = (Inr (), s)"
| "add_tools (c # cs) s =
     (case add_tool c s of (Inl e, s1) \<Rightarrow> (Inl e, s1) | (Inr _, s1) \<Rightarrow> add_tools cs s1)"

definition prepare_adapter_registration :: "add_tool_call list \<Rightarrow> tool_state \<Rightarrow> (string + unit) \<times> tool_state" where
  \<comment> \<open>the adapter's \<open>Register\<close> is the calls of \<open>AddTool\<close> it makes\<close>
  "prepare_adapter_registration calls s = add_tools calls (reset_tool_registry s)"

subsection \<open>Adapters\<close>

text \<open>A constructor takes a reserved empty struct; it yields an adapter or an error.\<close>

type_synonym 'a adapter_ctor = "string + 'a"
type_synonym 'a adapter_registry = "string \<rightharpoonup> 'a adapter_ctor"

definition register_adapter :: "string \<Rightarrow> 'a adapter_ctor \<Rightarrow> 'a adapter_registry \<Rightarrow> 'a adapter_registry" where
  "register_adapter name ctor reg = reg(name \<mapsto> ctor)"

definition lookup_adapter :: "'a adapter_registry \<Rightarrow> string \<Rightarrow> 'a adapter_ctor option" where
  "lookup_adapter reg name = reg name"

datatype adapter_error = AdapterNotFound string | CtorFailed string

fun construct_adapters :: "'a adapter_registry \<Rightarrow> string list \<Rightarrow> adapter_error + 'a list" where
  "construct_adapters reg [] = Inr []"
| "construct_adapters reg (n # ns) =
     (case lookup_adapter reg n of
        None \<Rightarrow> Inl (AdapterNotFound n)
      | Some (Inl e) \<Rightarrow> Inl (CtorFailed e)
      | Some (Inr a) \<Rightarrow>
          (case construct_adapters reg ns of Inl e \<Rightarrow> Inl e | Inr as \<Rightarrow> Inr (a # as)))"

definition get_adapters :: "string list \<Rightarrow> string list \<Rightarrow> 'a adapter_registry \<Rightarrow> adapter_error + 'a list" where
  \<comment> \<open>with no names, all adapters in the order \<open>order\<close> the map is ranged over\<close>
  "get_adapters order names reg = construct_adapters reg (if names = [] then order else names)"

interpretation adapter_table: keyed_table lookup_adapter register_adapter "\<lambda>_. True"
  by unfold_locales (simp_all add: lookup_adapter_def register_adapter_def)

subsection \<open>Server settings\<close>

record server_section =
  ss_name :: string
  ss_host :: string
  ss_port :: int
  ss_stateless_http :: bool

definition get_env :: "env \<Rightarrow> string \<Rightarrow> string \<Rightarrow> string" where
  "get_env getenv key dflt = (if getenv key \<noteq> '''' then getenv key else dflt)"

definition run_addr :: "env \<Rightarrow> server_section option \<Rightarrow> string" where
  \<comment> \<open>\<open>RunWithConfig\<close>\<close>
  "run_addr getenv cfg =
     (let h0 = getenv ''HOST'';
          h1 = (case cfg of Some c \<Rightarrow> if h0 = '''' then ss_host c else h0 | None \<Rightarrow> h0);
          host = (if h1 = '''' then ''127.0.0.1'' else h1);
          p = getenv ''PORT'';
          port = (if p \<noteq> '''' then (case atoi p of Some n \<Rightarrow> n | None \<Rightarrow> 8000)
                  else (case cfg of Some c \<Rightarrow> if 0 < ss_port c then ss_port c else 8000 | None \<Rightarrow> 8000))
      in host @ '':'' @ itoa port)"

definition router_addr :: "env \<Rightarrow> server_section option \<Rightarrow> string" where
  \<comment> \<open>\<open>RunWithRouter\<close>\<close>
  "router_addr getenv cfg =
     (let host0 = (case cfg of Some c \<Rightarrow> if ss_host c \<noteq> '''' then ss_host c else ''127.0.0.1''
                   | None \<Rightarrow> ''127.0.0.1'');
          host = get_env getenv ''HOST'' host0;
          port0 = (case cfg of Some c \<Rightarrow> if 0 < ss_port c then ss_port c else 8000 | None \<Rightarrow> 8000);
          p = get_env getenv ''PORT'' '''';
          port = (if p \<noteq> '''' then (case atoi p of Some n \<Rightarrow> n | None \<Rightarrow> port0) else port0)
      in host @ '':'' @ itoa port)"

definition server_name :: "server_section option \<Rightarrow> string" where
  \<comment> \<open>the name \<open>MakeServer\<close> gives the MCP server\<close>
  "server_name cfg = (case cfg of Some c \<Rightarrow> if ss_name c \<noteq> '''' then ss_name c else ''MCPServer''
                      | None \<Rightarrow> ''MCPServer'')"

subsection \<open>What registration leaves\<close>

text \<open>
  The invariant of a registration in progress: the tools on the wire are the recorded ones that are not
  held, in order.
\<close>

definition tools_in_step :: "mcp_tool list \<Rightarrow> tool_state \<Rightarrow> bool" where
  "tools_in_step before s \<longleftrightarrow>
     map mt_name (wire_tools s) = map mt_name before @ publishable_tool_names s"

lemma add_tool_Inr:
  assumes "add_tool c s = (Inr u, s')"
  obtains d :: tool_def where
    "registry_tools s' = registry_tools s @
      [\<lparr>tr_name = td_name d, tr_description = td_description d, tr_hold = td_hold d\<rparr>]"
    "map mt_name (wire_tools s') = map mt_name (wire_tools s) @ (if td_hold d then [] else [td_name d])"
proof -
  obtain d where d: "tool_def_from_arg (at_tool c) (at_opts c) = Inr d"
    using assms by (cases "tool_def_from_arg (at_tool c) (at_opts c)") (simp_all add: add_tool_def)
  show thesis
  proof (cases "td_hold d")
    case True
    with assms d show thesis
      by (intro that [of d]) (auto simp: add_tool_def record_tool_registration_def)
  next
    case False
    then obtain schema where
      "(if td_input_schema d = GNil then at_inferred c else Inr (td_input_schema d)) = Inr schema"
      using assms d
      by (cases "if td_input_schema d = GNil then at_inferred c else Inr (td_input_schema d)")
        (simp_all add: add_tool_def Let_def)
    with False assms d show thesis
      by (intro that [of d]) (auto simp: add_tool_def Let_def record_tool_registration_def)
  qed
qed

lemma add_tools_in_step:
  "add_tools cs s = (Inr u, s') \<Longrightarrow> tools_in_step before s \<Longrightarrow> tools_in_step before s' \<and>
     length (registry_tools s') = length (registry_tools s) + length cs"
proof (induction cs arbitrary: s)
  case (Cons c cs)
  obtain s1 where s1: "add_tool c s = (Inr (), s1)" "add_tools cs s1 = (Inr u, s')"
    using Cons.prems(1) by (auto split: prod.splits sum.splits)
  obtain d :: tool_def where d:
    "registry_tools s1 = registry_tools s @
      [\<lparr>tr_name = td_name d, tr_description = td_description d, tr_hold = td_hold d\<rparr>]"
    "map mt_name (wire_tools s1) = map mt_name (wire_tools s) @ (if td_hold d then [] else [td_name d])"
    by (rule add_tool_Inr [OF s1(1)])
  have "tools_in_step before s1"
    using Cons.prems(2) d by (auto simp: tools_in_step_def publishable_tool_names_def)
  with Cons.IH [OF s1(2)] d(1) show ?case by simp
qed simp

text \<open>
  C27. Held tools stay off the wire and everything else is on it: when an adapter's registration
  succeeds, the registry holds one entry per \<open>AddTool\<close> call, the tools passed to the MCP server are, in
  order, exactly those that are publishable, and a name is either held or publishable.
\<close>

theorem registration_respects_hold:
  assumes "prepare_adapter_registration calls s = (Inr u, s')"
  shows "map mt_name (wire_tools s') = map mt_name (wire_tools s) @ publishable_tool_names s' \<and>
    length (registered_tools s') = length calls \<and>
    mset (map tr_name (registered_tools s')) = mset (held_tool_names s') + mset (publishable_tool_names s')"
proof -
  have "tools_in_step (wire_tools s) (reset_tool_registry s)"
    by (simp add: tools_in_step_def reset_tool_registry_def publishable_tool_names_def)
  from add_tools_in_step [OF _ this] assms
  have "tools_in_step (wire_tools s) s'" "length (registry_tools s') = length calls"
    by (simp_all add: prepare_adapter_registration_def reset_tool_registry_def)
  moreover have "image_mset f (mset xs) =
      image_mset f (filter_mset P (mset xs)) + image_mset f (filter_mset (\<lambda>x. \<not> P x) (mset xs))"
    for f :: "tool_registration \<Rightarrow> string" and P xs
    by (metis image_mset_union multiset_partition)
  ultimately show ?thesis
    by (simp add: tools_in_step_def registered_tools_def held_tool_names_def publishable_tool_names_def
        flip: mset_map mset_filter)
qed

definition demo_tool :: "string \<Rightarrow> bool \<Rightarrow> add_tool_call" where
  "demo_tool name hold =
     \<lparr>at_tool = ArgToolDef \<lparr>td_name = name, td_description = '''', td_hold = False, td_input_schema = GNil,
                 td_annotations = GNil\<rparr>,
      at_opts = (if hold then [Some WithHold] else []), at_inferred = Inr (GStr ''schema'')\<rparr>"

theorem registration_respects_hold_witness:
  "\<exists>s'. prepare_adapter_registration [demo_tool ''a'' False, demo_tool ''b'' True] new_tool_state = (Inr (), s') \<and>
     map mt_name (wire_tools s') = publishable_tool_names s' \<and> length (registered_tools s') = 2"
proof -
  obtain s' where p: "prepare_adapter_registration [demo_tool ''a'' False, demo_tool ''b'' True] new_tool_state
      = (Inr (), s')"
    by (simp add: prepare_adapter_registration_def add_tool_def demo_tool_def tool_def_from_arg_def Let_def)
  from registration_respects_hold [OF p] p show ?thesis
    by (auto simp: new_tool_state_def)
qed

lemma construct_adapters_Cons:
  "construct_adapters reg (n # ns) = Inr as \<longleftrightarrow>
     (\<exists>a as'. lookup_adapter reg n = Some (Inr a) \<and> as = a # as' \<and> construct_adapters reg ns = Inr as')"
  by (cases "lookup_adapter reg n"; cases "the (lookup_adapter reg n)"; cases "construct_adapters reg ns") auto

lemma construct_adapters_Inr:
  "construct_adapters reg ns = Inr as \<longleftrightarrow> map (lookup_adapter reg) ns = map (\<lambda>a. Some (Inr a)) as"
proof (induction ns arbitrary: as)
  case (Cons n ns)
  show ?case unfolding construct_adapters_Cons Cons.IH by (cases as) auto
qed auto

lemma construct_adapters_Inl:
  "construct_adapters reg ns = Inl e \<longleftrightarrow>
     (\<exists>before n after as. ns = before @ n # after \<and> construct_adapters reg before = Inr as \<and>
        (lookup_adapter reg n = None \<and> e = AdapterNotFound n \<or>
         (\<exists>msg. lookup_adapter reg n = Some (Inl msg) \<and> e = CtorFailed msg)))"
proof (induction ns)
  case (Cons n ns)
  let ?bad = "\<lambda>n. lookup_adapter reg n = None \<and> e = AdapterNotFound n \<or>
     (\<exists>msg. lookup_adapter reg n = Some (Inl msg) \<and> e = CtorFailed msg)"
  show ?case
  proof (cases "\<exists>a. lookup_adapter reg n = Some (Inr a)")
    case False
    have "construct_adapters reg (n # ns) = Inl e \<longleftrightarrow> ?bad n"
      using False by (auto split: option.splits sum.splits)
    have notInr: "construct_adapters reg (n # b) \<noteq> Inr as" for b as
      using False by (auto split: option.splits sum.splits)
    show ?thesis
    proof
      assume "construct_adapters reg (n # ns) = Inl e"
      then have "n # ns = [] @ n # ns" "construct_adapters reg [] = Inr []" "?bad n"
        using \<open>construct_adapters reg (n # ns) = Inl e \<longleftrightarrow> ?bad n\<close> by simp_all
      then show "\<exists>before m after as. n # ns = before @ m # after \<and>
          construct_adapters reg before = Inr as \<and> ?bad m" by blast
    next
      assume "\<exists>before m after as. n # ns = before @ m # after \<and>
          construct_adapters reg before = Inr as \<and> ?bad m"
      then obtain b m af as where h: "n # ns = b @ m # af" "construct_adapters reg b = Inr as" "?bad m" by blast
      then have "b = []" using notInr by (cases b) auto
      with h have "m = n" by simp
      with h(3) have "?bad n" by simp
      then show "construct_adapters reg (n # ns) = Inl e"
        using \<open>construct_adapters reg (n # ns) = Inl e \<longleftrightarrow> ?bad n\<close> by blast
    qed
  next
    case True
    then obtain a where a: "lookup_adapter reg n = Some (Inr a)" by blast
    have cons: "construct_adapters reg (n # b) = Inr as \<longleftrightarrow> (\<exists>as'. as = a # as' \<and> construct_adapters reg b = Inr as')"
      for b as unfolding construct_adapters_Cons using a by auto
    have "construct_adapters reg (n # ns) = Inl e \<longleftrightarrow> construct_adapters reg ns = Inl e"
      using a by (auto split: sum.splits)
    also have "\<dots> \<longleftrightarrow> (\<exists>before m after as. n # ns = before @ m # after \<and>
        construct_adapters reg before = Inr as \<and> ?bad m)"
    proof
      assume "construct_adapters reg ns = Inl e"
      then obtain b m af as where "ns = b @ m # af" "construct_adapters reg b = Inr as" "?bad m"
        using Cons.IH by blast
      then have "n # ns = (n # b) @ m # af" "construct_adapters reg (n # b) = Inr (a # as)" "?bad m"
        using cons by auto
      then show "\<exists>before m after as. n # ns = before @ m # after \<and>
          construct_adapters reg before = Inr as \<and> ?bad m" by blast
    next
      assume "\<exists>before m after as. n # ns = before @ m # after \<and>
          construct_adapters reg before = Inr as \<and> ?bad m"
      then obtain b m af as where h: "n # ns = b @ m # af" "construct_adapters reg b = Inr as" "?bad m" by blast
      then obtain b' where "b = n # b'" using a by (cases b) auto
      with h cons have "ns = b' @ m # af" "\<exists>as. construct_adapters reg b' = Inr as" by auto
      with h(3) Cons.IH show "construct_adapters reg ns = Inl e" by blast
    qed
    finally show ?thesis .
  qed
qed simp

text \<open>
  \<open>getAdapters\<close> gives either the adapters asked for, in the order of the names, each the one last
  registered under its name, or the first failure: a name nobody registered or a constructor's error, with
  every earlier name registered and constructed.
\<close>

theorem get_adapters_result:
  "(\<forall>as. get_adapters order names reg = Inr as \<longleftrightarrow>
      map (lookup_adapter reg) (if names = [] then order else names) = map (\<lambda>a. Some (Inr a)) as) \<and>
   (\<forall>e. get_adapters order names reg = Inl e \<longleftrightarrow>
      (\<exists>before n after as. (if names = [] then order else names) = before @ n # after \<and>
         construct_adapters reg before = Inr as \<and>
         (lookup_adapter reg n = None \<and> e = AdapterNotFound n \<or>
          (\<exists>msg. lookup_adapter reg n = Some (Inl msg) \<and> e = CtorFailed msg))))"
  unfolding get_adapters_def using construct_adapters_Inr construct_adapters_Inl by blast

end
