(* ===== verification/ServerConfig.thy ===== *)
theory ServerConfig
  imports Tools ConfigEnv
begin

section \<open>Configuration files and tracing (config.go, tracing.go)\<close>

text \<open>
  The server's config file and the tracing switch. The YAML parser and the file system are arguments, and
  so is whether the trace exporter could be made.
\<close>

subsection \<open>Paths\<close>

text \<open>\<open>filepath.Clean\<close> and \<open>filepath.Join\<close> on Unix.\<close>

fun clean_parts :: "bool \<Rightarrow> string list \<Rightarrow> string list \<Rightarrow> string list" where
  \<comment> \<open>the parts kept so far, last first\<close>
  "clean_parts rooted acc [] = rev acc"
| "clean_parts rooted acc (p # ps) =
     (if p = '''' \<or> p = ''.'' then clean_parts rooted acc ps
      else if p = ''..'' then
        (if acc \<noteq> [] \<and> hd acc \<noteq> ''..'' then clean_parts rooted (tl acc) ps
         else if rooted then clean_parts rooted acc ps
         else clean_parts rooted (''..'' # acc) ps)
      else clean_parts rooted (p # acc) ps)"

definition clean_path :: "string \<Rightarrow> string" where
  "clean_path path =
     (let rooted = has_prefix path ''/''; body = join ''/'' (clean_parts rooted [] (split_on CHR ''/'' path)) in
      if rooted then ''/'' @ body else if body = '''' then ''.'' else body)"

definition join_path :: "string \<Rightarrow> string \<Rightarrow> string" where
  "join_path a b =
     (let ps = filter (\<lambda>p. p \<noteq> '''') [a, b] in if ps = [] then '''' else clean_path (join ''/'' ps))"

subsection \<open>The config file\<close>

record server_file =
  sf_server :: "server_section option"
  sf_auth_mode :: "string option"
  sf_tracing :: "bool option"
  sf_config :: "gomap option"

definition empty_server_file :: server_file where
  "empty_server_file = \<lparr>sf_server = None, sf_auth_mode = None, sf_tracing = None, sf_config = None\<rparr>"

datatype file_read = FileMissing | FileError string | FileData string

definition config_path :: "string \<Rightarrow> string \<Rightarrow> string" where
  \<comment> \<open>the path that is read, from the working directory and the argument\<close>
  "config_path cwd path0 =
     (let path = (if path0 = '''' then ''config.yaml'' else path0)
      in if has_prefix path ''/'' then path else join_path cwd path)"

definition load_config ::
    "(string \<Rightarrow> file_read) \<Rightarrow> (string \<Rightarrow> string + server_file) \<Rightarrow> string \<Rightarrow> string \<Rightarrow> string + server_file" where
  "load_config read yaml cwd path =
     (case read (config_path cwd path) of
        FileMissing \<Rightarrow> Inr empty_server_file
      | FileError e \<Rightarrow> Inl e
      | FileData data \<Rightarrow> yaml data)"

definition make_server :: "server_file option \<Rightarrow> string \<times> gomap" where
  \<comment> \<open>the server's name and the config schema\<close>
  "make_server cfg0 =
     (let cfg = (case cfg0 of None \<Rightarrow> empty_server_file | Some c \<Rightarrow> c) in
      (server_name (sf_server cfg), case sf_config cfg of None \<Rightarrow> fmempty | Some m \<Rightarrow> m))"

record streamable_options =
  so_stateless :: bool
  so_json_response :: bool
  so_disable_localhost_protection :: bool

definition new_streamable_http_options :: "env \<Rightarrow> bool \<Rightarrow> streamable_options" where
  "new_streamable_http_options getenv stateless =
     \<lparr>so_stateless = stateless, so_json_response = True,
      so_disable_localhost_protection = env_bool_true getenv ''MCP_DISABLE_LOCALHOST_PROTECTION''\<rparr>"

subsection \<open>Tracing\<close>

definition should_enable_tracing :: "env \<Rightarrow> server_file option \<Rightarrow> bool" where
  "should_enable_tracing getenv cfg \<longleftrightarrow>
     getenv ''OTEL_SDK_DISABLED'' \<notin> set [''true'', ''1'', ''yes''] \<and>
     (case Option.bind cfg sf_tracing of Some enabled \<Rightarrow> enabled | None \<Rightarrow> True)"

record trace_provider =
  tp_endpoint :: string
  tp_service_name :: string

definition init_tracing ::
    "env \<Rightarrow> string option \<Rightarrow> server_file option \<Rightarrow> trace_provider option \<Rightarrow> (string + unit) \<times> trace_provider option" where
  \<comment> \<open>\<open>exporter\<close> is the error of making the exporter, if any; the state is the global provider\<close>
  "init_tracing getenv exporter cfg provider =
     (if \<not> should_enable_tracing getenv cfg then (Inr (), provider)
      else
        (let e0 = getenv ''OTEL_EXPORTER_OTLP_ENDPOINT'';
             e1 = (if e0 = '''' then ''127.0.0.1:4318'' else e0);
             endpoint = trim_prefix (trim_prefix e1 ''https://'') ''http://'';
             n0 = getenv ''OTEL_SERVICE_NAME'';
             name = (if n0 = '''' then ''agentruntime-mcp'' else n0) in
         case exporter of
           Some err \<Rightarrow> (Inl err, provider)
         | None \<Rightarrow> (Inr (), Some \<lparr>tp_endpoint = endpoint, tp_service_name = name\<rparr>)))"

definition wrap_with_tracing ::
    "env \<Rightarrow> string option \<Rightarrow> server_file option \<Rightarrow> trace_provider option \<Rightarrow> bool \<times> trace_provider option" where
  \<comment> \<open>whether the handler is wrapped; the wrapper passes requests through\<close>
  "wrap_with_tracing getenv exporter cfg provider =
     (if \<not> should_enable_tracing getenv cfg then (False, provider)
      else if provider = None then
        (case init_tracing getenv exporter cfg provider of
           (Inl e, p) \<Rightarrow> (False, p)
         | (Inr _, p) \<Rightarrow> (True, p))
      else (True, provider))"

lemma wrapped_has_provider:
  "wrap_with_tracing getenv exporter cfg provider = (True, p) \<Longrightarrow> p \<noteq> None"
  by (auto simp: wrap_with_tracing_def init_tracing_def Let_def split: if_splits option.splits)

end
