(* ===== verification/BridgeAuth.thy ===== *)
theory BridgeAuth
  imports Control GoUrl
begin

section \<open>Headers for an upstream server (bridge_auth.go)\<close>

text \<open>
  A bridged server's metadata says how the resolved config becomes headers of the upstream request: an
  \<open>auth_mapping\<close> and a list of \<open>header_mappings\<close>. Headers are a finite map from canonical names; the source
  only ever \<open>Set\<close>s them, so each name has one value.
\<close>

subsection \<open>Header names\<close>

text \<open>\<open>textproto.CanonicalMIMEHeaderKey\<close>: names with a byte that no header name has are left alone.\<close>

definition header_byte :: "char \<Rightarrow> bool" where
  "header_byte c =
     (let n = (of_char c :: nat) in
      48 \<le> n \<and> n \<le> 57 \<or> 65 \<le> n \<and> n \<le> 90 \<or> 97 \<le> n \<and> n \<le> 122 \<or>
      c \<in> set ''!#$%&*+-.^_|~'' \<or> n = 39 \<or> n = 96)"

fun canonical_from :: "bool \<Rightarrow> string \<Rightarrow> string" where
  "canonical_from upper [] = []"
| "canonical_from upper (c # cs) =
     (let d = (if upper then upper_char c else lower_char c) in d # canonical_from (d = CHR ''-'') cs)"

definition canonical_header :: "string \<Rightarrow> string" where
  "canonical_header name = (if list_all header_byte name then canonical_from True name else name)"

type_synonym headers = "(string, string) fmap"

definition header_set :: "string \<Rightarrow> string \<Rightarrow> headers \<Rightarrow> headers" where
  "header_set name v h = fmupd (canonical_header name) v h"

subsection \<open>The mappings\<close>

definition config_string :: "gomap option \<Rightarrow> string \<Rightarrow> string" where
  "config_string cfg key =
     (if cfg = None \<or> key = '''' then ''''
      else case Option.bind cfg (\<lambda>m. fmlookup m key) of
             None \<Rightarrow> ''''
           | Some v \<Rightarrow>
               if v = GNil then ''''
               else (case as_string v of Some s \<Rightarrow> trim_space s | None \<Rightarrow> trim_space (sprint v)))"

definition mapping_source :: "gomap \<Rightarrow> string" where
  \<comment> \<open>\<open>from\<close>, or \<open>value_from\<close> where it is blank\<close>
  "mapping_source m =
     (let from = trim_space (string_from_map m ''from'')
      in if from = '''' then trim_space (string_from_map m ''value_from'') else from)"

definition apply_auth_mapping :: "gomap option \<Rightarrow> gomap option \<Rightarrow> string + headers" where
  "apply_auth_mapping cfg mapping =
     (case mapping of
        None \<Rightarrow> Inr fmempty
      | Some m \<Rightarrow>
          (let typ = to_lower (trim_space (string_from_map m ''type'')) in
           if typ = '''' \<or> typ = ''none'' then Inr fmempty
           else
             (let from = mapping_source m; val = config_string cfg from in
              if val = '''' then Inl (''auth mapping requires config key '' @ quoted from)
              else if typ = ''bearer'' then Inr (header_set ''Authorization'' (''Bearer '' @ val) fmempty)
              else if typ = ''header'' then
                (let name = trim_space (string_from_map m ''name'') in
                 if name = '''' then Inl ''auth mapping type header requires name''
                 else Inr (header_set name val fmempty))
              else Inl (''unsupported auth_mapping type '' @ quoted typ))))"

text \<open>One entry of the list: its header name and value, or the error it stops the loop with.\<close>

definition header_of_mapping :: "gomap option \<Rightarrow> gomap \<Rightarrow> string + string \<times> string" where
  "header_of_mapping cfg m =
     (let name = trim_space (string_from_map m ''name''); from = mapping_source m in
      if name = '''' then Inl ''header mapping requires name''
      else if from = '''' then Inl (''header mapping for '' @ quoted name @ '' requires from'')
      else
        (let val = config_string cfg from in
         if val = '''' then Inl (''header mapping requires config key '' @ quoted from)
         else Inr (name, val)))"

fun apply_mappings_from :: "gomap option \<Rightarrow> headers \<Rightarrow> gomap option list \<Rightarrow> string + headers" where
  "apply_mappings_from cfg h [] = Inr h"
| "apply_mappings_from cfg h (None # ms) = apply_mappings_from cfg h ms"
| "apply_mappings_from cfg h (Some m # ms) =
     (case header_of_mapping cfg m of
        Inl e \<Rightarrow> Inl e
      | Inr (name, val) \<Rightarrow> apply_mappings_from cfg (header_set name val h) ms)"

definition apply_header_mappings :: "gomap option \<Rightarrow> gomap option list \<Rightarrow> string + headers" where
  "apply_header_mappings cfg ms = apply_mappings_from cfg fmempty ms"

definition bridge_header_mappings :: "gomap \<Rightarrow> gomap option list" where
  \<comment> \<open>the entries of \<open>[]any\<close> that are maps, or all of \<open>[]map[string]any\<close>\<close>
  "bridge_header_mappings bridge =
     (case get_any bridge ''header_mappings'' of
        GArr items \<Rightarrow> map Some (List.map_filter as_map items)
      | GMaps ms \<Rightarrow> map Some ms
      | _ \<Rightarrow> [])"

definition apply_bridge_headers :: "gomap option \<Rightarrow> gomap option \<Rightarrow> string + headers" where
  "apply_bridge_headers cfg bridge =
     (case bridge of
        None \<Rightarrow> Inr fmempty
      | Some b \<Rightarrow>
          (case apply_auth_mapping cfg (get_map b ''auth_mapping'') of
             Inl e \<Rightarrow> Inl e
           | Inr auth \<Rightarrow>
               (let h = auth; ms = bridge_header_mappings b in
                if ms = [] then Inr h
                else (case apply_header_mappings cfg ms of
                        Inl e \<Rightarrow> Inl e
                      | Inr mapped \<Rightarrow> Inr (h ++\<^sub>f mapped)))))"

subsection \<open>Which header gets which value\<close>

lemma of_upper_char:
  "(of_char (upper_char c) :: nat)
     = (let n = of_char c in if 97 \<le> n \<and> n \<le> 122 then n - 32 else n)"
proof -
  have "(of_char c :: nat) < 256" by simp
  then have "((of_char c :: nat) - 32) mod 256 = of_char c - 32" by (intro mod_less) linarith
  then show ?thesis by (simp add: upper_char_def Let_def)
qed

lemma upper_char_other: "\<not> (97 \<le> (of_char c :: nat) \<and> of_char c \<le> (122 :: nat)) \<Longrightarrow> upper_char c = c"
  by (simp only: upper_char_def Let_def if_False)

lemma lower_char_other: "\<not> (65 \<le> (of_char c :: nat) \<and> of_char c \<le> (90 :: nat)) \<Longrightarrow> lower_char c = c"
  by (simp only: lower_char_def Let_def if_False)

lemma upper_char_idem [simp]: "upper_char (upper_char c) = upper_char c"
proof (cases "97 \<le> (of_char c :: nat) \<and> of_char c \<le> (122 :: nat)")
  case True
  then have "(of_char (upper_char c) :: nat) = of_char c - 32"
    by (simp add: of_upper_char Let_def)
  with True have "\<not> (97 \<le> (of_char (upper_char c) :: nat) \<and> of_char (upper_char c) \<le> (122 :: nat))" by linarith
  then show ?thesis by (rule upper_char_other)
qed (drule upper_char_other, simp)

lemma canonical_from_idem: "canonical_from b (canonical_from b s) = canonical_from b s"
proof (induction b s rule: canonical_from.induct)
  case (2 upper c cs)
  then show ?case by (cases upper) (simp_all add: Let_def)
qed simp

lemma header_byte_letter:
  "65 \<le> (of_char c :: nat) \<and> of_char c \<le> (90 :: nat) \<or> 97 \<le> (of_char c :: nat) \<and> of_char c \<le> (122 :: nat)
     \<Longrightarrow> header_byte c"
  by (auto simp: header_byte_def Let_def)

lemma header_byte_case: "header_byte (upper_char c) = header_byte c" "header_byte (lower_char c) = header_byte c"
proof -
  show "header_byte (upper_char c) = header_byte c"
  proof (cases "97 \<le> (of_char c :: nat) \<and> of_char c \<le> (122 :: nat)")
    case True
    then have "65 \<le> (of_char (upper_char c) :: nat) \<and> of_char (upper_char c) \<le> (90 :: nat)"
      unfolding of_upper_char Let_def by simp linarith
    with True show ?thesis by (simp only: header_byte_letter simp_thms)
  qed (drule upper_char_other, simp)
  show "header_byte (lower_char c) = header_byte c"
  proof (cases "65 \<le> (of_char c :: nat) \<and> of_char c \<le> (90 :: nat)")
    case True
    then have "97 \<le> (of_char (lower_char c) :: nat) \<and> of_char (lower_char c) \<le> (122 :: nat)"
      unfolding of_lower_char Let_def by simp
    with True show ?thesis by (simp only: header_byte_letter simp_thms)
  qed (drule lower_char_other, simp)
qed

lemma header_byte_canonical: "list_all header_byte (canonical_from b s) = list_all header_byte s"
  by (induction b s rule: canonical_from.induct) (simp_all add: Let_def header_byte_case)

text \<open>Copying headers under their names again, as the source does, therefore changes nothing.\<close>

lemma canonical_header_idem [simp]: "canonical_header (canonical_header n) = canonical_header n"
  by (simp add: canonical_header_def header_byte_canonical canonical_from_idem)

interpretation header_table: keyed_table fmlookup fmupd "\<lambda>_. True"
  by unfold_locales auto

lemma apply_mappings_from_Inr:
  "apply_mappings_from cfg h ms = Inr h' \<longleftrightarrow>
     (\<exists>kvs. map (header_of_mapping cfg) (List.map_filter id ms) = map Inr kvs \<and>
        h' = fold (\<lambda>(k, v). fmupd k v) (map (apfst canonical_header) kvs) h)"
proof (induction cfg h ms rule: apply_mappings_from.induct)
  case (3 cfg h m ms)
  show ?case
  proof (cases "header_of_mapping cfg m")
    case (Inl e)
    then show ?thesis by (auto simp: List.map_filter_simps)
  next
    case (Inr nv)
    obtain n v where "nv = (n, v)" by (cases nv)
    with Inr have h: "header_of_mapping cfg m = Inr (n, v)" by simp
    have step: "apply_mappings_from cfg h (Some m # ms) = Inr h' \<longleftrightarrow>
        (\<exists>kvs. map (header_of_mapping cfg) (List.map_filter id ms) = map Inr kvs \<and>
           h' = fold (\<lambda>(k, v). fmupd k v) (map (apfst canonical_header) kvs) (header_set n v h))"
      using 3 [OF h refl] by (simp only: apply_mappings_from.simps h sum.case prod.case)
    have mapped: "map (header_of_mapping cfg) (List.map_filter id (Some m # ms)) =
        Inr (n, v) # map (header_of_mapping cfg) (List.map_filter id ms)"
      by (simp add: List.map_filter_simps h)
    have split: "(\<exists>kvs. Inr (n, v) # xs = map Inr kvs \<and> P kvs) \<longleftrightarrow> (\<exists>kvs. xs = map Inr kvs \<and> P ((n, v) # kvs))"
      for xs :: "(string + string \<times> string) list" and P
      by (auto simp: Cons_eq_map_conv)
    show ?thesis unfolding step mapped split by (simp add: header_set_def)
  qed
qed (auto simp: List.map_filter_simps)

text \<open>The value a mapping puts into its header: the trimmed text of the config value it names, or nothing.\<close>

lemma config_string_text:
  "config_string cfg key =
     (if key = '''' then '''' else case cfg of None \<Rightarrow> ''''
      | Some c \<Rightarrow> (case fmlookup c key of None \<Rightarrow> ''''
          | Some v \<Rightarrow> if v = GNil then '''' else trim_space (sprint v)))"
proof -
  have "(case as_string v of None \<Rightarrow> trim_space (sprint v) | Some s \<Rightarrow> trim_space s) = trim_space (sprint v)" for v
    by (cases v) simp_all
  then show ?thesis by (simp add: config_string_def split: option.splits)
qed

lemma header_of_mapping_Inr_iff:
  "header_of_mapping cfg m = Inr nv \<longleftrightarrow>
     trim_space (string_from_map m ''name'') \<noteq> '''' \<and> config_string cfg (mapping_source m) \<noteq> '''' \<and>
     nv = (trim_space (string_from_map m ''name''), config_string cfg (mapping_source m))"
  by (auto simp: header_of_mapping_def Let_def config_string_text)

lemma header_of_mappings_Inr:
  "map (header_of_mapping cfg) ms = map Inr kvs \<longleftrightarrow>
     (\<forall>m \<in> set ms. trim_space (string_from_map m ''name'') \<noteq> '''' \<and> config_string cfg (mapping_source m) \<noteq> '''') \<and>
     kvs = map (\<lambda>m. (trim_space (string_from_map m ''name''), config_string cfg (mapping_source m))) ms"
proof (induction ms arbitrary: kvs)
  case (Cons m ms)
  then show ?case by (cases kvs) (auto simp: header_of_mapping_Inr_iff)
qed auto

lemma apply_auth_mapping_None: "apply_auth_mapping cfg None = Inr auth \<longleftrightarrow> auth = fmempty"
  by (auto simp: apply_auth_mapping_def)

lemma canonical_authorization: "canonical_header ''Authorization'' = ''Authorization''"
  by code_simp

lemma apply_auth_mapping_Some:
  "apply_auth_mapping cfg (Some m) = Inr auth \<longleftrightarrow>
     (let typ = to_lower (trim_space (string_from_map m ''type'')); name = trim_space (string_from_map m ''name'');
          val = config_string cfg (mapping_source m) in
      (typ = '''' \<or> typ = ''none'') \<and> auth = fmempty \<or>
      typ = ''bearer'' \<and> val \<noteq> '''' \<and> auth = fmupd ''Authorization'' (''Bearer '' @ val) fmempty \<or>
      typ = ''header'' \<and> val \<noteq> '''' \<and> name \<noteq> '''' \<and> auth = fmupd (canonical_header name) val fmempty)"
proof -
  have l: "to_lower '''' = ''''" by code_simp
  show ?thesis by (auto simp: apply_auth_mapping_def header_set_def canonical_authorization Let_def l)
qed

lemma fmap_single: "h = fmupd n v fmempty \<longleftrightarrow> (\<forall>k. fmlookup h k = (if k = n then Some v else None))"
proof
  assume "\<forall>k. fmlookup h k = (if k = n then Some v else None)"
  then show "h = fmupd n v fmempty" by (intro fmap_ext) simp
qed simp

lemma fmap_nothing: "h = fmempty \<longleftrightarrow> (\<forall>k. fmlookup h k = None)"
  by (metis fmap_ext fmempty_lookup)

text \<open>The header \<open>auth_mapping\<close> sets, if any.\<close>

definition auth_header :: "gomap option \<Rightarrow> gomap option \<Rightarrow> string \<Rightarrow> string option" where
  "auth_header cfg am k =
     (case am of None \<Rightarrow> None
      | Some a \<Rightarrow>
          if to_lower (trim_space (string_from_map a ''type'')) = ''bearer''
          then (if k = ''Authorization'' then Some (''Bearer '' @ config_string cfg (mapping_source a)) else None)
          else if to_lower (trim_space (string_from_map a ''type'')) = ''header''
          then (if k = canonical_header (trim_space (string_from_map a ''name''))
                then Some (config_string cfg (mapping_source a)) else None)
          else None)"

lemma auth_header_map: "\<exists>auth. \<forall>k. fmlookup auth k = auth_header cfg am k"
  by (rule exI [of _ "case am of None \<Rightarrow> fmempty
      | Some a \<Rightarrow>
          if to_lower (trim_space (string_from_map a ''type'')) = ''bearer''
          then fmupd ''Authorization'' (''Bearer '' @ config_string cfg (mapping_source a)) fmempty
          else if to_lower (trim_space (string_from_map a ''type'')) = ''header''
          then fmupd (canonical_header (trim_space (string_from_map a ''name''))) (config_string cfg (mapping_source a))
            fmempty
          else fmempty"]) (simp add: auth_header_def split: option.split)

lemma apply_auth_mapping_lookup:
  "apply_auth_mapping cfg am = Inr auth \<longleftrightarrow>
     (case am of None \<Rightarrow> True
      | Some a \<Rightarrow>
          to_lower (trim_space (string_from_map a ''type'')) = '''' \<or>
          to_lower (trim_space (string_from_map a ''type'')) = ''none'' \<or>
          config_string cfg (mapping_source a) \<noteq> '''' \<and>
          (to_lower (trim_space (string_from_map a ''type'')) = ''bearer'' \<or>
           to_lower (trim_space (string_from_map a ''type'')) = ''header'' \<and>
           trim_space (string_from_map a ''name'') \<noteq> '''')) \<and>
     (\<forall>k. fmlookup auth k = auth_header cfg am k)"
proof (cases am)
  case (Some a)
  show ?thesis
    unfolding Some apply_auth_mapping_Some fmap_single fmap_nothing Let_def auth_header_def option.case
    by (cases "to_lower (trim_space (string_from_map a ''type'')) = ''bearer''";
        cases "to_lower (trim_space (string_from_map a ''type'')) = ''header''") auto
qed (simp add: apply_auth_mapping_None fmap_nothing auth_header_def)

lemma apply_bridge_headers_Inr:
  "apply_bridge_headers cfg (Some b) = Inr h \<longleftrightarrow>
     (\<exists>auth kvs. apply_auth_mapping cfg (get_map b ''auth_mapping'') = Inr auth \<and>
        map (header_of_mapping cfg) (List.map_filter id (bridge_header_mappings b)) = map Inr kvs \<and>
        (\<forall>k. fmlookup h k =
           (case filter (\<lambda>(n, v). canonical_header n = k) kvs of
              [] \<Rightarrow> fmlookup auth k
            | xs \<Rightarrow> Some (snd (last xs)))))"
proof -
  have fold_case: "fmlookup (fold (\<lambda>(k, v). fmupd k v) (map (apfst canonical_header) kvs) fmempty) k =
      (case filter (\<lambda>(n, v). canonical_header n = k) kvs of [] \<Rightarrow> None | xs \<Rightarrow> Some (snd (last xs)))" for kvs k
  proof -
    have "filter (\<lambda>kv. fst kv = k \<and> True) (map (apfst canonical_header) kvs)
        = map (apfst canonical_header) (filter (\<lambda>(n, v). canonical_header n = k) kvs)"
      by (auto simp: filter_map o_def intro!: arg_cong [where f = "map _"] filter_cong)
    then show ?thesis
      by (auto simp: header_table.get_fold_put last_map split: list.splits)
  qed
  have merged: "h = auth ++\<^sub>f fold (\<lambda>(k, v). fmupd k v) (map (apfst canonical_header) kvs) fmempty \<longleftrightarrow>
      (\<forall>k. fmlookup h k = (case filter (\<lambda>(n, v). canonical_header n = k) kvs of
         [] \<Rightarrow> fmlookup auth k | xs \<Rightarrow> Some (snd (last xs))))" for auth kvs
    proof -
    have "fmlookup (auth ++\<^sub>f fold (\<lambda>(k, v). fmupd k v) (map (apfst canonical_header) kvs) fmempty) k =
        (case filter (\<lambda>(n, v). canonical_header n = k) kvs of [] \<Rightarrow> fmlookup auth k | xs \<Rightarrow> Some (snd (last xs)))" for k
      by (simp add: fold_case fmlookup_dom_iff split: list.splits)
    then show ?thesis by (metis fmap_ext)
  qed
  show ?thesis
  proof (cases "apply_auth_mapping cfg (get_map b ''auth_mapping'')")
    case (Inl e)
    then show ?thesis by (simp add: apply_bridge_headers_def)
  next
    case (Inr auth)
    then have "apply_bridge_headers cfg (Some b) = Inr h \<longleftrightarrow>
       (\<exists>m. apply_mappings_from cfg fmempty (bridge_header_mappings b) = Inr m \<and> h = auth ++\<^sub>f m)"
      by (cases "apply_mappings_from cfg fmempty (bridge_header_mappings b)";
          cases "bridge_header_mappings b = []")
        (auto simp: apply_bridge_headers_def apply_header_mappings_def Let_def)
    with Inr show ?thesis unfolding apply_mappings_from_Inr by (auto simp: merged [symmetric])
  qed
qed

lemma bridge_header_mappings_maps:
  "List.map_filter id (bridge_header_mappings b) =
     (case get_any b ''header_mappings'' of
        GArr items \<Rightarrow> List.map_filter as_map items | GMaps ms \<Rightarrow> ms | _ \<Rightarrow> [])"
proof -
  have "List.map_filter id (map Some xs) = xs" for xs :: "gomap list"
    by (induction xs) (simp_all add: List.map_filter_simps)
  then show ?thesis by (simp add: bridge_header_mappings_def split: goval.split)
qed

lemma filter_header_names:
  "(case filter (\<lambda>(n, v). canonical_header n = k) (map (\<lambda>m. (f m, g m)) ms) of
      [] \<Rightarrow> d | xs \<Rightarrow> Some (snd (last xs))) =
   (case filter (\<lambda>m. canonical_header (f m) = k) ms of [] \<Rightarrow> d | xs \<Rightarrow> Some (g (last xs)))"
proof -
  have "filter (\<lambda>(n, v). canonical_header n = k) (map (\<lambda>m. (f m, g m)) ms)
      = map (\<lambda>m. (f m, g m)) (filter (\<lambda>m. canonical_header (f m) = k) ms)"
    by (simp add: filter_map o_def)
  then show ?thesis by (auto simp: last_map split: list.split)
qed


definition demo_mappings :: gomap where
  "demo_mappings = fmap_of_list
     [(''auth_mapping'', GMap (fmap_of_list [(''type'', GStr ''Bearer''), (''from'', GStr ''token'')])),
      (''header_mappings'', GArr [GMap (fmap_of_list [(''name'', GStr ''x-api-key''), (''from'', GStr '' key '')]),
         GStr ''junk'', GMap (fmap_of_list [(''name'', GStr ''X-API-KEY''), (''value_from'', GStr ''region'')])])]"

definition demo_credentials :: gomap where
  "demo_credentials = fmap_of_list [(''token'', GStr ''t ''), (''key'', GNum ''7''), (''region'', GStr ''eu'')]"


end
