(* ===== verification/Proxy.thy ===== *)
theory Proxy
  imports Http
begin

section \<open>JSON-RPC answers and the proxy (proxy.go)\<close>

text \<open>
  The proxy serves MCP in front of one target server: it overlays the tool descriptions of a file on the
  target's tool list, and forwards everything else. The POST to the target and the reading of the
  overlay file (its YAML parser is third-party) are arguments. A handler's result is its answer and the
  POSTs it made.
\<close>

subsection \<open>Answers\<close>

datatype rpc_answer =
    AnsHttpError int string   \<comment> \<open>\<open>http.Error\<close>\<close>
  | AnsJson goval             \<comment> \<open>200, \<open>application/json\<close>, the value encoded\<close>

fun map_value :: "gomap option \<Rightarrow> goval" where
  \<comment> \<open>a map as a value: a nil map is encoded as \<open>null\<close>\<close>
  "map_value None = GNil"
| "map_value (Some m) = GMap m"

definition rpc_error_value :: "int \<Rightarrow> string \<Rightarrow> goval" where
  "rpc_error_value code msg = GMap (fmap_of_list [(''code'', GNum (itoa code)), (''message'', GStr msg)])"

definition write_json_rpc_response :: "goval \<Rightarrow> gomap option \<Rightarrow> (int \<times> string) option \<Rightarrow> rpc_answer" where
  "write_json_rpc_response rid result err =
     AnsJson (GMap (case err of
        Some (code, msg) \<Rightarrow> fmap_of_list [(''jsonrpc'', GStr ''2.0''), (''id'', rid), (''error'', rpc_error_value code msg)]
      | None \<Rightarrow> fmap_of_list [(''jsonrpc'', GStr ''2.0''), (''id'', rid), (''result'', map_value result)]))"

definition rpc_error :: "goval \<Rightarrow> int \<Rightarrow> string \<Rightarrow> rpc_answer" where
  "rpc_error rid code msg = write_json_rpc_response rid None (Some (code, msg))"

definition rpc_result :: "goval \<Rightarrow> gomap \<Rightarrow> rpc_answer" where
  "rpc_result rid result = write_json_rpc_response rid (Some result) None"

text \<open>
  The message of a request: \<open>None\<close> when the body cannot be read or is not a JSON object or \<open>null\<close>; \<open>Some None\<close>
  is \<open>null\<close>, a nil map. Reading a nil map finds nothing.
\<close>

definition rpc_message :: "json_lib \<Rightarrow> body_read \<Rightarrow> gomap option option" where
  "rpc_message J body =
     (case body of ReadError \<Rightarrow> None | ReadBody j \<Rightarrow> unmarshal_map (jl_float J) j)"

definition message_map :: "gomap option \<Rightarrow> gomap" where
  "message_map data = (case data of None \<Rightarrow> fmempty | Some m \<Rightarrow> m)"

definition message_id :: "gomap option \<Rightarrow> goval" where
  "message_id data = get_any (message_map data) ''id''"

definition message_method :: "gomap option \<Rightarrow> string" where
  "message_method data = get_str (message_map data) ''method''"

subsection \<open>The POST to a target\<close>

record upstream_post =
  up_url :: string
  up_headers :: "(string, string) fmap"
  up_body :: json

definition proxy_target_error :: string where
  "proxy_target_error = ''proxy target not configured''"

definition reply_message :: "json_lib \<Rightarrow> http_result \<Rightarrow> string + gomap option" where
  "reply_message J reply =
     (case reply of
        HttpFailed e \<Rightarrow> Inl (proxy_target_error @ '': '' @ e)
      | HttpReply status header body \<Rightarrow>
          if status \<noteq> 200
          then Inl (proxy_target_error @ '': target returned '' @ itoa status @ '': '' @ body)
          else (case unmarshal_map (jl_float J) (jl_first J body) of
                  None \<Rightarrow> Inl (proxy_target_error @ '': invalid response'')  \<comment> \<open>the decoder's own text\<close>
                | Some res \<Rightarrow> Inr res))"

definition json_headers :: "(string, string) fmap" where
  "json_headers =
     fmap_of_list [(''Accept'', ''application/json, text/event-stream''), (''Content-Type'', ''application/json'')]"

record proxy_client =
  target_url :: string
  overlay_file :: string
  bearer_token :: string

definition build_proxy_app :: "string \<Rightarrow> string \<Rightarrow> string \<Rightarrow> proxy_client" where
  "build_proxy_app target overlay bearer =
     \<lparr>target_url = target, overlay_file = overlay, bearer_token = bearer\<rparr>"

definition proxy_post ::
    "json_lib \<Rightarrow> (upstream_post \<Rightarrow> http_result) \<Rightarrow> proxy_client \<Rightarrow> gomap option
       \<Rightarrow> (string + gomap option) \<times> upstream_post list" where
  "proxy_post J http p payload =
     (if target_url p = '''' then (Inl proxy_target_error, [])
      else
        (let post = \<lparr>up_url = target_url p,
               up_headers = (if bearer_token p \<noteq> ''''
                  then fmupd ''Authorization'' (''Bearer '' @ bearer_token p) json_headers else json_headers),
               up_body = to_json (map_value payload)\<rparr>
         in (reply_message J (http post), [post])))"

subsection \<open>The overlay\<close>

text \<open>
  \<open>read_overlay\<close> gives the \<open>tools\<close> of the file, or \<open>None\<close> when it cannot be read or parsed. A later entry
  of the same name replaces an earlier one; entries without a name are dropped.
\<close>

definition load_overlay :: "(string \<Rightarrow> gomap list option) \<Rightarrow> proxy_client \<Rightarrow> gomap option" where
  "load_overlay read_overlay p =
     (if overlay_file p = '''' then None
      else (case read_overlay (overlay_file p) of
              None \<Rightarrow> None
            | Some ts \<Rightarrow>
                Some (fold (\<lambda>t out. case Option.bind (fmlookup t ''name'') as_string of
                        None \<Rightarrow> out | Some name \<Rightarrow> fmupd name (GMap t) out) ts fmempty)))"

definition overlay_schema :: "string \<Rightarrow> gomap \<Rightarrow> gomap \<Rightarrow> gomap" where
  "overlay_schema key entry t =
     (case fmlookup entry key of
        None \<Rightarrow> t
      | Some v \<Rightarrow> if v = GNil then t else fmupd key v t)"

definition overlay_tool :: "gomap \<Rightarrow> goval \<Rightarrow> goval" where
  "overlay_tool overlay v =
     (case as_map v of
        None \<Rightarrow> v
      | Some t \<Rightarrow>
          (case get_map overlay (get_str t ''name'') of
             None \<Rightarrow> v
           | Some entry \<Rightarrow>
               (let t1 = (if get_str entry ''description'' \<noteq> ''''
                          then fmupd ''description'' (GStr (get_str entry ''description'')) t else t)
                in GMap (overlay_schema ''outputSchema'' entry (overlay_schema ''inputSchema'' entry t1)))))"

definition list_tools_message :: gomap where
  "list_tools_message =
     fmap_of_list [(''jsonrpc'', GStr ''2.0''), (''id'', GNum ''1''), (''method'', GStr ''tools/list''),
       (''params'', GMap fmempty)]"

definition tools_of_reply :: "gomap option \<Rightarrow> goval list" where
  "tools_of_reply res =
     (case Option.bind (get_map (message_map res) ''result'') (\<lambda>r. get_arr r ''tools'') of
        None \<Rightarrow> [] | Some ts \<Rightarrow> ts)"

definition fetch_and_merge_tools ::
    "json_lib \<Rightarrow> (string \<Rightarrow> gomap list option) \<Rightarrow> (upstream_post \<Rightarrow> http_result) \<Rightarrow> proxy_client
       \<Rightarrow> (string + goval list) \<times> upstream_post list" where
  "fetch_and_merge_tools J read_overlay http p =
     (case proxy_post J http p (Some list_tools_message) of
        (Inl e, posts) \<Rightarrow> (Inl e, posts)
      | (Inr res, posts) \<Rightarrow>
          (let tools = tools_of_reply res in
           (Inr (case load_overlay read_overlay p of
                   None \<Rightarrow> tools
                 | Some overlay \<Rightarrow> map (overlay_tool overlay) tools), posts)))"

subsection \<open>The handler\<close>

definition result_of_reply :: "gomap option \<Rightarrow> gomap" where
  \<comment> \<open>\<open>result, _ := res["result"].(map[string]any)\<close>, an empty map where it is missing\<close>
  "result_of_reply res =
     (case get_map (message_map res) ''result'' of None \<Rightarrow> fmempty | Some r \<Rightarrow> r)"

definition call_tool_message :: "gomap option \<Rightarrow> gomap" where
  "call_tool_message data =
     (let params = (case get_map (message_map data) ''params'' of None \<Rightarrow> fmempty | Some m \<Rightarrow> m);
          name = get_str params ''name'';
          args = (case get_map params ''arguments'' of None \<Rightarrow> fmempty | Some m \<Rightarrow> m)
      in fmap_of_list [(''jsonrpc'', GStr ''2.0''), (''id'', GNum ''2''), (''method'', GStr ''tools/call''),
           (''params'', GMap (fmap_of_list [(''name'', GStr name), (''arguments'', GMap args)]))])"

definition proxy_handler ::
    "json_lib \<Rightarrow> (string \<Rightarrow> gomap list option) \<Rightarrow> (upstream_post \<Rightarrow> http_result) \<Rightarrow> proxy_client \<Rightarrow> request
       \<Rightarrow> body_read \<Rightarrow> rpc_answer \<times> upstream_post list" where
  "proxy_handler J read_overlay http p r body =
     (if r_method r = ''GET'' \<and> trim_suffix (r_path r) ''/'' = ''/mcp/config/schema''
      then (AnsJson (GMap fmempty), [])
      else if r_method r \<noteq> ''POST'' then (AnsHttpError 405 ''Method Not Allowed'', [])
      else
        (case rpc_message J body of
           None \<Rightarrow> (rpc_error GNil (-32700) ''Parse error'', [])
         | Some data \<Rightarrow>
             (let rid = message_id data; method = message_method data in
              if method = ''tools/list'' then
                (case fetch_and_merge_tools J read_overlay http p of
                   (Inl e, posts) \<Rightarrow> (rpc_error rid (-32603) e, posts)
                 | (Inr tools, posts) \<Rightarrow> (rpc_result rid (fmap_of_list [(''tools'', GArr tools)]), posts))
              else if method = ''tools/call'' then
                (case proxy_post J http p (Some (call_tool_message data)) of
                   (Inl e, posts) \<Rightarrow> (rpc_error rid (-32603) e, posts)
                 | (Inr res, posts) \<Rightarrow> (rpc_result rid (result_of_reply res), posts))
              else
                (case proxy_post J http p data of
                   (Inl e, posts) \<Rightarrow> (rpc_error rid (-32603) e, posts)
                 | (Inr res, posts) \<Rightarrow> (AnsJson (map_value res), posts)))))"

definition run_proxy :: "string \<Rightarrow> string \<Rightarrow> string \<Rightarrow> string \<Rightarrow> int \<Rightarrow> string + string \<times> proxy_client" where
  \<comment> \<open>the address it listens on, and the client its handler uses\<close>
  "run_proxy target overlay bearer host0 port0 =
     (if target = '''' then Inl proxy_target_error
      else
        (let host = (if host0 = '''' then ''127.0.0.1'' else host0);
             port = (if port0 = 0 then 8010 else port0)
         in Inr (host @ '':'' @ itoa port, build_proxy_app target overlay bearer)))"

subsection \<open>What the overlay changes\<close>

text \<open>The field an overlay gives for a tool.\<close>

definition overlay_field :: "gomap option \<Rightarrow> string \<Rightarrow> string \<Rightarrow> goval option" where
  "overlay_field overlay name k =
     (case Option.bind overlay (\<lambda>ov. get_map ov name) of
        None \<Rightarrow> None
      | Some entry \<Rightarrow>
          if k = ''description'' then (if get_str entry k \<noteq> '''' then Some (GStr (get_str entry k)) else None)
          else if k = ''inputSchema'' \<or> k = ''outputSchema'' then
            (if get_any entry k \<noteq> GNil then Some (get_any entry k) else None)
          else None)"

lemma overlay_schema_lookup:
  "fmlookup (overlay_schema key entry t) k =
     (if k = key \<and> get_any entry key \<noteq> GNil then Some (get_any entry key) else fmlookup t k)"
  by (auto simp: overlay_schema_def get_any_def split: option.splits)

lemma overlay_tool_map:
  "\<exists>t'. overlay_tool ov (GMap t) = GMap t' \<and>
     (\<forall>k. fmlookup t' k = (case overlay_field (Some ov) (get_str t ''name'') k of
        Some v \<Rightarrow> Some v | None \<Rightarrow> fmlookup t k))"
proof (cases "get_map ov (get_str t ''name'')")
  case None
  then show ?thesis by (simp add: overlay_tool_def overlay_field_def)
next
  case (Some entry)
  then show ?thesis
    by (auto simp: overlay_tool_def overlay_field_def overlay_schema_lookup Let_def)
qed

text \<open>
  C36. The tool list the proxy answers with has the target's tools, one for one and in order. In each tool only
  description, inputSchema and outputSchema can differ from the target's, and they differ only where the
  overlay file has an entry of that name with a text or a schema for them; every other member, the name
  included, is the target's.
\<close>

theorem overlay_changes_only_its_fields:
  assumes "fetch_and_merge_tools J read_overlay http p = (Inr tools', posts)"
  shows "\<exists>res. proxy_post J http p (Some list_tools_message) = (Inr res, posts) \<and>
    length tools' = length (tools_of_reply res) \<and>
    (\<forall>i < length tools'. case tools_of_reply res ! i of
        GMap t \<Rightarrow> (\<exists>t'. tools' ! i = GMap t' \<and>
          (\<forall>k. fmlookup t' k =
             (case overlay_field (load_overlay read_overlay p) (get_str t ''name'') k of
                Some v \<Rightarrow> Some v | None \<Rightarrow> fmlookup t k)))
      | v \<Rightarrow> tools' ! i = v)"
proof -
  obtain res where res: "proxy_post J http p (Some list_tools_message) = (Inr res, posts)"
    and tools': "tools' = (case load_overlay read_overlay p of
        None \<Rightarrow> tools_of_reply res | Some ov \<Rightarrow> map (overlay_tool ov) (tools_of_reply res))"
    using assms by (auto simp: fetch_and_merge_tools_def Let_def split: prod.splits sum.splits)
  show ?thesis
  proof (cases "load_overlay read_overlay p")
    case None
    with res tools' show ?thesis
      by (auto simp: overlay_field_def split: goval.splits)
  next
    case (Some ov)
    have other: "overlay_tool ov v = v" if "as_map v = None" for v
      using that by (simp add: overlay_tool_def)
    from Some res tools' overlay_tool_map [of ov] show ?thesis
      by (auto simp: other split: goval.splits)
  qed
qed
definition demo_proxy_json :: json_lib where
  "demo_proxy_json =
     \<lparr>jl_parse = (\<lambda>_. None), jl_first = (\<lambda>_. Some (JObj [(''result'', JObj [(''tools'',
        JArr [JObj [(''name'', JStr ''a''), (''description'', JStr ''raw''), (''title'', JStr ''A'')], JStr ''odd''])])])),
      jl_float = Some\<rparr>"

definition demo_overlay :: "string \<Rightarrow> gomap list option" where
  "demo_overlay _ = Some [fmap_of_list [(''name'', GStr ''a''), (''description'', GStr ''better''), (''title'', GStr ''ignored'')]]"

definition demo_proxy :: proxy_client where
  "demo_proxy = build_proxy_app ''http://t'' ''o.yaml'' ''''"

theorem overlay_changes_only_its_fields_witness:
  "\<exists>tools' t'. fst (fetch_and_merge_tools demo_proxy_json demo_overlay (\<lambda>_. HttpReply 200 (\<lambda>_. '''') '''') demo_proxy) = Inr tools' \<and>
     length tools' = 2 \<and> tools' ! 0 = GMap t' \<and>
     fmlookup t' ''description'' = Some (GStr ''better'') \<and> fmlookup t' ''title'' = Some (GStr ''A'')"
proof -
  let ?h = "\<lambda>_. HttpReply 200 (\<lambda>_. '''') ''''"
  obtain r posts where f: "fetch_and_merge_tools demo_proxy_json demo_overlay ?h demo_proxy = (r, posts)" by fastforce
  have p: "proxy_post demo_proxy_json ?h demo_proxy (Some list_tools_message) =
      (Inr (Some (fmap_of_list [(''result'', GMap (fmap_of_list [(''tools'',
         GArr [GMap (fmap_of_list [(''title'', GStr ''A''), (''description'', GStr ''raw''), (''name'', GStr ''a'')]), GStr ''odd''])]))])),
       snd (proxy_post demo_proxy_json ?h demo_proxy (Some list_tools_message)))"
    by (simp add: proxy_post_def demo_proxy_def build_proxy_app_def proxy_target_error_def reply_message_def
        demo_proxy_json_def unmarshal_map_def fmap_of_list_simps)
  obtain tools' where r: "r = Inr tools'"
    using f p by (auto simp: fetch_and_merge_tools_def Let_def split: prod.splits)
  note t = overlay_changes_only_its_fields [OF f [unfolded r]]
  have o: "overlay_field (load_overlay demo_overlay demo_proxy) ''a'' ''description'' = Some (GStr ''better'')"
    "overlay_field (load_overlay demo_overlay demo_proxy) ''a'' ''title'' = None" by code_simp+
  from t p o show ?thesis unfolding f r
    by (fastforce simp: tools_of_reply_def message_map_def get_map_def get_arr_def get_str_def)
qed

end
