(* ===== verification/Bridge.thy ===== *)
theory Bridge
  imports BridgeAuth Proxy
begin

section \<open>The bridge to external MCP servers (bridge.go)\<close>

text \<open>
  One route serves every bridged server: Control is asked which upstream the instance stands for and with
  which config, and the request is posted there with headers built from that config. Control's and the
  upstream's round trips are arguments.
\<close>

definition bridge_mount_path :: string where
  "bridge_mount_path = ''/bridge/mcp''"

definition bridge_control_err :: "json_lib \<Rightarrow> control_failure \<Rightarrow> string" where
  "bridge_control_err J err =
     (case err of
        ControlErr ce \<Rightarrow>
          (let hm = human_message_from_control_api_body J (ce_body ce)
           in if hm \<noteq> '''' then hm else failure_text err)
      | OtherErr _ \<Rightarrow> failure_text err)"

definition bridge_upstream_from_payload :: "control_payload \<Rightarrow> string + string" where
  "bridge_upstream_from_payload p =
     (case cp_bridge p of
        None \<Rightarrow> Inl ''server is not configured for bridge mode (missing metadata.bridge upstream_url)''
      | Some b \<Rightarrow>
          (let upstream = trim_space (string_from_map b ''upstream_url'') in
           if upstream = '''' then Inl ''bridge upstream_url is not set on mcp_servers.metadata''
           else Inr upstream))"

definition tool_name_from_params :: "gomap option \<Rightarrow> string option" where
  "tool_name_from_params data =
     (case get_map (message_map data) ''params'' of
        None \<Rightarrow> None
      | Some params \<Rightarrow>
          (let name = trim_space (get_str params ''name'') in if name \<noteq> '''' then Some name else None))"

definition bridge_post ::
    "json_lib \<Rightarrow> (upstream_post \<Rightarrow> http_result) \<Rightarrow> string \<Rightarrow> gomap option \<Rightarrow> headers
       \<Rightarrow> (string + gomap option) \<times> upstream_post list" where
  \<comment> \<open>\<open>extra\<close> is set over the JSON headers, so it can replace them\<close>
  "bridge_post J http target payload extra =
     (if trim_space target = '''' then (Inl proxy_target_error, [])
      else
        (let post = \<lparr>up_url = target, up_headers = json_headers ++\<^sub>f extra, up_body = to_json (map_value payload)\<rparr>
         in (reply_message J (http post), [post])))"

definition call_context :: "env \<Rightarrow> request \<Rightarrow> gomap option \<Rightarrow> gomap" where
  \<comment> \<open>the runtime context, with the name of the called tool for \<open>tools/call\<close>\<close>
  "call_context getenv r data =
     (let ctx = build_runtime_context getenv r in
      if message_method data = ''tools/call''
      then (case tool_name_from_params data of None \<Rightarrow> ctx | Some tn \<Rightarrow> fmupd ''tool_name'' (GStr tn) ctx)
      else ctx)"

definition serve_bridge_schema ::
    "json_lib \<Rightarrow> env \<Rightarrow> (control_request \<Rightarrow> http_result) \<Rightarrow> request \<Rightarrow> rpc_answer" where
  "serve_bridge_schema J getenv control r =
     (case fetch_control_payload J getenv control (extract_token r) fmempty (build_runtime_context getenv r) of
        Inl err \<Rightarrow> AnsHttpError 502 (bridge_control_err J err)
      | Inr p \<Rightarrow> AnsJson (GMap (case cp_config_schema p of None \<Rightarrow> fmempty | Some s \<Rightarrow> s)))"

definition bridge_http_handler ::
    "json_lib \<Rightarrow> env \<Rightarrow> (control_request \<Rightarrow> http_result) \<Rightarrow> (upstream_post \<Rightarrow> http_result) \<Rightarrow> request
       \<Rightarrow> body_read \<Rightarrow> rpc_answer \<times> upstream_post list" where
  "bridge_http_handler J getenv control http r body =
     (if r_method r = ''GET'' \<and> is_schema_endpoint_for_mount r bridge_mount_path
      then (serve_bridge_schema J getenv control r, [])
      else if r_method r \<noteq> ''POST'' then (AnsHttpError 405 ''Method Not Allowed'', [])
      else
        (case rpc_message J body of
           None \<Rightarrow> (rpc_error GNil (-32700) ''Parse error'', [])
         | Some data \<Rightarrow>
             (let rid = message_id data; method = message_method data in
              case fetch_control_payload J getenv control (extract_token r) fmempty (call_context getenv r data) of
                Inl err \<Rightarrow> (rpc_error rid (-32603) (bridge_control_err J err), [])
              | Inr payload \<Rightarrow>
                  (case bridge_upstream_from_payload payload of
                     Inl e \<Rightarrow> (rpc_error rid (-32603) e, [])
                   | Inr upstream \<Rightarrow>
                       (case apply_bridge_headers (cp_config payload) (cp_bridge payload) of
                          Inl e \<Rightarrow> (rpc_error rid (-32603) (''upstream auth: '' @ e), [])
                        | Inr auth \<Rightarrow>
                            (case bridge_post J http upstream data auth of
                               (Inl e, posts) \<Rightarrow> (rpc_error rid (-32603) e, posts)
                             | (Inr res, posts) \<Rightarrow>
                                 (if method = ''tools/list'' \<or> method = ''tools/call''
                                  then rpc_result rid (result_of_reply res)
                                  else AnsJson (map_value res), posts)))))))"

subsection \<open>What leaves the bridge\<close>

lemma bridge_post_cases:
  assumes "trim_space target \<noteq> ''''"
  shows "bridge_post J http target data h =
    (reply_message J (http \<lparr>up_url = target, up_headers = json_headers ++\<^sub>f h, up_body = to_json (map_value data)\<rparr>),
     [\<lparr>up_url = target, up_headers = json_headers ++\<^sub>f h, up_body = to_json (map_value data)\<rparr>])"
  using assms by (simp add: bridge_post_def Let_def)

lemma bridge_upstream_not_blank: "bridge_upstream_from_payload p = Inr u \<Longrightarrow> trim_space u \<noteq> ''''"
  by (auto simp: bridge_upstream_from_payload_def Let_def split: option.splits if_splits)

text \<open>The answer a posted message gets, made of the upstream's reply.\<close>

definition bridge_answer :: "json_lib \<Rightarrow> gomap option \<Rightarrow> http_result \<Rightarrow> rpc_answer" where
  "bridge_answer J data reply =
     (case reply_message J reply of
        Inl e \<Rightarrow> rpc_error (message_id data) (-32603) e
      | Inr res \<Rightarrow>
          if message_method data = ''tools/list'' \<or> message_method data = ''tools/call''
          then rpc_result (message_id data) (result_of_reply res) else AnsJson (map_value res))"

text \<open>The ways through the handler: one per early return, and the one that posts.\<close>

lemma bridge_handler_cases:
  assumes "bridge_http_handler J getenv control http r body = (answer, posts)"
  obtains (schema) "posts = []" "r_method r = ''GET''" "is_schema_endpoint_for_mount r bridge_mount_path"
      "answer = serve_bridge_schema J getenv control r"
  | (not_post) "posts = []" "r_method r \<noteq> ''POST''"
      "\<not> (r_method r = ''GET'' \<and> is_schema_endpoint_for_mount r bridge_mount_path)"
      "answer = AnsHttpError 405 ''Method Not Allowed''"
  | (unparsed) "posts = []" "r_method r = ''POST''" "rpc_message J body = None"
      "answer = rpc_error GNil (-32700) ''Parse error''"
  | (unresolved) data err where "posts = []" "r_method r = ''POST''" "rpc_message J body = Some data"
      "fetch_control_payload J getenv control (extract_token r) fmempty (call_context getenv r data) = Inl err"
      "answer = rpc_error (message_id data) (-32603) (bridge_control_err J err)"
  | (no_upstream) data payload e where "posts = []" "r_method r = ''POST''" "rpc_message J body = Some data"
      "fetch_control_payload J getenv control (extract_token r) fmempty (call_context getenv r data) = Inr payload"
      "bridge_upstream_from_payload payload = Inl e" "answer = rpc_error (message_id data) (-32603) e"
  | (no_headers) data payload u e where "posts = []" "r_method r = ''POST''" "rpc_message J body = Some data"
      "fetch_control_payload J getenv control (extract_token r) fmempty (call_context getenv r data) = Inr payload"
      "bridge_upstream_from_payload payload = Inr u"
      "apply_bridge_headers (cp_config payload) (cp_bridge payload) = Inl e"
      "answer = rpc_error (message_id data) (-32603) (''upstream auth: '' @ e)"
  | (posted) data payload b upstream h post where "r_method r = ''POST''"
      "rpc_message J body = Some data"
      "fetch_control_payload J getenv control (extract_token r) fmempty (call_context getenv r data) = Inr payload"
      "cp_bridge payload = Some b" "upstream = trim_space (string_from_map b ''upstream_url'')" "upstream \<noteq> ''''"
      "apply_bridge_headers (cp_config payload) (Some b) = Inr h"
      "post = \<lparr>up_url = upstream, up_headers = json_headers ++\<^sub>f h, up_body = to_json (map_value data)\<rparr>"
      "posts = [post]" "answer = bridge_answer J data (http post)"
proof (cases "r_method r = ''POST''")
  case False
  then show ?thesis
    using assms schema not_post
    by (cases "r_method r = ''GET'' \<and> is_schema_endpoint_for_mount r bridge_mount_path")
      (simp_all add: bridge_http_handler_def)
next
  case m: True
  show ?thesis
  proof (cases "rpc_message J body")
    case None
    with assms m show ?thesis by (intro unparsed) (auto simp: bridge_http_handler_def)
  next
    case (Some data)
    let ?f = "fetch_control_payload J getenv control (extract_token r) fmempty (call_context getenv r data)"
    show ?thesis
    proof (cases ?f)
      case (Inl e)
      with assms m Some show ?thesis
        by (intro unresolved [OF _ m Some Inl]) (auto simp: bridge_http_handler_def Let_def)
    next
      case f: (Inr p)
      show ?thesis
      proof (cases "bridge_upstream_from_payload p")
        case (Inl e)
        with assms m Some f show ?thesis
          by (intro no_upstream [OF _ m Some f Inl]) (auto simp: bridge_http_handler_def Let_def)
      next
        case up: (Inr u)
        then obtain b where b: "cp_bridge p = Some b" "u = trim_space (string_from_map b ''upstream_url'')" "u \<noteq> ''''"
          by (auto simp: bridge_upstream_from_payload_def Let_def split: option.splits if_splits)
        show ?thesis
        proof (cases "apply_bridge_headers (cp_config p) (cp_bridge p)")
          case (Inl e)
          with assms m Some f up show ?thesis
            by (intro no_headers [OF _ m Some f up Inl]) (auto simp: bridge_http_handler_def Let_def)
        next
          case hd: (Inr h)
          let ?post = "\<lparr>up_url = u, up_headers = json_headers ++\<^sub>f h, up_body = to_json (map_value data)\<rparr>"
          have "bridge_http_handler J getenv control http r body = (bridge_answer J data (http ?post), [?post])"
            by (simp add: bridge_http_handler_def m Some f up hd Let_def bridge_answer_def
                bridge_post_cases [OF bridge_upstream_not_blank [OF up]] split: sum.split)
          with assms have a: "answer = bridge_answer J data (http ?post)" "posts = [?post]" by simp_all
          have "apply_bridge_headers (cp_config p) (Some b) = Inr h" using hd b(1) by simp
          from posted [OF m Some f b this refl a(2,1)] show ?thesis .
        qed
      qed
    qed
  qed
qed

lemma bridge_upstream_Inl:
  "bridge_upstream_from_payload p = Inl e \<longleftrightarrow>
     (case cp_bridge p of
        None \<Rightarrow> e = ''server is not configured for bridge mode (missing metadata.bridge upstream_url)''
      | Some b \<Rightarrow> trim_space (string_from_map b ''upstream_url'') = '''' \<and>
          e = ''bridge upstream_url is not set on mcp_servers.metadata'')"
  by (auto simp: bridge_upstream_from_payload_def Let_def split: option.splits)

lemma bridge_upstream_Inr:
  "bridge_upstream_from_payload p = Inr u \<longleftrightarrow>
     (\<exists>b. cp_bridge p = Some b \<and> u = trim_space (string_from_map b ''upstream_url'') \<and> u \<noteq> '''')"
  by (auto simp: bridge_upstream_from_payload_def Let_def split: option.splits)

text \<open>
  C4. Every answer of the bridge, and what it posts. Only a POST whose body parses makes it post, at most
  once, and then Control has resolved the caller's token and runtime context to a payload with an upstream,
  every credential its mappings name is in the resolved config, the POST goes to that upstream with exactly
  those headers over the JSON ones (nothing of the caller's own headers goes along), and its body is the
  caller's message unchanged. The answer is then made of the upstream's reply: for \<open>tools/list\<close> and
  \<open>tools/call\<close> its \<open>result\<close> under the id of the message, for any other method the reply as it came, and an
  error under that id when there is no reply to read. Nothing is posted for the schema endpoint, which gets
  the schema of the payload or, when Control fails, HTTP status 502; for another method, which gets 405; for
  a body that is no JSON-RPC message, which gets a parse error without an id; and for a message that
  Control's failure, a missing upstream or a missing credential stops, which gets that reason under its id.
\<close>

theorem bridge_posts_only_resolved:
  assumes "bridge_http_handler J getenv control http r body = (answer, posts)"
  shows
   "posts = [] \<and> r_method r = ''GET'' \<and> is_schema_endpoint_for_mount r bridge_mount_path \<and>
      answer = (case fetch_control_payload J getenv control (extract_token r) fmempty (build_runtime_context getenv r) of
          Inl err \<Rightarrow> AnsHttpError 502 (bridge_control_err J err)
        | Inr p \<Rightarrow> AnsJson (GMap (case cp_config_schema p of None \<Rightarrow> fmempty | Some s \<Rightarrow> s))) \<or>
    posts = [] \<and> r_method r \<noteq> ''POST'' \<and>
      \<not> (r_method r = ''GET'' \<and> is_schema_endpoint_for_mount r bridge_mount_path) \<and>
      answer = AnsHttpError 405 ''Method Not Allowed'' \<or>
    posts = [] \<and> r_method r = ''POST'' \<and> rpc_message J body = None \<and>
      answer = rpc_error GNil (-32700) ''Parse error'' \<or>
    r_method r = ''POST'' \<and>
    (\<exists>data. rpc_message J body = Some data \<and>
      (case fetch_control_payload J getenv control (extract_token r) fmempty (call_context getenv r data) of
         Inl err \<Rightarrow> posts = [] \<and> answer = rpc_error (message_id data) (-32603) (bridge_control_err J err)
       | Inr payload \<Rightarrow>
           (case cp_bridge payload of
              None \<Rightarrow> posts = [] \<and> answer = rpc_error (message_id data) (-32603)
                ''server is not configured for bridge mode (missing metadata.bridge upstream_url)''
            | Some b \<Rightarrow>
                (let upstream = trim_space (string_from_map b ''upstream_url'') in
                 if upstream = '''' then posts = [] \<and>
                   answer = rpc_error (message_id data) (-32603) ''bridge upstream_url is not set on mcp_servers.metadata''
                 else (case apply_bridge_headers (cp_config payload) (Some b) of
                         Inl e \<Rightarrow> posts = [] \<and> answer = rpc_error (message_id data) (-32603) (''upstream auth: '' @ e)
                       | Inr h \<Rightarrow>
                           (let post = \<lparr>up_url = upstream, up_headers = json_headers ++\<^sub>f h,
                                        up_body = to_json (map_value data)\<rparr> in
                            posts = [post] \<and>
                            answer = (case reply_message J (http post) of
                                Inl e \<Rightarrow> rpc_error (message_id data) (-32603) e
                              | Inr res \<Rightarrow>
                                  if message_method data = ''tools/list'' \<or> message_method data = ''tools/call''
                                  then rpc_result (message_id data) (result_of_reply res)
                                  else AnsJson (map_value res))))))))"
  using assms
proof (cases rule: bridge_handler_cases)
  case (no_upstream data payload e)
  then show ?thesis
    by (intro disjI2 conjI exI [of _ data]) (auto simp: bridge_upstream_Inl Let_def split: option.splits)
next
  case (no_headers data payload u e)
  then show ?thesis
    by (intro disjI2 conjI exI [of _ data]) (auto simp: bridge_upstream_Inr Let_def)
next
  case (posted data payload b upstream h post)
  then show ?thesis
    by (intro disjI2 conjI exI [of _ data]) (auto simp: bridge_answer_def Let_def)
qed (simp_all add: serve_bridge_schema_def)

definition demo_bridge_json :: json_lib where
  "demo_bridge_json =
     \<lparr>jl_parse = (\<lambda>_. None),
      jl_first = (\<lambda>s. Some (if s = ''control''
        then JObj [(''config'', JObj [(''token'', JStr ''tok'')]),
                   (''bridge'', JObj [(''upstream_url'', JStr ''http://up''),
                      (''auth_mapping'', JObj [(''type'', JStr ''bearer''), (''from'', JStr ''token'')])])]
        else JObj [(''error'', JObj [(''code'', JNum ''-32000'')])])),
      jl_float = Some\<rparr>"

definition demo_bridge_env :: env where
  "demo_bridge_env k = (if k = ''MCP_CONTROL_SERVER_URL'' then ''http://control'' else '''')"

definition demo_bridge_request :: request where
  "demo_bridge_request =
     \<lparr>r_method = ''POST'', r_path = ''/bridge/mcp'', r_header = (\<lambda>k. if k = ''Authorization'' then ''Bearer run'' else ''''),
      r_query = (\<lambda>_. '''')\<rparr>"

definition demo_bridge_body :: body_read where
  "demo_bridge_body = ReadBody (Some (JObj [(''id'', JNum ''7''), (''method'', JStr ''tools/call''),
     (''params'', JObj [(''name'', JStr ''search'')])]))"

definition demo_bridge_data :: "gomap option" where
  "demo_bridge_data = Some (fmap_of_list [(''id'', GNum ''7''), (''method'', GStr ''tools/call''),
     (''params'', GMap (fmap_of_list [(''name'', GStr ''search'')]))])"

definition demo_bridge_run :: "rpc_answer \<times> upstream_post list" where
  "demo_bridge_run = bridge_http_handler demo_bridge_json demo_bridge_env
     (\<lambda>_. HttpReply 200 (\<lambda>_. '''') ''control'') (\<lambda>_. HttpReply 200 (\<lambda>_. '''') ''upstream'')
     demo_bridge_request demo_bridge_body"

theorem bridge_posts_only_resolved_witness:
  "\<exists>h answer. demo_bridge_run = (answer,
        [\<lparr>up_url = ''http://up'', up_headers = json_headers ++\<^sub>f h,
          up_body = to_json (map_value demo_bridge_data)\<rparr>]) \<and>
     fmlookup h ''Authorization'' = Some ''Bearer tok'' \<and>
     answer = rpc_result (message_id demo_bridge_data) fmempty"
proof -
  obtain answer posts where run: "demo_bridge_run = (answer, posts)" by fastforce
  let ?p = "payload_of_data (Some (fmap_of_list [(''config'', GMap (fmap_of_list [(''token'', GStr ''tok'')])),
      (''bridge'', GMap (fmap_of_list [(''upstream_url'', GStr ''http://up''),
         (''auth_mapping'', GMap (fmap_of_list [(''type'', GStr ''bearer''), (''from'', GStr ''token'')]))]))]))"
  have d: "rpc_message demo_bridge_json demo_bridge_body = Some demo_bridge_data" by code_simp
  have f: "fetch_control_payload demo_bridge_json demo_bridge_env (\<lambda>_. HttpReply 200 (\<lambda>_. '''') ''control'')
      (extract_token demo_bridge_request) fmempty (call_context demo_bridge_env demo_bridge_request demo_bridge_data) = Inr ?p"
    by code_simp
  have h: "map_sum id (\<lambda>h. fmlookup h ''Authorization'') (apply_bridge_headers (cp_config ?p) (cp_bridge ?p)) =
      Inr (Some ''Bearer tok'')"
    by code_simp
  then obtain h where h: "apply_bridge_headers (cp_config ?p) (cp_bridge ?p) = Inr h"
      "fmlookup h ''Authorization'' = Some ''Bearer tok''"
    by (cases "apply_bridge_headers (cp_config ?p) (cp_bridge ?p)") auto
  have u: "map_option (\<lambda>b. trim_space (string_from_map b ''upstream_url'')) (cp_bridge ?p) = Some ''http://up''"
    by code_simp
  then obtain b where b: "cp_bridge ?p = Some b" "trim_space (string_from_map b ''upstream_url'') = ''http://up''"
    by (cases "cp_bridge ?p") auto
  have m: "r_method demo_bridge_request = ''POST''" by (simp add: demo_bridge_request_def)
  have r: "map_sum id result_of_reply (reply_message demo_bridge_json (HttpReply 200 (\<lambda>_. '''') ''upstream'')) = Inr fmempty"
    "message_method demo_bridge_data = ''tools/call''" by code_simp+
  then obtain res where res: "reply_message demo_bridge_json (HttpReply 200 (\<lambda>_. '''') ''upstream'') = Inr res"
      "result_of_reply res = fmempty"
    by (cases "reply_message demo_bridge_json (HttpReply 200 (\<lambda>_. '''') ''upstream'')") auto
  have "posts = [\<lparr>up_url = ''http://up'', up_headers = json_headers ++\<^sub>f h,
          up_body = to_json (map_value demo_bridge_data)\<rparr>] \<and>
      answer = rpc_result (message_id demo_bridge_data) fmempty"
    using bridge_posts_only_resolved [OF run [unfolded demo_bridge_run_def]] h(1) b(2) res r(2)
    unfolding m d option.inject simp_thms ex_simps f sum.case b(1) option.case
    by (simp add: Let_def f b)
  with run h(2) show ?thesis by blast
qed

text \<open>
  An error of the upstream does not reach the caller of \<open>tools/list\<close> and \<open>tools/call\<close>: a JSON-RPC reply without a
  result object is answered with the empty result.
\<close>

lemma bridge_hides_upstream_errors:
  assumes "bridge_http_handler J getenv control http r body = (answer, [post])"
    and "rpc_message J body = Some data" "message_method data = ''tools/list'' \<or> message_method data = ''tools/call''"
    and "http post = HttpReply 200 hdr text" "unmarshal_map (jl_float J) (jl_first J text) = Some (Some res)"
    and "get_map res ''result'' = None"
  shows "answer = rpc_result (message_id data) fmempty"
  using assms(1)
proof (cases rule: bridge_handler_cases)
  case (posted data' payload b u h post')
  with assms(2-6) show ?thesis
    by (simp add: bridge_answer_def reply_message_def result_of_reply_def message_map_def)
qed simp_all

end
