(* ===== verification/Composio.thy ===== *)
theory Composio
  imports Bridge
begin

section \<open>The Composio executor (composio.go)\<close>

text \<open>
  A second shared route, which runs tools through Composio's REST API instead of an upstream MCP server.
  Control's answer carries the toolkit, the published tools and an allow list; the key and the user come from
  the instance's config. The encoder of values and the round trips are arguments.
\<close>

subsection \<open>Metadata\<close>

definition composio_mount_path :: string where
  "composio_mount_path = ''/composio/mcp''"

definition composio_api_base :: string where
  "composio_api_base = ''https://backend.composio.dev/api/v3.1''"

definition composio_initialize_result :: gomap where
  "composio_initialize_result =
     fmap_of_list
       [(''protocolVersion'', GStr ''2024-11-05''),
        (''capabilities'', GMap (fmap_of_list [(''tools'', GMap fmempty)])),
        (''serverInfo'', GMap (fmap_of_list [(''name'', GStr ''agentruntime-composio''), (''version'', GStr ''1.0.0'')]))]"

definition composio_meta_from_payload :: "control_payload \<Rightarrow> string + gomap" where
  "composio_meta_from_payload p =
     (case cp_composio p of
        None \<Rightarrow> Inl ''server is not configured for composio mode (missing metadata.composio)''
      | Some meta \<Rightarrow>
          if trim_space (string_from_map meta ''toolkit'') = ''''
          then Inl ''composio toolkit is not set on mcp_servers.metadata''
          else Inr meta)"

definition non_empty_map :: "gomap \<Rightarrow> string \<Rightarrow> gomap option" where
  "non_empty_map t key =
     (case get_map t key of None \<Rightarrow> None | Some m \<Rightarrow> if fmdom m = {||} then None else Some m)"

definition composio_published_tool :: "goval \<Rightarrow> gomap option" where
  "composio_published_tool item =
     (case as_map item of
        None \<Rightarrow> None
      | Some t \<Rightarrow>
          if fmdom t = {||} then None
          else
            (let name = trim_space (string_from_map t ''name'') in
             if name = '''' then None
             else
               (let tool = fmap_of_list [(''name'', GStr name),
                      (''description'', GStr (trim_space (string_from_map t ''description'')))]
                in Some (case non_empty_map t ''inputSchema'' of
                      Some schema \<Rightarrow> fmupd ''inputSchema'' (GMap schema) tool
                    | None \<Rightarrow>
                        (case non_empty_map t ''input_schema'' of
                           Some schema \<Rightarrow> fmupd ''inputSchema'' (GMap schema) tool
                         | None \<Rightarrow> tool)))))"

definition composio_published_tools :: "gomap \<Rightarrow> gomap list" where
  "composio_published_tools meta =
     (case get_arr meta ''published_tools'' of
        None \<Rightarrow> []
      | Some raw \<Rightarrow> List.map_filter composio_published_tool raw)"

subsection \<open>Slugs and the allow list\<close>

text \<open>The slug an item of the published tools gives for a tool name: its own, or its metadata's.\<close>

definition item_slug :: "string \<Rightarrow> goval \<Rightarrow> string option" where
  "item_slug tool_name item =
     (case as_map item of
        None \<Rightarrow> None
      | Some t \<Rightarrow>
          if \<not> equal_fold (trim_space (string_from_map t ''name'')) tool_name then None
          else
            (let slug = trim_space (string_from_map t ''composio_slug'') in
             if slug \<noteq> '''' then Some slug
             else
               (case get_map t ''metadata'' of
                  None \<Rightarrow> None
                | Some md \<Rightarrow>
                    (let s = trim_space (string_from_map md ''composio_slug'') in if s \<noteq> '''' then Some s else None))))"

fun first_slug :: "string \<Rightarrow> goval list \<Rightarrow> string option" where
  "first_slug tool_name [] = None"
| "first_slug tool_name (item # items) =
     (case item_slug tool_name item of None \<Rightarrow> first_slug tool_name items | Some s \<Rightarrow> Some s)"

definition composio_slug_for_tool :: "gomap \<Rightarrow> string \<Rightarrow> string + string" where
  "composio_slug_for_tool meta tool_name0 =
     (let tool_name = trim_space tool_name0 in
      if tool_name = '''' then Inl ''empty tool name''
      else
        (case (case get_arr meta ''published_tools'' of None \<Rightarrow> None | Some raw \<Rightarrow> first_slug tool_name raw) of
           Some slug \<Rightarrow> Inr slug
         | None \<Rightarrow> Inr (to_upper (replace_byte tool_name CHR ''-'' CHR ''_''))))"

definition composio_allowlisted :: "gomap \<Rightarrow> string \<Rightarrow> bool" where
  "composio_allowlisted meta slug0 \<longleftrightarrow>
     (case get_arr meta ''tool_allowlist'' of
        None \<Rightarrow> True
      | Some raw \<Rightarrow>
          if raw = [] then True
          else (let slug = to_upper (trim_space slug0)
                in list_ex (\<lambda>item. equal_fold (trim_space (sprint item)) slug) raw))"

subsection \<open>Results and calls\<close>

definition text_content :: "string \<Rightarrow> goval" where
  "text_content s = GMaps [fmap_of_list [(''type'', GStr ''text''), (''text'', GStr s)]]"

definition composio_mcp_result :: "(goval \<Rightarrow> string) \<Rightarrow> gomap option \<Rightarrow> gomap" where
  "composio_mcp_result encode resp =
     (let m = message_map resp;
          successful = (case Option.bind (fmlookup m ''successful'') as_bool of None \<Rightarrow> False | Some b \<Rightarrow> b);
          err = trim_space (string_from_map m ''error'') in
      if \<not> successful \<and> err \<noteq> ''''
      then fmap_of_list [(''content'', text_content err), (''isError'', GBool True)]
      else
        (let d = get_any m ''data''; data = (if d = GNil then map_value resp else d)
         in fmap_of_list [(''content'', text_content (encode data)), (''structuredContent'', data)]))"

definition apply_composio_default_tool_arguments :: "gomap \<Rightarrow> gomap" where
  "apply_composio_default_tool_arguments args =
     (if trim_space (string_from_map args ''user_id'') = '''' then fmupd ''user_id'' (GStr ''me'') args else args)"

definition composio_arguments :: "gomap option \<Rightarrow> gomap" where
  "composio_arguments data =
     apply_composio_default_tool_arguments
       (case get_map (message_map data) ''params'' of
          None \<Rightarrow> fmempty
        | Some args \<Rightarrow>
            (case get_map args ''arguments'' of
               Some a \<Rightarrow> a
             | None \<Rightarrow> fmfilter (\<lambda>k. k \<noteq> ''name'' \<and> k \<noteq> ''_meta'') args))"

record composio_post =
  xp_url :: string
  xp_api_key :: string
  xp_body :: gomap

definition composio_api_key :: "gomap \<Rightarrow> string" where
  "composio_api_key cfg =
     (let k = trim_space (string_from_map cfg ''composio_api_key'')
      in if k = '''' then trim_space (string_from_map cfg ''COMPOSIO_API_KEY'') else k)"

definition composio_reply :: "json_lib \<Rightarrow> (goval \<Rightarrow> string) \<Rightarrow> http_result \<Rightarrow> string + gomap" where
  "composio_reply J encode reply =
     (case reply of
        HttpFailed e \<Rightarrow> Inl (''composio execute: '' @ e)
      | HttpReply status header body \<Rightarrow>
          if status < 200 \<or> 300 \<le> status
          then Inl (''composio execute HTTP '' @ itoa status @ '': '' @ body)
          else (case unmarshal_map (jl_float J) (jl_parse J body) of
                  None \<Rightarrow> Inl ''composio execute invalid JSON''   \<comment> \<open>the decoder's own text follows\<close>
                | Some parsed \<Rightarrow> Inr (composio_mcp_result encode parsed)))"

definition composio_call_tool ::
    "json_lib \<Rightarrow> (goval \<Rightarrow> string) \<Rightarrow> (composio_post \<Rightarrow> http_result) \<Rightarrow> control_payload \<Rightarrow> gomap \<Rightarrow> gomap option
       \<Rightarrow> (string + gomap) \<times> composio_post list" where
  "composio_call_tool J encode http payload meta data =
     (case tool_name_from_params data of
        None \<Rightarrow> (Inl ''tools/call missing params.name'', [])
      | Some tool_name \<Rightarrow>
          (case composio_slug_for_tool meta tool_name of
             Inl e \<Rightarrow> (Inl e, [])
           | Inr slug \<Rightarrow>
               if \<not> composio_allowlisted meta slug
               then (Inl (''tool '' @ quoted tool_name @ '' is not in composio allowlist''), [])
               else
                 (let cfg = message_map (cp_config payload);
                      api_key = composio_api_key cfg;
                      user_id = trim_space (string_from_map cfg ''composio_user_id'') in
                  if api_key = '''' then (Inl ''missing composio_api_key in instance config'', [])
                  else if user_id = '''' then (Inl ''missing composio_user_id in instance config'', [])
                  else
                    (let post = \<lparr>xp_url = trim_suffix composio_api_base ''/'' @ ''/tools/execute/'' @ slug,
                           xp_api_key = api_key,
                           xp_body = fmap_of_list [(''user_id'', GStr user_id),
                             (''arguments'', GMap (composio_arguments data))]\<rparr>
                     in (composio_reply J encode (http post), [post])))))"

subsection \<open>The handler\<close>

definition composio_control_err :: "json_lib \<Rightarrow> control_failure \<Rightarrow> string" where
  "composio_control_err J err =
     (case err of
        ControlErr ce \<Rightarrow>
          (let hm = human_message_from_control_api_body J (ce_body ce)
           in if hm \<noteq> '''' then hm else failure_text err)
      | OtherErr _ \<Rightarrow> failure_text err)"

definition serve_composio_schema ::
    "json_lib \<Rightarrow> env \<Rightarrow> (control_request \<Rightarrow> http_result) \<Rightarrow> request \<Rightarrow> rpc_answer" where
  "serve_composio_schema J getenv control r =
     (case fetch_control_payload J getenv control (extract_token r) fmempty (build_runtime_context getenv r) of
        Inl err \<Rightarrow> AnsHttpError 502 (composio_control_err J err)
      | Inr p \<Rightarrow> AnsJson (GMap (case cp_config_schema p of None \<Rightarrow> fmempty | Some s \<Rightarrow> s)))"

definition composio_http_handler ::
    "json_lib \<Rightarrow> (goval \<Rightarrow> string) \<Rightarrow> env \<Rightarrow> (control_request \<Rightarrow> http_result) \<Rightarrow> (composio_post \<Rightarrow> http_result)
       \<Rightarrow> request \<Rightarrow> body_read \<Rightarrow> rpc_answer \<times> composio_post list" where
  "composio_http_handler J encode getenv control http r body =
     (if r_method r = ''GET'' \<and> is_schema_endpoint_for_mount r composio_mount_path
      then (serve_composio_schema J getenv control r, [])
      else if r_method r \<noteq> ''POST'' then (AnsHttpError 405 ''Method Not Allowed'', [])
      else
        (case rpc_message J body of
           None \<Rightarrow> (rpc_error GNil (-32700) ''Parse error'', [])
         | Some data \<Rightarrow>
             (let rid = message_id data; method = message_method data in
              if method = ''initialize'' then (rpc_result rid composio_initialize_result, [])
              else if method = ''notifications/initialized'' \<or> method = ''ping'' then (rpc_result rid fmempty, [])
              else
                (case fetch_control_payload J getenv control (extract_token r) fmempty (call_context getenv r data) of
                   Inl err \<Rightarrow> (rpc_error rid (-32603) (composio_control_err J err), [])
                 | Inr payload \<Rightarrow>
                     (case composio_meta_from_payload payload of
                        Inl e \<Rightarrow> (rpc_error rid (-32603) e, [])
                      | Inr meta \<Rightarrow>
                          if method = ''tools/list''
                          then (rpc_result rid (fmap_of_list [(''tools'', GMaps (composio_published_tools meta))]), [])
                          else if method = ''tools/call'' then
                            (case composio_call_tool J encode http payload meta data of
                               (Inl e, posts) \<Rightarrow> (rpc_error rid (-32603) e, posts)
                             | (Inr result, posts) \<Rightarrow> (rpc_result rid result, posts))
                          else (rpc_error rid (-32601) (''Method not found: '' @ method), []))))))"

subsection \<open>What is executed\<close>

lemma lower_upper_char: "lower_char (upper_char c) = lower_char c"
proof (cases "97 \<le> (of_char c :: nat) \<and> of_char c \<le> (122 :: nat)")
  case True
  then have u: "(of_char (upper_char c) :: nat) = of_char c - 32" by (simp add: of_upper_char Let_def)
  with True have "65 \<le> (of_char (upper_char c) :: nat) \<and> of_char (upper_char c) \<le> (90 :: nat)" by linarith
  then have "(of_char (lower_char (upper_char c)) :: nat) = of_char c"
    using u True by (simp add: of_lower_char Let_def)
  moreover have "(of_char (lower_char c) :: nat) = of_char c"
    using True by (simp add: of_lower_char Let_def)
  ultimately show ?thesis by (metis char_of_char)
qed (drule upper_char_other, simp)

lemma equal_fold_upper [simp]: "equal_fold a (to_upper b) = equal_fold a b"
  by (simp add: equal_fold_def to_lower_def to_upper_def lower_upper_char o_def)

lemma composio_allowlisted_iff:
  "composio_allowlisted meta slug \<longleftrightarrow>
     (\<forall>raw. get_arr meta ''tool_allowlist'' = Some raw \<and> raw \<noteq> [] \<longrightarrow>
        (\<exists>item \<in> set raw. equal_fold (trim_space (sprint item)) (trim_space slug)))"
  by (auto simp: composio_allowlisted_def list_ex_iff Let_def split: option.splits)

lemma default_user_argument:
  "trim_space (string_from_map (apply_composio_default_tool_arguments args) ''user_id'') \<noteq> ''''"
proof -
  have "trim_space ''me'' = ''me''" by code_simp
  then show ?thesis by (simp add: apply_composio_default_tool_arguments_def)
qed

text \<open>The ways through a call that posts.\<close>

lemma composio_call_posts:
  assumes "composio_call_tool J encode http payload meta data = (result, posts)" "posts \<noteq> []"
  obtains tool slug post where
    "tool_name_from_params data = Some tool" "composio_slug_for_tool meta tool = Inr slug"
    "composio_allowlisted meta slug" "posts = [post]" "result = composio_reply J encode (http post)"
    "xp_url post = composio_api_base @ ''/tools/execute/'' @ slug"
    "xp_api_key post = composio_api_key (message_map (cp_config payload))" "xp_api_key post \<noteq> ''''"
    "xp_body post = fmap_of_list
       [(''user_id'', GStr (trim_space (string_from_map (message_map (cp_config payload)) ''composio_user_id''))),
        (''arguments'', GMap (composio_arguments data))]"
    "trim_space (string_from_map (message_map (cp_config payload)) ''composio_user_id'') \<noteq> ''''"
proof -
  have base: "trim_suffix composio_api_base ''/'' = composio_api_base" by code_simp
  from assms show ?thesis
    by (auto simp: composio_call_tool_def Let_def base intro!: that split: option.splits sum.splits if_splits)
qed

text \<open>
  C5. The executor posts at most once per request, and only for a \<open>tools/call\<close> that names a tool, under a payload
  Control resolved for the caller's token with composio metadata. Where the metadata has an allow list with
  entries, the slug is one of them up to case; the URL is the execution path of that slug; the key and the
  user come from the instance's config and are not blank, whatever the caller sent; and the arguments always
  name a user.
\<close>

theorem composio_executes_only_allowed:
  assumes "composio_http_handler J encode getenv control http r body = (answer, posts)"
  shows "posts = [] \<or>
    (\<exists>data payload meta tool slug post.
       rpc_message J body = Some data \<and> message_method data = ''tools/call'' \<and>
       fetch_control_payload J getenv control (extract_token r) fmempty (call_context getenv r data) = Inr payload \<and>
       composio_meta_from_payload payload = Inr meta \<and>
       tool_name_from_params data = Some tool \<and> composio_slug_for_tool meta tool = Inr slug \<and>
       (\<forall>raw. get_arr meta ''tool_allowlist'' = Some raw \<and> raw \<noteq> [] \<longrightarrow>
          (\<exists>item \<in> set raw. equal_fold (trim_space (sprint item)) (trim_space slug))) \<and>
       posts = [post] \<and> xp_url post = composio_api_base @ ''/tools/execute/'' @ slug \<and>
       xp_api_key post = composio_api_key (message_map (cp_config payload)) \<and> xp_api_key post \<noteq> '''' \<and>
       get_str (xp_body post) ''user_id'' =
         trim_space (string_from_map (message_map (cp_config payload)) ''composio_user_id'') \<and>
       get_str (xp_body post) ''user_id'' \<noteq> '''' \<and>
       (\<exists>args. get_map (xp_body post) ''arguments'' = Some args \<and> trim_space (string_from_map args ''user_id'') \<noteq> ''''))"
proof (cases "posts = []")
  case False
  with assms obtain data payload meta result where c: "rpc_message J body = Some data"
    "message_method data = ''tools/call''"
    "fetch_control_payload J getenv control (extract_token r) fmempty (call_context getenv r data) = Inr payload"
    "composio_meta_from_payload payload = Inr meta"
    "composio_call_tool J encode http payload meta data = (result, posts)"
    by (auto simp: composio_http_handler_def Let_def split: option.splits sum.splits prod.splits if_splits)
  from composio_call_posts [OF c(5) False] obtain tool slug post where p:
    "tool_name_from_params data = Some tool" "composio_slug_for_tool meta tool = Inr slug"
    "composio_allowlisted meta slug" "posts = [post]"
    "xp_url post = composio_api_base @ ''/tools/execute/'' @ slug"
    "xp_api_key post = composio_api_key (message_map (cp_config payload))" "xp_api_key post \<noteq> ''''"
    "xp_body post = fmap_of_list
       [(''user_id'', GStr (trim_space (string_from_map (message_map (cp_config payload)) ''composio_user_id''))),
        (''arguments'', GMap (composio_arguments data))]"
    "trim_space (string_from_map (message_map (cp_config payload)) ''composio_user_id'') \<noteq> ''''"
    by metis
  have b: "get_str (xp_body post) ''user_id'' =
      trim_space (string_from_map (message_map (cp_config payload)) ''composio_user_id'')"
    "get_map (xp_body post) ''arguments'' = Some (composio_arguments data)"
    by (simp_all add: p(8) get_str_def get_map_def)
  have u: "trim_space (string_from_map (composio_arguments data) ''user_id'') \<noteq> ''''"
    by (simp only: composio_arguments_def default_user_argument not_False_eq_True)
  show ?thesis
    using c(1-4) p(1,2,4-7,9) b u composio_allowlisted_iff [THEN iffD1, OF p(3)]
    by (intro disjI2 exI conjI) auto
qed simp

definition demo_composio_json :: json_lib where
  "demo_composio_json =
     \<lparr>jl_parse = (\<lambda>_. Some (JObj [(''successful'', JBool True), (''data'', JObj [(''id'', JStr ''m1'')])])),
      jl_first = (\<lambda>s. Some (JObj
        [(''config'', JObj [(''composio_api_key'', JStr ''key''), (''composio_user_id'', JStr ''u1'')]),
         (''composio'', JObj [(''toolkit'', JStr ''gmail''), (''tool_allowlist'', JArr [JStr ''gmail_send'']),
            (''published_tools'', JArr [JObj [(''name'', JStr ''send''), (''composio_slug'', JStr ''GMAIL_SEND'')]])])])),
      jl_float = Some\<rparr>"

definition demo_composio_run :: "rpc_answer \<times> composio_post list" where
  "demo_composio_run = composio_http_handler demo_composio_json (\<lambda>_. '''') demo_bridge_env
     (\<lambda>_. HttpReply 200 (\<lambda>_. '''') '''') (\<lambda>_. HttpReply 200 (\<lambda>_. '''') '''') demo_bridge_request
     (ReadBody (Some (JObj [(''id'', JNum ''7''), (''method'', JStr ''tools/call''),
        (''params'', JObj [(''name'', JStr ''Send''), (''user_id'', JStr ''someone else'')])])))"

theorem composio_executes_only_allowed_witness:
  "\<exists>post. snd demo_composio_run = [post] \<and> xp_url post = composio_api_base @ ''/tools/execute/GMAIL_SEND'' \<and>
     xp_api_key post \<noteq> '''' \<and> get_str (xp_body post) ''user_id'' = ''u1''"
proof -
  obtain answer posts where run: "demo_composio_run = (answer, posts)" by fastforce
  have url: "map xp_url (snd demo_composio_run) = [composio_api_base @ ''/tools/execute/GMAIL_SEND'']" by code_simp
  have user: "map (\<lambda>p. get_str (xp_body p) ''user_id'') (snd demo_composio_run) = [''u1'']" by code_simp
  from url have "posts \<noteq> []" by (auto simp: run)
  with composio_executes_only_allowed [OF run [unfolded demo_composio_run_def]]
  obtain post where "posts = [post]" "xp_api_key post \<noteq> ''''" by blast
  with url user show ?thesis by (simp add: run)
qed

text \<open>A failed execution that comes without an error text is answered like a success.\<close>

lemma composio_failure_without_text:
  "composio_mcp_result encode (Some (fmap_of_list [(''successful'', GBool False), (''data'', GStr ''d'')])) =
     fmap_of_list [(''content'', text_content (encode (GStr ''d''))), (''structuredContent'', GStr ''d'')]"
proof -
  have "trim_space '''' = ''''" by simp
  then show ?thesis by (simp add: composio_mcp_result_def message_map_def string_from_map_def get_any_def Let_def)
qed

end
