(* ===== verification/Router.thy ===== *)
theory Router
  imports OAuth Middleware ServerConfig Composio RelayServer
begin

section \<open>Building the handlers and routing to them (runtime.go, router.go)\<close>

text \<open>
  How a server is put together: the config file, the adapter's registration, the chain of handlers around
  the MCP server, and the routes of the monolith. The MCP SDK's server is the list of tools passed to it,
  \<open>ListenAndServe\<close> is the address and the routes it would serve. A start that fails or panics ends the
  program, so it yields no state.
\<close>

subsection \<open>Registration at start\<close>

text \<open>
  An adapter is what its \<open>Register\<close> does: the config fields it adds and its calls of \<open>AddTool\<close>; and the
  patterns of the routes it registers when it implements \<open>WebhookAdapter\<close> or \<open>InboundVendorAdapter\<close>.
\<close>

record adapter =
  ad_schema :: "(string \<times> config_field) list"
  ad_tools :: "add_tool_call list"
  ad_webhook :: "string list option"
  ad_vendor :: "string list option"

text \<open>
  What a start reads: the files and their YAML, the environment, the adapters and the order their map is
  ranged over, and the error of making the trace exporter. The process keeps the tool registry, which all
  servers share, and the trace provider.
\<close>

record startup =
  su_cwd :: string
  su_read :: "string \<Rightarrow> file_read"
  su_yaml :: "string \<Rightarrow> string + server_file"
  su_getenv :: env
  su_exporter :: "string option"
  su_registry :: "adapter adapter_registry"
  su_order :: "string list"

record process =
  pr_registry :: "tool_registration list"
  pr_tracer :: "trace_provider option"

datatype start_failure =
    ConfigFailed string
  | AdapterFailed adapter_error
  | StartPanic string

definition add_fields :: "adapter \<Rightarrow> gomap \<Rightarrow> gomap" where
  "add_fields a schema = fold (\<lambda>(k, f). schema_add k f) (ad_schema a) schema"

fun register_all :: "adapter list \<Rightarrow> gomap \<Rightarrow> tool_state \<Rightarrow> string + gomap \<times> tool_state" where
  \<comment> \<open>each adapter's \<open>Register\<close>, as \<open>RunWithRegistry\<close> calls them\<close>
  "register_all [] schema s = Inr (schema, s)"
| "register_all (a # as) schema s =
     (case add_tools (ad_tools a) s of
        (Inl e, _) \<Rightarrow> Inl e
      | (Inr _, s') \<Rightarrow> register_all as (add_fields a schema) s')"

fun prepare_all :: "adapter list \<Rightarrow> gomap \<Rightarrow> tool_state \<Rightarrow> string + gomap \<times> tool_state" where
  \<comment> \<open>\<open>PrepareAdapterRegistration\<close> of each, as \<open>HandlerForAdapter\<close> does\<close>
  "prepare_all [] schema s = Inr (schema, s)"
| "prepare_all (a # as) schema s =
     (case prepare_adapter_registration (ad_tools a) s of
        (Inl e, _) \<Rightarrow> Inl e
      | (Inr _, s') \<Rightarrow> prepare_all as (add_fields a schema) s')"

subsection \<open>The chain of handlers\<close>

record mcp_handler =
  mh_server_name :: string
  mh_schema :: gomap
  mh_tools :: "mcp_tool list"
  mh_options :: streamable_options
  mh_mount :: string                   \<comment> \<open>the mount path \<open>Middleware\<close> is given\<close>
  mh_oauth_mount :: string
  mh_oauth :: oauth_config
  mh_traced :: bool

definition stateless_http :: "server_file \<Rightarrow> bool" where
  "stateless_http cfg = (case sf_server cfg of None \<Rightarrow> False | Some s \<Rightarrow> ss_stateless_http s)"

definition build_handler ::
    "startup \<Rightarrow> server_file \<Rightarrow> string \<Rightarrow> string \<Rightarrow> gomap \<times> tool_state \<Rightarrow> process \<Rightarrow> mcp_handler \<times> process" where
  "build_handler su cfg mount oauth_mount built p =
     (let getenv = su_getenv su; (schema, tools) = built;
          (traced, tracer) = wrap_with_tracing getenv (su_exporter su) (Some cfg) (pr_tracer p) in
      (\<lparr>mh_server_name = fst (make_server (Some cfg)), mh_schema = schema, mh_tools = wire_tools tools,
        mh_options = new_streamable_http_options getenv (stateless_http cfg),
        mh_mount = mount, mh_oauth_mount = oauth_mount,
        mh_oauth = oauth_config_from_env getenv, mh_traced = traced\<rparr>,
       \<lparr>pr_registry = registry_tools tools, pr_tracer = tracer\<rparr>))"

definition new_server_tools :: "process \<Rightarrow> tool_state" where
  \<comment> \<open>a new MCP server has no tools yet; the registry is the process's\<close>
  "new_server_tools p = \<lparr>registry_tools = pr_registry p, wire_tools = []\<rparr>"

definition handler_for_adapter ::
    "startup \<Rightarrow> string \<Rightarrow> string \<Rightarrow> string \<Rightarrow> process \<Rightarrow> start_failure + mcp_handler \<times> process" where
  "handler_for_adapter su config_file name mount p =
     (case load_config (su_read su) (su_yaml su) (su_cwd su) config_file of
        Inl e \<Rightarrow> Inl (ConfigFailed e)
      | Inr cfg \<Rightarrow>
          (case get_adapters (su_order su) [name] (su_registry su) of
             Inl e \<Rightarrow> Inl (AdapterFailed e)
           | Inr adapters \<Rightarrow>
               (case prepare_all adapters (snd (make_server (Some cfg))) (new_server_tools p) of
                  Inl e \<Rightarrow> Inl (StartPanic e)
                | Inr built \<Rightarrow> Inr (build_handler su cfg mount mount built p))))"

definition run_with_config ::
    "startup \<Rightarrow> server_file option \<Rightarrow> (gomap \<Rightarrow> tool_state \<Rightarrow> string + gomap \<times> tool_state) \<Rightarrow> process
       \<Rightarrow> start_failure + (string \<times> mcp_handler) \<times> process" where
  \<comment> \<open>the address listened on and the handler served there\<close>
  "run_with_config su cfg0 setup p =
     (let cfg = (case cfg0 of None \<Rightarrow> empty_server_file | Some c \<Rightarrow> c) in
      case setup (snd (make_server (Some cfg))) (new_server_tools p) of
        Inl e \<Rightarrow> Inl (StartPanic e)
      | Inr built \<Rightarrow>
          (case build_handler su cfg '''' ''/mcp'' built p of
             (h, p') \<Rightarrow> Inr ((run_addr (su_getenv su) (sf_server cfg), h), p')))"

definition run_server ::
    "startup \<Rightarrow> string \<Rightarrow> (gomap \<Rightarrow> tool_state \<Rightarrow> string + gomap \<times> tool_state) \<Rightarrow> process
       \<Rightarrow> start_failure + (string \<times> mcp_handler) \<times> process" where
  \<comment> \<open>\<open>Run\<close>\<close>
  "run_server su config_file setup p =
     (case load_config (su_read su) (su_yaml su) (su_cwd su) config_file of
        Inl e \<Rightarrow> Inl (ConfigFailed e)
      | Inr cfg \<Rightarrow> run_with_config su (Some cfg) setup p)"

definition run_with_registry ::
    "startup \<Rightarrow> string \<Rightarrow> string list \<Rightarrow> process \<Rightarrow> start_failure + (string \<times> mcp_handler) \<times> process" where
  "run_with_registry su config_file names p =
     (case get_adapters (su_order su) names (su_registry su) of
        Inl e \<Rightarrow> Inl (AdapterFailed e)
      | Inr adapters \<Rightarrow>
          run_server su config_file (\<lambda>schema s. register_all adapters schema (reset_tool_registry s)) p)"

subsection \<open>A request through the chain\<close>

text \<open>
  What the outside gives during one request: the replies to requests for the issuer's keys with their
  times, the attempts at Control, and the clock.
\<close>

record request_world =
  rw_json :: json_lib
  rw_jwt :: jwt_lib
  rw_digests :: digests
  rw_url :: url_parser
  rw_getenv :: env
  rw_environ :: "string list"
  rw_keys :: "nat \<Rightarrow> http_result \<times> time"
  rw_control :: "nat \<Rightarrow> attempt_run"
  rw_now :: time

datatype adapter_answer =
    AnsweredOAuth oauth_result
  | AnsweredConfig mw_result
  | ToTools context_values       \<comment> \<open>the MCP server gets the request, with these values in its context\<close>

definition empty_context :: context_values where
  "empty_context = \<lparr>ctx_config = None, ctx_bearer = None, ctx_identity = None\<rparr>"

definition through_oauth ::
    "request_world \<Rightarrow> mcp_handler \<Rightarrow> request \<Rightarrow> body_read option \<Rightarrow> jwt_verifier option
       \<Rightarrow> oauth_result \<times> jwt_verifier option" where
  "through_oauth W h r body v =
     (if oauth_enabled (mh_oauth h)
      then oauth_middleware (rw_json W) (rw_jwt W) (rw_url W) (rw_keys W) (rw_now W)
             (mh_oauth h) (mh_oauth_mount h) r body v
      else (OForward, v))"

definition serve_mcp ::
    "request_world \<Rightarrow> mcp_handler \<Rightarrow> request \<Rightarrow> body_read option \<Rightarrow> jwt_verifier option \<times> config_cache
       \<Rightarrow> adapter_answer \<times> jwt_verifier option \<times> config_cache" where
  "serve_mcp W h r body st =
     (case st of (v, cache) \<Rightarrow>
        (case through_oauth W h r body v of (res, v') \<Rightarrow>
           if res \<noteq> OForward then (AnsweredOAuth res, v', cache)
           else
             (let ctx = forward_identity_headers r (forward_request_bearer r empty_context) in
              case middleware (rw_json W) (rw_digests W) (rw_getenv W) (rw_environ W) (mh_schema h) (mh_mount h)
                     r body (rw_control W) (rw_now W) cache of
                (MwNext cfg, cache') \<Rightarrow> (ToTools (with_config cfg ctx), v', cache')
              | (answer, cache') \<Rightarrow> (AnsweredConfig answer, v', cache'))))"

subsection \<open>The routes of the monolith\<close>

text \<open>
  A \<open>ServeMux\<close> is the list of its patterns with what serves them. Registering a pattern twice panics; the
  patterns are paths without methods and wildcards, which is what adapter names without spaces and braces
  give.
\<close>

datatype route =
    RBridge bool                 \<comment> \<open>whether it is traced\<close>
  | RComposio bool
  | RRelay string
  | RAdapter mcp_handler
  | RVendor string               \<comment> \<open>a route the adapter of this name registered\<close>

type_synonym mux_routes = "(string \<times> route) list"

fun mux_handle :: "(string \<times> route) list \<Rightarrow> mux_routes \<Rightarrow> start_failure + mux_routes" where
  "mux_handle [] mx = Inr mx"
| "mux_handle ((pat, h) # rs) mx =
     (if pat \<in> fst ` set mx then Inl (StartPanic (''pattern conflicts: '' @ pat))
      else mux_handle rs (mx @ [(pat, h)]))"

definition mount_routes :: "string \<Rightarrow> route \<Rightarrow> (string \<times> route) list" where
  "mount_routes mount h = [(mount, h), (mount @ ''/'', h)]"

definition handler_for_platform ::
    "startup \<Rightarrow> string \<Rightarrow> process \<Rightarrow> start_failure + bool \<times> process" where
  \<comment> \<open>\<open>HandlerForBridge\<close> and \<open>HandlerForComposioExecutor\<close>: whether the handler is traced\<close>
  "handler_for_platform su config_file p =
     (case load_config (su_read su) (su_yaml su) (su_cwd su) config_file of
        Inl e \<Rightarrow> Inl (ConfigFailed e)
      | Inr cfg \<Rightarrow>
          (case wrap_with_tracing (su_getenv su) (su_exporter su) (Some cfg) (pr_tracer p) of
             (traced, tracer) \<Rightarrow> Inr (traced, p\<lparr>pr_tracer := tracer\<rparr>)))"

definition relay_routes :: "(string \<times> route) list" where
  "relay_routes = map (\<lambda>path. (path, RRelay path))
     [''/v1/connect'', ''/v1/harness/connect'', ''/relay/mcp/instances/'', ''/relay/harness/workers/'',
      ''/relay/harness/pick'']"

definition adapter_mount :: "string \<Rightarrow> string" where
  "adapter_mount name = ''/'' @ name @ ''/mcp''"

definition vendor_routes :: "string \<Rightarrow> adapter list \<Rightarrow> (string \<times> route) list" where
  "vendor_routes name adapters =
     map (\<lambda>pat. (pat, RVendor name))
       (concat (map (\<lambda>a. case_option [] id (ad_webhook a) @ case_option [] id (ad_vendor a)) adapters))"

fun route_adapters ::
    "startup \<Rightarrow> string \<Rightarrow> string list \<Rightarrow> mux_routes \<Rightarrow> process \<Rightarrow> start_failure + mux_routes" where
  "route_adapters su config_file [] mx p = Inr mx"
| "route_adapters su config_file (name # names) mx p =
     (case handler_for_adapter su config_file name (adapter_mount name) p of
        Inl e \<Rightarrow> Inl e
      | Inr (h, p') \<Rightarrow>
          (case mux_handle (mount_routes (adapter_mount name) (RAdapter h)) mx of
             Inl e \<Rightarrow> Inl e
           | Inr mx1 \<Rightarrow>
               (case get_adapters (su_order su) [name] (su_registry su) of
                  Inl e \<Rightarrow> Inl (AdapterFailed e)
                | Inr adapters \<Rightarrow>
                    (case mux_handle (vendor_routes name adapters) mx1 of
                       Inl e \<Rightarrow> Inl e
                     | Inr mx2 \<Rightarrow> route_adapters su config_file names mx2 p'))))"

definition run_with_router :: "startup \<Rightarrow> string \<Rightarrow> process \<Rightarrow> start_failure + string \<times> mux_routes" where
  "run_with_router su config_file p0 =
     (case load_config (su_read su) (su_yaml su) (su_cwd su) config_file of
        Inl e \<Rightarrow> Inl (ConfigFailed e)
      | Inr cfg \<Rightarrow>
          if su_order su = [] then Inl (AdapterFailed (AdapterNotFound ''(no adapters registered)''))
          else
            (case handler_for_platform su config_file p0 of
               Inl e \<Rightarrow> Inl e
             | Inr (b, p1) \<Rightarrow>
                 (case mux_handle (mount_routes bridge_mount_path (RBridge b)) [] of
                    Inl e \<Rightarrow> Inl e
                  | Inr mx1 \<Rightarrow>
                      (case handler_for_platform su config_file p1 of
                         Inl e \<Rightarrow> Inl e
                       | Inr (c, p2) \<Rightarrow>
                           (case mux_handle (mount_routes composio_mount_path (RComposio c) @ relay_routes) mx1 of
                              Inl e \<Rightarrow> Inl e
                            | Inr mx2 \<Rightarrow>
                                (case route_adapters su config_file (su_order su) mx2 p2 of
                                   Inl e \<Rightarrow> Inl e
                                 | Inr mx3 \<Rightarrow> Inr (router_addr (su_getenv su) (sf_server cfg), mx3)))))))"

subsection \<open>What the router serves\<close>

lemma mux_handle_Inr:
  "mux_handle rs mx = Inr mx' \<longleftrightarrow>
     mx' = mx @ rs \<and> distinct (map fst rs) \<and> fst ` set rs \<inter> fst ` set mx = {}"
proof (induction rs mx arbitrary: mx' rule: mux_handle.induct)
  case (2 pat h rs mx)
  show ?case
  proof (cases "pat \<in> fst ` set mx")
    case False
    with 2 [OF False] show ?thesis by auto
  qed auto
qed auto

lemma mux_handle_keeps_distinct:
  "mux_handle rs mx = Inr mx' \<Longrightarrow> distinct (map fst mx) \<Longrightarrow> distinct (map fst mx')"
  by (auto simp: mux_handle_Inr)

text \<open>A handler offers what its own adapter registers: the tools and the schema of earlier ones do not leak in.\<close>

definition own_handler :: "startup \<Rightarrow> string \<Rightarrow> string \<Rightarrow> mcp_handler \<Rightarrow> bool" where
  "own_handler su config_file name h \<longleftrightarrow>
     (\<exists>cfg a tools. load_config (su_read su) (su_yaml su) (su_cwd su) config_file = Inr cfg \<and>
        lookup_adapter (su_registry su) name = Some (Inr a) \<and>
        prepare_adapter_registration (ad_tools a) new_tool_state = (Inr (), tools) \<and>
        mh_tools h = wire_tools tools \<and> mh_schema h = add_fields a (snd (make_server (Some cfg))) \<and>
        mh_mount h = adapter_mount name \<and> mh_oauth_mount h = adapter_mount name \<and>
        mh_oauth h = oauth_config_from_env (su_getenv su))"

lemma prepare_new_server:
  "prepare_adapter_registration cs (new_server_tools p) = prepare_adapter_registration cs new_tool_state"
  by (simp add: prepare_adapter_registration_def reset_tool_registry_def new_server_tools_def new_tool_state_def)

lemma get_one_adapter:
  "get_adapters order [name] rg = Inr as \<longleftrightarrow> (\<exists>a. lookup_adapter rg name = Some (Inr a) \<and> as = [a])"
  unfolding get_adapters_def construct_adapters_Inr by (cases as) auto

lemma handler_for_adapter_own:
  assumes "handler_for_adapter su config_file name (adapter_mount name) p = Inr (h, p')"
  shows "own_handler su config_file name h"
proof -
  obtain cfg where cfg: "load_config (su_read su) (su_yaml su) (su_cwd su) config_file = Inr cfg"
    using assms by (auto simp: handler_for_adapter_def split: sum.splits)
  obtain as where as: "get_adapters (su_order su) [name] (su_registry su) = Inr as"
    using assms cfg by (auto simp: handler_for_adapter_def split: sum.splits)
  then obtain a where a: "lookup_adapter (su_registry su) name = Some (Inr a)" "as = [a]"
    unfolding get_one_adapter by blast
  obtain built where built: "prepare_all as (snd (make_server (Some cfg))) (new_server_tools p) = Inr built"
    "build_handler su cfg (adapter_mount name) (adapter_mount name) built p = (h, p')"
    using assms cfg as by (auto simp: handler_for_adapter_def split: sum.splits)
  then obtain tools where "prepare_adapter_registration (ad_tools a) new_tool_state = (Inr (), tools)"
    "built = (add_fields a (snd (make_server (Some cfg))), tools)"
    unfolding a(2) by (auto simp: prepare_new_server split: prod.splits sum.splits)
  with built(2) cfg a show ?thesis
    by (auto simp: own_handler_def build_handler_def Let_def split: prod.splits)
qed

lemma route_adapters_Inr:
  assumes "route_adapters su config_file names mx p = Inr mx'" "distinct (map fst mx)"
  shows "distinct (map fst mx') \<and> set mx \<subseteq> set mx' \<and>
    (\<forall>name \<in> set names. adapter_mount name \<notin> fst ` set mx \<and>
       (\<exists>h. own_handler su config_file name h \<and> set (mount_routes (adapter_mount name) (RAdapter h)) \<subseteq> set mx'))"
  using assms
proof (induction su config_file names mx p arbitrary: mx' rule: route_adapters.induct)
  case (2 su config_file name names mx p)
  obtain h p' where h: "handler_for_adapter su config_file name (adapter_mount name) p = Inr (h, p')"
    using "2.prems"(1) by (auto split: sum.splits)
  obtain mx1 where mx1: "mux_handle (mount_routes (adapter_mount name) (RAdapter h)) mx = Inr mx1"
    using "2.prems"(1) h by (auto split: sum.splits)
  obtain as where as: "get_adapters (su_order su) [name] (su_registry su) = Inr as"
    using "2.prems"(1) h mx1 by (auto split: sum.splits)
  obtain mx2 where mx2: "mux_handle (vendor_routes name as) mx1 = Inr mx2"
    "route_adapters su config_file names mx2 p' = Inr mx'"
    using "2.prems"(1) h mx1 as by (auto split: sum.splits)
  have d: "distinct (map fst mx2)"
    using mux_handle_keeps_distinct mx1 mx2(1) "2.prems"(2) by blast
  have sub: "set mx \<subseteq> set mx2" "set (mount_routes (adapter_mount name) (RAdapter h)) \<subseteq> set mx2"
    "adapter_mount name \<notin> fst ` set mx"
    using mx1 [unfolded mux_handle_Inr] mx2(1) [unfolded mux_handle_Inr] by (auto simp: mount_routes_def)
  note ih = "2.IH" [OF h refl mx1 as mx2(1) mx2(2) d]
  have own: "own_handler su config_file name h" by (rule handler_for_adapter_own [OF h])
  from sub(1) have "fst ` set mx \<subseteq> fst ` set mx2" by (rule image_mono)
  with ih sub own show ?case by (auto 0 3)
qed auto

subsection \<open>What reaches the tools of an adapter\<close>

lemma serve_mcp_ToTools:
  assumes "serve_mcp W h r body (v, cache) = (ToTools ctx, v', cache')"
  obtains cfg where "through_oauth W h r body v = (OForward, v')"
    "middleware (rw_json W) (rw_digests W) (rw_getenv W) (rw_environ W) (mh_schema h) (mh_mount h)
       r body (rw_control W) (rw_now W) cache = (MwNext cfg, cache')"
    "ctx = with_config cfg (forward_identity_headers r (forward_request_bearer r empty_context))"
  using assms by (auto simp: serve_mcp_def Let_def split: prod.splits if_splits mw_result.splits)

definition identity_of :: "request \<Rightarrow> string \<Rightarrow> string option" where
  \<comment> \<open>the identity header a tool may forward, if the request has it\<close>
  "identity_of r k =
     (if k \<in> set identity_header_names \<and> trim_space (r_header r k) \<noteq> '''' then Some (trim_space (r_header r k))
      else None)"

lemma forwarded_identity:
  "map_of (case_option [] id (identity_headers_from_context
     (Some (with_config cfg (forward_identity_headers r (forward_request_bearer r empty_context)))))) k = identity_of r k"
  by (auto simp: identity_headers_from_context_def forward_identity_headers_def with_config_def
      forward_request_bearer_def with_request_bearer_def empty_context_def identity_of_def Let_def
      identity_header_names_def)

lemma extract_token_trimmed [simp]: "trim_space (extract_token r) = extract_token r"
  by (simp add: extract_token_def Let_def trim_space_idem)

lemma forwarded_bearer:
  "request_bearer_from_context
     (Some (with_config cfg (forward_identity_headers r (forward_request_bearer r empty_context)))) = extract_token r"
  by (simp add: request_bearer_from_context_def forward_identity_headers_def with_config_def
      forward_request_bearer_def with_request_bearer_def empty_context_def Let_def)

text \<open>
  C1. Nothing reaches the tools past the chain: when the MCP server gets a request that the OAuth settings
  protect, its token is a platform token or a JWT that a fetched key of the issuer verifies and whose claims
  hold every required scope. Then the context the tools run in carries this very token, the caller's
  identity headers and nothing else for them, and the config: for a key of the schema the value the
  environment sets, else what Control resolved for this token. Control is asked exactly when the schema has
  keys, the method needs a config, a Control server is configured and there is a token; its answer is then
  used in full, and a failure of it reaches the tools, as a config without Control's values, only when
  fetching is not required or the environment alone satisfies the schema.
\<close>

theorem tools_run_for_the_caller:
  assumes "serve_mcp W h r body (v, cache) = (ToTools ctx, v', cache')"
    and "protected (rw_url W) (mh_oauth h) (mh_oauth_mount h) r body"
  shows "(has_prefix (extract_token r) ''pat_'' \<or>
      (\<exists>v1 kid key claims. v' = Some v1 \<and> jwt_kid (rw_jwt W) (extract_token r) = Some kid \<and>
         fmlookup (jv_keys v1) kid = Some key \<and> jwt_claims (rw_jwt W) key (extract_token r) = Some claims \<and>
         set (required_scopes (mh_oauth h)) \<subseteq> set (claim_scopes claims))) \<and>
    request_bearer_from_context (Some ctx) = extract_token r \<and>
    (\<forall>k. map_of (case_option [] id (identity_headers_from_context (Some ctx))) k = identity_of r k) \<and>
    (\<exists>cfg control. config_from_context ctx = Some cfg \<and>
       (if mh_schema h \<noteq> fmempty \<and> needs_resolved_config body \<and>
           trim_space (rw_getenv W ''MCP_CONTROL_SERVER_URL'') \<noteq> '''' \<and> extract_token r \<noteq> ''''
        then (case fetch_control_config_cached (rw_json W) (rw_digests W) (rw_getenv W) (extract_token r)
                (mh_schema h) (Some (build_runtime_context (rw_getenv W) r)) (rw_control W) (rw_now W) cache of
                (Inr resolved, c) \<Rightarrow> control = resolved \<and> cache' = c
              | (Inl err, c) \<Rightarrow> control = fmempty \<and> cache' = c \<and>
                  (config_required (rw_getenv W) \<longrightarrow>
                     env_alone_satisfies_required (mh_schema h) (new_lowercase_env_index (rw_environ W))))
        else control = fmempty \<and> cache' = cache) \<and>
       (\<forall>k. fmlookup cfg k = (if k |\<in>| fmdom (mh_schema h) \<and> env_setting (rw_environ W) k \<noteq> None
          then map_option GStr (env_setting (rw_environ W) k) else fmlookup control k)))"
proof -
  obtain cfg where c: "through_oauth W h r body v = (OForward, v')"
    "middleware (rw_json W) (rw_digests W) (rw_getenv W) (rw_environ W) (mh_schema h) (mh_mount h)
       r body (rw_control W) (rw_now W) cache = (MwNext cfg, cache')"
    "ctx = with_config cfg (forward_identity_headers r (forward_request_bearer r empty_context))"
    using assms(1) by (rule serve_mcp_ToTools)
  have "oauth_enabled (mh_oauth h)" using assms(2) by (simp add: protected_def)
  with c(1) oauth_middleware_guard [OF assms(2)]
  have auth: "has_prefix (extract_token r) ''pat_'' \<or>
      (\<exists>v1 kid key claims. v' = Some v1 \<and> jwt_kid (rw_jwt W) (extract_token r) = Some kid \<and>
         fmlookup (jv_keys v1) kid = Some key \<and> jwt_claims (rw_jwt W) key (extract_token r) = Some claims \<and>
         set (required_scopes (mh_oauth h)) \<subseteq> set (claim_scopes claims))"
    by (fastforce simp: through_oauth_def)
  have "config_from_context ctx = Some cfg" by (simp add: c(3) config_from_context_def with_config_def)
  with auth middleware_next_config [OF c(2)] show ?thesis
    unfolding c(3) forwarded_bearer forwarded_identity by blast
qed

definition demo_handler :: mcp_handler where
  "demo_handler =
     \<lparr>mh_server_name = ''MCPServer'', mh_schema = demo_schema, mh_tools = [],
      mh_options = new_streamable_http_options (\<lambda>_. '''') False, mh_mount = '''', mh_oauth_mount = ''/mcp'',
      mh_oauth = demo_oauth, mh_traced = False\<rparr>"

definition demo_world :: request_world where
  "demo_world =
     \<lparr>rw_json = demo_jwks_lib, rw_jwt = demo_jwt, rw_digests = demo_digests, rw_url = (\<lambda>_. None),
      rw_getenv = demo_env, rw_environ = [''api_key=e''], rw_keys = demo_fetched,
      rw_control = demo_net \<circ> (+) 2, rw_now = 4\<rparr>"

theorem tools_run_for_the_caller_witness:
  "\<exists>ctx cfg. fst (serve_mcp demo_world demo_handler (demo_post ''/mcp'' ''Bearer a.b.c'') None
        (demo_verifier, Map.empty)) = ToTools ctx \<and>
     request_bearer_from_context (Some ctx) = ''a.b.c'' \<and>
     config_from_context ctx = Some cfg \<and>
     fmlookup cfg ''api_key'' = Some (GStr ''e'') \<and> fmlookup cfg ''k'' = Some (GStr ''v'')"
proof -
  let ?r = "demo_post ''/mcp'' ''Bearer a.b.c''"
  obtain v' where o: "through_oauth demo_world demo_handler ?r None demo_verifier = (OForward, v')"
    using demo_forwarded demo_protected
    by (auto simp: through_oauth_def demo_world_def demo_handler_def protected_def)
  have a: "needs_resolved_config None" "trim_space (demo_env ''MCP_CONTROL_SERVER_URL'') \<noteq> ''''"
    "extract_token ?r \<noteq> ''''" by code_simp+
  have "\<not> is_schema_endpoint_for_mount ?r ''/mcp''" by code_simp
  moreover have "env_alone_satisfies_required demo_schema (new_lowercase_env_index [''api_key=e''])" by code_simp
  ultimately have "\<exists>cfg cache'. middleware demo_jwks_lib demo_digests demo_env [''api_key=e''] demo_schema ''''
      ?r None (demo_net \<circ> (+) 2) 4 Map.empty = (MwNext cfg, cache')"
    by (auto simp: middleware_def Let_def split: prod.split sum.split)
  with o obtain ctx cache' where s: "serve_mcp demo_world demo_handler ?r None (demo_verifier, Map.empty)
      = (ToTools ctx, v', cache')"
    by (auto simp: serve_mcp_def demo_world_def demo_handler_def Let_def)
  have p: "protected (rw_url demo_world) (mh_oauth demo_handler) (mh_oauth_mount demo_handler) ?r None"
    using demo_protected by (simp add: demo_world_def demo_handler_def)
  have e: "env_setting [''api_key=e''] ''api_key'' = Some ''e''" by code_simp
  have "list_ex (\<lambda>k. k = ''api_key'') (map_keys demo_schema)"
    "\<not> list_ex (\<lambda>k. k = ''k'') (map_keys demo_schema)" by code_simp+
  then have k: "''api_key'' |\<in>| fmdom demo_schema" "''k'' |\<notin>| fmdom demo_schema"
    by (auto simp only: list_ex_iff set_map_keys)
  then have ne: "demo_schema \<noteq> fmempty" by auto
  from tools_run_for_the_caller [OF s p] e k ne a demo_token s show ?thesis
    by (auto simp: demo_world_def demo_handler_def demo_fetch)
qed

text \<open>
  C6. The routes of the monolith: when the router starts, no pattern is registered twice, the platform's
  routes are there, and each adapter has the two patterns of its mount, served by a handler of its own, which
  offers the tools and the schema of that adapter and of no other. No adapter of a router that starts is
  named \<open>bridge\<close> or \<open>composio\<close>: such a name would make the registration panic.
\<close>

theorem router_gives_each_adapter_its_route:
  assumes "run_with_router su config_file p = Inr (addr, mx)"
  shows "distinct (map fst mx) \<and> su_order su \<noteq> [] \<and>
    fst ` set relay_routes \<union> {''/bridge/mcp'', ''/bridge/mcp/'', ''/composio/mcp'', ''/composio/mcp/''} \<subseteq> fst ` set mx \<and>
    ''bridge'' \<notin> set (su_order su) \<and> ''composio'' \<notin> set (su_order su) \<and>
    (\<forall>name \<in> set (su_order su). \<exists>h. own_handler su config_file name h \<and>
       map_of mx (''/'' @ name @ ''/mcp'') = Some (RAdapter h) \<and> map_of mx (''/'' @ name @ ''/mcp/'') = Some (RAdapter h))"
proof -
  obtain cfg where cfg: "load_config (su_read su) (su_yaml su) (su_cwd su) config_file = Inr cfg"
    using assms by (auto simp: run_with_router_def split: sum.splits)
  have ne: "su_order su \<noteq> []" using assms cfg by (auto simp: run_with_router_def)
  obtain b p1 where b: "handler_for_platform su config_file p = Inr (b, p1)"
    using assms cfg ne by (auto simp: run_with_router_def split: sum.splits)
  obtain c p2 where c: "handler_for_platform su config_file p1 = Inr (c, p2)"
    using assms cfg ne b by (auto simp: run_with_router_def split: sum.splits)
  let ?mx1 = "mount_routes bridge_mount_path (RBridge b)"
  let ?mx2 = "?mx1 @ mount_routes composio_mount_path (RComposio c) @ relay_routes"
  have m1: "mux_handle ?mx1 [] = Inr ?mx1" and
    m2: "mux_handle (mount_routes composio_mount_path (RComposio c) @ relay_routes) ?mx1 = Inr ?mx2"
    by (auto simp: mux_handle_Inr mount_routes_def bridge_mount_path_def composio_mount_path_def relay_routes_def)
  have r: "route_adapters su config_file (su_order su) ?mx2 p2 = Inr mx"
    using assms cfg ne b c m1 m2 by (auto simp: run_with_router_def split: sum.splits)
  have d: "distinct (map fst ?mx2)"
    by (auto simp: mount_routes_def bridge_mount_path_def composio_mount_path_def relay_routes_def)
  have fixed: "fst ` set ?mx2 = fst ` set relay_routes \<union>
      {''/bridge/mcp'', ''/bridge/mcp/'', ''/composio/mcp'', ''/composio/mcp/''}"
    by (auto simp: mount_routes_def bridge_mount_path_def composio_mount_path_def)
  note inv = route_adapters_Inr [OF r d]
  have "\<forall>name \<in> set (su_order su). adapter_mount name \<notin> fst ` set ?mx2" using inv by blast
  then have "''bridge'' \<notin> set (su_order su)" "''composio'' \<notin> set (su_order su)"
    unfolding fixed adapter_mount_def by auto
  moreover have "map_of mx (''/'' @ name @ ''/mcp'') = Some (RAdapter h)"
      "map_of mx (''/'' @ name @ ''/mcp/'') = Some (RAdapter h)"
    if "set (mount_routes (adapter_mount name) (RAdapter h)) \<subseteq> set mx" for name h
    using that inv by (auto intro!: map_of_is_SomeI simp: mount_routes_def adapter_mount_def)
  moreover have "fst ` set ?mx2 \<subseteq> fst ` set mx" using inv by (intro image_mono) blast
  ultimately show ?thesis using inv ne unfolding fixed by blast
qed

definition demo_adapter :: adapter where
  "demo_adapter =
     \<lparr>ad_schema = [], ad_tools = [demo_tool ''github_search'' False, demo_tool ''github_purge'' True],
      ad_webhook = Some [''/github/webhook''], ad_vendor = None\<rparr>"

definition demo_startup :: startup where
  "demo_startup =
     \<lparr>su_cwd = ''/app'', su_read = (\<lambda>_. FileMissing), su_yaml = (\<lambda>_. Inl ''''), su_getenv = (\<lambda>_. ''''),
      su_exporter = None, su_registry = register_adapter ''github'' (Inr demo_adapter) Map.empty,
      su_order = [''github'']\<rparr>"

definition demo_process :: process where
  "demo_process = \<lparr>pr_registry = [], pr_tracer = None\<rparr>"

lemma demo_config: "load_config (su_read demo_startup) (su_yaml demo_startup) (su_cwd demo_startup) f = Inr empty_server_file"
  by (simp add: load_config_def demo_startup_def)

lemma demo_registered:
  "lookup_adapter (su_registry demo_startup) ''github'' = Some (Inr demo_adapter)"
  "get_adapters (su_order demo_startup) [''github''] (su_registry demo_startup) = Inr [demo_adapter]"
  by (simp_all add: get_one_adapter demo_startup_def lookup_adapter_def register_adapter_def)

lemma demo_prepared:
  "\<exists>t. prepare_adapter_registration (ad_tools demo_adapter) s = (Inr (), t) \<and>
     map mt_name (wire_tools t) = map mt_name (wire_tools s) @ [''github_search'']"
  by (simp add: prepare_adapter_registration_def add_tool_def demo_tool_def demo_adapter_def
      tool_def_from_arg_def record_tool_registration_def reset_tool_registry_def Let_def)

lemma demo_handler_built: "\<exists>h p'. handler_for_adapter demo_startup '''' ''github'' m p = Inr (h, p')"
  using demo_prepared [of "new_server_tools p"]
  by (auto simp: handler_for_adapter_def demo_config demo_registered)

lemma demo_platform: "\<exists>b p'. handler_for_platform demo_startup '''' p = Inr (b, p')"
  by (simp add: handler_for_platform_def demo_config split: prod.split)

theorem router_gives_each_adapter_its_route_witness:
  "\<exists>mx h. run_with_router demo_startup '''' demo_process = Inr (''127.0.0.1:8000'', mx) \<and> length mx = 12 \<and>
     map_of mx ''/github/mcp'' = Some (RAdapter h) \<and> map mt_name (mh_tools h) = [''github_search'']"
proof -
  obtain b p1 where b: "handler_for_platform demo_startup '''' demo_process = Inr (b, p1)"
    using demo_platform by blast
  obtain c p2 where c: "handler_for_platform demo_startup '''' p1 = Inr (c, p2)" using demo_platform by blast
  obtain h p3 where h: "handler_for_adapter demo_startup '''' ''github'' (adapter_mount ''github'') p2 = Inr (h, p3)"
    using demo_handler_built by blast
  let ?mx = "mount_routes bridge_mount_path (RBridge b) @ mount_routes composio_mount_path (RComposio c) @ relay_routes @
      mount_routes (adapter_mount ''github'') (RAdapter h) @ vendor_routes ''github'' [demo_adapter]"
  have r: "route_adapters demo_startup '''' [''github'']
      (mount_routes bridge_mount_path (RBridge b) @ mount_routes composio_mount_path (RComposio c) @ relay_routes) p2 = Inr ?mx"
    unfolding route_adapters.simps h demo_registered sum.case prod.case
    by (simp add: mount_routes_def bridge_mount_path_def composio_mount_path_def relay_routes_def
        adapter_mount_def vendor_routes_def demo_adapter_def)
  have a: "router_addr (su_getenv demo_startup) (sf_server empty_server_file) = ''127.0.0.1:8000''"
    by (simp add: router_addr_def demo_startup_def empty_server_file_def get_env_def itoa_def nat_digits.simps char_of_def bit_iff_odd)
  have o: "su_order demo_startup = [''github'']" by (simp add: demo_startup_def)
  have "mux_handle (mount_routes bridge_mount_path (RBridge b)) [] = Inr (mount_routes bridge_mount_path (RBridge b))"
    "mux_handle (mount_routes composio_mount_path (RComposio c) @ relay_routes) (mount_routes bridge_mount_path (RBridge b))
       = Inr (mount_routes bridge_mount_path (RBridge b) @ mount_routes composio_mount_path (RComposio c) @ relay_routes)"
    by (simp_all add: mount_routes_def bridge_mount_path_def composio_mount_path_def relay_routes_def)
  then have mx: "run_with_router demo_startup '''' demo_process = Inr (''127.0.0.1:8000'', ?mx)"
    using r by (simp add: run_with_router_def demo_config o b c a)
  have len: "length ?mx = 12"
    by (simp add: mount_routes_def relay_routes_def vendor_routes_def demo_adapter_def)
  have "''github'' \<in> set (su_order demo_startup)" by (simp add: o)
  with router_gives_each_adapter_its_route [OF mx]
  obtain h' where h': "own_handler demo_startup '''' ''github'' h'"
    "map_of ?mx (''/'' @ ''github'' @ ''/mcp'') = Some (RAdapter h')"
    by blast
  have "map mt_name (mh_tools h') = [''github_search'']"
    using h'(1) demo_prepared [of new_tool_state] by (auto simp: own_handler_def demo_registered new_tool_state_def)
  moreover have "map_of ?mx ''/github/mcp'' = Some (RAdapter h')" using h'(2) by simp
  ultimately show ?thesis using mx len by (intro exI [of _ ?mx] exI [of _ h'] conjI)
qed

end
