(* ===== verification/Spec2Isabelle.thy ===== *)
theory Spec2Isabelle
  imports RelaySystem MuxSpec ToolOrg VendorAdmin ConnectorTest Router
begin

text \<open>
  A verification library for agentruntime-mcp-go: the Go SDK on which MCP connectors run as HTTP servers.

  \<^bold>\<open>The program.\<close> A connector registers an adapter: a config schema and tools. The runtime (runtime.go) serves
  one adapter or several, the router (router.go) serves every adapter under \<open>/<name>/mcp\<close> together with three
  services of the platform. A request to an adapter passes the OAuth resource server
  (oauth_*.go), which checks tokens, then the layers that put the caller's token and identity headers into
  the context (request_bearer.go, identity_headers.go), then the config middleware (middleware.go), which
  asks Control for the instance's config through a cache (control.go, config_cache.go) and merges the environment over
  it (env_config.go), and then reaches the MCP server with the tools that were registered (addtool.go,
  tooldef.go, adapter.go). The services are the bridge to external MCP servers (bridge.go,
  bridge_auth.go), the Composio executor (composio.go) and the outbound relay (relay/), where connectors
  and workers behind a firewall hold a websocket open and requests are forwarded over it. Webhooks of vendors are
  signed and delivered to subscriptions (webhook.go, adapter_route.go, inbound_vendor_admin.go). The
  packages toolschema, toolorg and connectortest build tool schemas from struct tags, organise tools in a catalog
  and check a connector's catalog in CI.

  \<^bold>\<open>The theories.\<close>
  \<^item> \<open>Prelude\<close>: time, list and map lemmas; \<open>reach\<close> with the locales \<open>invariant_system\<close> and \<open>simulation\<close>; the locales
    \<open>keyed_table\<close>, \<open>registry\<close> (tables by string key) and \<open>expiring_store\<close> (read-through caches).
  \<^item> \<open>GoStrings\<close>, \<open>GoValues\<close>, \<open>GoUrl\<close>, \<open>Sha256\<close>, \<open>Http\<close>: what the source uses of the Go library: string functions,
    dynamic values, JSON decoding into structs, URL escaping, SHA-256 and HMAC on 32-bit words, requests and replies.
  \<^item> \<open>Multiplexer\<close>, \<open>Hub\<close>, \<open>RelayServer\<close>, \<open>RelaySystem\<close>: the relay. The hub's tables and the heap of
    connections are records of maps; each handler is a function from the state to the state and a list of effects
    (responses, frames, callbacks, panics); \<open>RelaySystem\<close> runs any sequence of handler events, each a whole
    handler or the part of it up to a wait, so that one event can hold several mutex sections of the code;
    the single sections and channel operations are interleaved in \<open>Multiplexer\<close>.
  \<^item> \<open>MuxSpec\<close>: the promise of the multiplexer as an atomic mailbox, and the proof that its interleaved steps keep it.
  \<^item> \<open>ConfigEnv\<close> (config_schema.go, env_config.go, context.go), \<open>Control\<close> (control.go, errors.go, auth.go,
    request_bearer.go, identity_headers.go), \<open>ConfigCache\<close> (config_cache.go), \<open>Middleware\<close> (middleware.go).
  \<^item> \<open>OAuth\<close> (oauth_*.go): metadata, challenge, the key set cache, token verification, the middleware.
  \<^item> \<open>Tools\<close> (tooldef.go, addtool.go, registration.go, adapter.go), \<open>ToolOrg\<close> (toolorg/).
  \<^item> \<open>Inbound\<close> (webhook.go, adapter_route.go), \<open>VendorAdmin\<close> (inbound_vendor_admin.go).
  \<^item> \<open>Proxy\<close> (proxy.go), \<open>BridgeAuth\<close> (bridge_auth.go), \<open>Bridge\<close> (bridge.go), \<open>Composio\<close> (composio.go).
  \<^item> \<open>ToolSchema\<close> (toolschema/), \<open>ConnectorTest\<close> (connectortest/).
  \<^item> \<open>ServerConfig\<close> (config.go, tracing.go, server options), \<open>Router\<close> (runtime.go, router.go): building the handlers,
    the chain a request goes through, and the routes.

  \<^bold>\<open>How the model corresponds to the code.\<close> Names are the source's in lower case with underscores. A Go map is a finite
  map where its keys are ranged over and a function to options elsewhere; a JSON value is \<open>json\<close> as a
  syntax tree and \<open>goval\<close> once decoded into \<open>any\<close>. An error result is \<open>Inl\<close>, a panic is a value (\<open>Inl\<close>, \<open>None\<close> or the
  effect \<open>Panic\<close>) and never an undefined term. State is passed explicitly: the hub, the config cache, the key cache, the tool
  registry. A round trip is a function or a value given as argument, and what is sent is part of the result, so
  theorems can speak of the requests a handler makes. The order a Go map is ranged over is an argument
  where it matters. 64-bit arithmetic is written with \<open>wrap64\<close> where it can overflow (backoff, exponents, numbers
  from environment variables).

  \<^bold>\<open>What the properties show.\<close>
  \<^item> The chain in front of the tools: nothing that OAuth protects reaches them without an accepted token, and they run with
    the caller's own token, identity and config (\<open>Router\<close>, on lemmas of \<open>OAuth\<close> and \<open>Middleware\<close>); which requests are rejected,
    with which status, and which config is resolved; that cached configs and keys expire; that the
    retries against Control end within their budget.
  \<^item> The relay: a forward is answered with the frame that carries its id and with nothing else, for every
    order of events, and it is answered however the reply is surrounded by other events; the multiplexer never
    panics in any interleaving and implements a mailbox; listed sessions are live, with the two races the code has
    as theorems about them; job accounting, scheduling, eviction and admission are exact; and as long as no two
    writes to one socket overlap, which the code does not ensure, there is one way for the handlers to panic.
  \<^item> The services: the bridge and the executor post only what Control resolved for the caller, with exact headers,
    and every answer of the bridge is determined;
    the overlay of the proxy changes only its fields; signed deliveries verify and reach every subscription.
  \<^item> The tools: held tools stay off the wire, each adapter's route offers its own tools, tags of a struct constrain
    their property and parse back, catalog metadata is well formed and reads back, the wire name policy is exact.

  \<^bold>\<open>Bounds and termination.\<close> No fuel is used. Loops are structural recursions, except the retry loop of
  \<open>ConfigCache\<close>, which ends because each wait of at least a second uses up the budget (its measure is the time left
  to the deadline); waits are 0 or 1 to 60 seconds, cached configs live 30 to 120 seconds and key sets five
  minutes, bodies of lookups are read to \<open>2 ^ 20\<close> bytes.

  \<^bold>\<open>Not modelled.\<close> Sockets, the websocket upgrade and concurrent writes to one socket (the source takes no lock
  around \<open>ws.WriteMessage\<close>, and the websocket library panics on two writers at once); the HTTP client and server beyond
  requests and replies (no redirects, which \<open>http.Client\<close> follows on its own; of \<open>ServeMux\<close> only that a pattern
  registered twice panics); lexing of JSON (the record \<open>json_lib\<close>); the
  parsers of YAML, URLs and floats, regular expressions, the JWT library (\<open>jwt_lib\<close>), \<open>jsonschema.For\<close> and
  the MCP SDK, all arguments of the definitions that use them; digests in cache keys are an argument (\<open>Sha256\<close> gives the real
  one for signatures); case folding outside ASCII; log lines; \<open>singleflight\<close>, so that concurrent callers of the
  config cache are taken one at a time. A token that starts with \<open>pat_\<close> is let through by the OAuth layer without a check, as in
  the source: whoever the tools call with it has to check it.
\<close>

end
